(* ===== verification/Prelude.thy ===== *)
theory Prelude
  imports Complex_Main "HOL-Library.AList" "HOL-Library.List_Lexorder" "HOL-Library.Char_ord"
begin

text \<open>
  Shared vocabulary of the development: the exceptions the coordination runtime raises as one
  datatype, results as sums (\<open>Inl\<close> is a raised exception), Python idioms
  (\<open>a or b\<close>, \<open>dict\<close> insertion order, \<open>one_or_none\<close>), instants and durations as
  integers (microseconds), and the generic list, map and sorting lemmas that the component
  theories use.  String identifiers are \<open>string\<close>; Python compares them by code point, which is
  the lexicographic order of \<open>List_Lexorder\<close> over \<open>Char_ord\<close>.
\<close>

section \<open>Exceptions and results\<close>

text \<open>
  One constructor per exception class of the modelled code; an f-string message is represented
  by the values it formats, a constant message by its text.
\<close>

datatype py_error =
    ValueError string
  | KeyError string
  | PermissionError string
  | RuntimeError string
  | MultipleResultsFound
  | NoResultFound
  | IntegrityError string
  | InvalidTransitionError string string
  | OptimisticConflictError int int
  | OptimisticConflictMessage string
  | ActiveClaimError string
  | StaleFencingTokenError string
  | StaleWinnerError string
  | InvalidCursorError string
  | UnsupportedSchemaVersionError int
  | AuctionRegistryError string
  | AuctionNotFoundError string
  | BidRejectedError string
  | BidEnvelopeError string
  | ResumeRejectedError string string
  | IncompatibleCheckpointError string
  | ReasoningContractError string

type_synonym 'a result = "py_error + 'a"

type_synonym instant = int
type_synonym duration = int

text \<open>JSON values, the \<open>dict[str, Any]\<close> payloads the code stores without looking inside.\<close>

datatype json = JNull | JBool bool | JInt int | JStr string | JList "json list"
  | JObj "(string \<times> json) list"

text \<open>A stateful operation returns its result (or exception) and the state it leaves.\<close>

type_synonym ('s, 'a) op = "'s \<Rightarrow> 'a result \<times> 's"

fun raised :: "'a result \<Rightarrow> bool" where
  "raised (Inl _) = True"
| "raised (Inr _) = False"

lemma raised_iff: "raised r \<longleftrightarrow> (\<exists>e. r = Inl e)"
  by (cases r) auto

lemma not_raised_iff: "\<not> raised r \<longleftrightarrow> (\<exists>x. r = Inr x)"
  by (cases r) auto

section \<open>Python idioms\<close>

text \<open>\<open>a or b\<close> on an optional string: \<open>None\<close> and the empty string are false.\<close>

definition str_or :: "string option \<Rightarrow> string \<Rightarrow> string" where
  "str_or a b = (case a of None \<Rightarrow> b | Some s \<Rightarrow> if s = [] then b else s)"

lemma str_or_simps [simp]:
  "str_or None b = b"
  "str_or (Some []) b = b"
  "str_or (Some (c # cs)) b = c # cs"
  by (simp_all add: str_or_def)

lemma str_or_nonempty [simp]: "s \<noteq> [] \<Longrightarrow> str_or (Some s) b = s"
  by (simp add: str_or_def)

text \<open>Decimal digits: \<open>str\<close> of an integer.\<close>

function nat_digits :: "nat \<Rightarrow> string" where
  "nat_digits n = (if n < 10 then [char_of (48 + n)] else nat_digits (n div 10) @ [char_of (48 + n mod 10)])"
  by auto
termination by (relation "measure id") auto

declare nat_digits.simps [simp del]

definition str_int :: "int \<Rightarrow> string" where
  "str_int i = (if i < 0 then ''-'' @ nat_digits (nat (- i)) else nat_digits (nat i))"

text \<open>Rounding to the nearest integer, ties to even, as Python's \<open>round\<close> and \<open>timedelta\<close> do.\<close>

definition round_half_even :: "rat \<Rightarrow> int" where
  "round_half_even x = (let n = \<lfloor>x\<rfloor>; d = x - of_int n in
     if d < 1/2 then n else if d > 1/2 then n + 1 else if even n then n else n + 1)"

lemma round_half_even_bounds: "x - 1/2 \<le> of_int (round_half_even x)" "of_int (round_half_even x) \<le> x + 1/2"
proof -
  have "of_int \<lfloor>x\<rfloor> \<le> x" "x < of_int \<lfloor>x\<rfloor> + 1" by linarith+
  then show "x - 1/2 \<le> of_int (round_half_even x)" "of_int (round_half_even x) \<le> x + 1/2"
    unfolding round_half_even_def Let_def by (auto; linarith)+
qed

lemma round_half_even_int [simp]: "round_half_even (of_int n) = n"
  by (simp add: round_half_even_def)

lemma round_half_even_mono: "x \<le> y \<Longrightarrow> round_half_even x \<le> round_half_even y"
proof -
  assume "x \<le> y"
  then consider "\<lfloor>x\<rfloor> = \<lfloor>y\<rfloor>" | "\<lfloor>x\<rfloor> + 1 \<le> \<lfloor>y\<rfloor>" using floor_mono [OF \<open>x \<le> y\<close>] by linarith
  then show ?thesis
    using \<open>x \<le> y\<close> by cases (auto simp: round_half_even_def Let_def)
qed

text \<open>\<open>scalar_one_or_none\<close> and \<open>one_or_none\<close> of a result set; \<open>one\<close> raises on no row.\<close>

fun one_or_none :: "'a list \<Rightarrow> 'a option result" where
  "one_or_none [] = Inr None"
| "one_or_none [x] = Inr (Some x)"
| "one_or_none (x # y # zs) = Inl MultipleResultsFound"

fun exactly_one :: "'a list \<Rightarrow> 'a result" where
  "exactly_one [] = Inl NoResultFound"
| "exactly_one [x] = Inr x"
| "exactly_one (x # y # zs) = Inl MultipleResultsFound"

section \<open>Lists\<close>

named_theorems list_lib

lemma map_sum_Inr: "map_sum f g x = Inr y \<longleftrightarrow> (\<exists>z. x = Inr z \<and> g z = y)"
  by (cases x) auto

lemma length_le_1_cases:
  "length xs \<le> 1 \<Longrightarrow> (xs = [] \<Longrightarrow> P) \<Longrightarrow> (\<And>x. xs = [x] \<Longrightarrow> P) \<Longrightarrow> P"
  by (cases xs) auto

lemma distinct_map_filter_le_1 [list_lib]:
  "distinct (map f xs) \<Longrightarrow> length (filter (\<lambda>x. f x = k \<and> Q x) xs) \<le> 1"
proof (induction xs)
  case Nil
  then show ?case by simp
next
  case (Cons x xs)
  have "f x \<notin> f ` set xs" using Cons.prems by simp
  then have "y \<in> set xs \<Longrightarrow> f y \<noteq> f x" for y by (metis image_eqI)
  then have "f x = k \<Longrightarrow> filter (\<lambda>x. f x = k \<and> Q x) xs = []"
    by (auto simp: filter_empty_conv)
  then show ?case using Cons by auto
qed

lemma one_or_none_total [list_lib]:
  "length xs \<le> 1 \<Longrightarrow> one_or_none xs = Inr (case xs of [] \<Rightarrow> None | x # _ \<Rightarrow> Some x)"
  by (erule length_le_1_cases) auto

lemma one_or_none_Some [list_lib]: "one_or_none xs = Inr (Some x) \<longleftrightarrow> xs = [x]"
  by (cases xs rule: one_or_none.cases) auto

lemma one_or_none_None [list_lib]: "one_or_none xs = Inr None \<longleftrightarrow> xs = []"
  by (cases xs rule: one_or_none.cases) auto

lemma exactly_one_Inr [list_lib]: "exactly_one xs = Inr x \<longleftrightarrow> xs = [x]"
  by (cases xs rule: exactly_one.cases) auto

text \<open>Updating every row a predicate selects, the effect of \<open>UPDATE ... WHERE\<close>.\<close>

definition update_where :: "('r \<Rightarrow> bool) \<Rightarrow> ('r \<Rightarrow> 'r) \<Rightarrow> 'r list \<Rightarrow> 'r list" where
  "update_where p f rows = map (\<lambda>r. if p r then f r else r) rows"

lemma length_update_where [simp]: "length (update_where p f rows) = length rows"
  by (simp add: update_where_def)

lemma update_where_Nil [simp]: "update_where p f [] = []"
  by (simp add: update_where_def)

lemma update_where_Cons [simp]:
  "update_where p f (r # rs) = (if p r then f r else r) # update_where p f rs"
  by (simp add: update_where_def)

lemma set_update_where:
  "set (update_where p f rows) = {f r |r. r \<in> set rows \<and> p r} \<union> {r \<in> set rows. \<not> p r}"
  by (auto simp: update_where_def image_def)

lemma map_update_where [list_lib]:
  "(\<And>r. p r \<Longrightarrow> g (f r) = g r) \<Longrightarrow> map g (update_where p f rows) = map g rows"
  by (simp add: update_where_def)

lemma image_update_where [list_lib]:
  "(\<And>r. p r \<Longrightarrow> g (f r) = g r) \<Longrightarrow> g ` set (update_where p f rows) = g ` set rows"
  using map_update_where [of p g f rows] by (metis list.set_map)

lemma filter_update_where [list_lib]:
  "(\<And>r. p r \<Longrightarrow> q (f r) = q r) \<Longrightarrow>
   filter q (update_where p f rows) = update_where p f (filter q rows)"
  by (induction rows) auto

lemma update_where_none [list_lib]: "(\<And>r. r \<in> set rows \<Longrightarrow> \<not> p r) \<Longrightarrow> update_where p f rows = rows"
  by (induction rows) auto

text \<open>Rows under a unique key: the query for one key is a lookup.\<close>

lemma find_append [list_lib]:
  "find p (xs @ ys) = (case find p xs of None \<Rightarrow> find p ys | Some x \<Rightarrow> Some x)"
  by (induction xs) auto

lemma find_key_None: "find (\<lambda>r. key r = k) xs = None \<longleftrightarrow> k \<notin> key ` set xs"
  by (auto simp: find_None_iff)

lemma find_key_Some: "find (\<lambda>r. key r = k) xs = Some r \<Longrightarrow> r \<in> set xs \<and> key r = k"
  by (auto simp: find_Some_iff)

lemma find_key_unique: "distinct (map key xs) \<Longrightarrow> r \<in> set xs \<Longrightarrow> find (\<lambda>x. key x = key r) xs = Some r"
  by (induction xs) force+

lemma one_or_none_key [list_lib]:
  assumes "distinct (map key xs)"
  shows "one_or_none (filter (\<lambda>r. key r = k) xs) = Inr (find (\<lambda>r. key r = k) xs)"
proof -
  have "length (filter (\<lambda>r. key r = k \<and> True) xs) \<le> 1"
    by (rule distinct_map_filter_le_1 [OF assms])
  moreover have "find (\<lambda>r. key r = k) xs =
      (case filter (\<lambda>r. key r = k) xs of [] \<Rightarrow> None | x # _ \<Rightarrow> Some x)"
    by (induction xs) auto
  ultimately show ?thesis by (simp add: one_or_none_total)
qed

lemma find_update_unique:
  assumes "distinct (map key xs)" "row \<in> set xs" "key (g row) = key row"
    and "\<And>r. r \<in> set xs \<Longrightarrow> p r \<longleftrightarrow> r = row"
  shows "find (\<lambda>r. key r = k) (update_where p g xs) =
    (if key row = k then Some (g row) else find (\<lambda>r. key r = k) xs)"
  using assms
proof (induction xs)
  case (Cons x xs)
  show ?case
  proof (cases "x = row")
    case True
    then have "row \<notin> set xs" using Cons.prems(1) by auto
    then have "update_where p g xs = xs"
      using Cons.prems(4) by (intro update_where_none) auto
    then show ?thesis using True Cons.prems by auto
  next
    case False
    then have "row \<in> set xs" using Cons.prems(2) by simp
    then have "key x \<noteq> key row" using Cons.prems(1) by (metis distinct.simps(2) image_eqI list.map(2) list.set_map)
    then show ?thesis using False Cons by auto
  qed
qed simp

lemma find_update_where [list_lib]:
  "(\<And>r. p r \<Longrightarrow> key (g r) = key r) \<Longrightarrow>
   find (\<lambda>r. key r = k) (update_where p g xs) =
     map_option (\<lambda>r. if p r then g r else r) (find (\<lambda>r. key r = k) xs)"
  by (induction xs) auto

text \<open>Counting the rows of a kind across an update of one row.\<close>

lemma count_update_key:
  assumes "distinct (map key xs)" "find (\<lambda>r. key r = i) xs = Some row" "Q row"
  shows "int (length (filter q (update_where (\<lambda>r. key r = i \<and> Q r) g xs))) =
    int (length (filter q xs)) + of_bool (q (g row)) - of_bool (q row)"
  using assms
proof (induction xs)
  case (Cons x xs)
  show ?case
  proof (cases "key x = i")
    case True
    then have "update_where (\<lambda>r. key r = i \<and> Q r) g xs = xs"
      using Cons.prems(1) by (intro update_where_none) (auto simp: image_iff)
    then show ?thesis using True Cons.prems by auto
  qed (use Cons in auto)
qed simp

lemma filter_update_irrelevant [list_lib]:
  "(\<And>r. r \<in> set xs \<Longrightarrow> p r \<Longrightarrow> \<not> q r \<and> \<not> q (g r)) \<Longrightarrow> filter q (update_where p g xs) = filter q xs"
  by (induction xs) auto

text \<open>
  Row-level security: \<open>sqlalchemy_rls_context\<close> sets the tenant of the transaction and the
  policies of every coordination table show only that tenant's rows, unless the connection's role
  bypasses them (\<open>enforced = False\<close>: a superuser or BYPASSRLS role).
\<close>

definition rls_rows :: "bool \<Rightarrow> ('r \<Rightarrow> string) \<Rightarrow> string \<Rightarrow> 'r list \<Rightarrow> 'r list" where
  "rls_rows enforced tenant_of t rows =
     (if enforced then filter (\<lambda>r. tenant_of r = t) rows else rows)"

lemma rls_rows_simps [simp]:
  "rls_rows True f t rows = filter (\<lambda>r. f r = t) rows"
  "rls_rows False f t rows = rows"
  by (simp_all add: rls_rows_def)

lemma rls_rows_filter_tenant [simp]:
  "filter (\<lambda>r. p r \<and> f r = t) (rls_rows enforced f t rows) = filter (\<lambda>r. p r \<and> f r = t) rows"
  by (auto simp: rls_rows_def intro: filter_cong)

lemma rls_rows_tenant_filter [simp]:
  "filter (\<lambda>r. f r = t \<and> p r) (rls_rows enforced f t rows) = filter (\<lambda>r. f r = t \<and> p r) rows"
  by (auto simp: rls_rows_def intro: filter_cong)

section \<open>Dictionaries that are iterated\<close>

text \<open>
  A dictionary whose iteration order matters is an association list; \<open>AList.update\<close> is Python's
  assignment: an existing key keeps its position, a new key goes to the end.
\<close>

lemma map_of_alist_update [simp]: "map_of (AList.update k v d) = (map_of d)(k \<mapsto> v)"
  by (rule update_conv')

lemma alist_update_new: "k \<notin> fst ` set d \<Longrightarrow> AList.update k v d = d @ [(k, v)]"
  by (induction d) auto

lemma distinct_alist_update [simp]:
  "distinct (map fst d) \<Longrightarrow> distinct (map fst (AList.update k v d))"
  by (rule distinct_update)

lemma set_alist_update:
  "distinct (map fst d) \<Longrightarrow>
   set (AList.update k v d) = {(k, v)} \<union> {p \<in> set d. fst p \<noteq> k}"
  by (induction d) (auto simp: image_iff split: if_splits)

lemma find_map: "find p (map f xs) = map_option f (find (\<lambda>x. p (f x)) xs)"
  by (induction xs) auto

lemma alist_update_map:
  "distinct (map k xs) \<Longrightarrow> x \<in> set xs \<Longrightarrow>
   AList.update (k x) v (map (\<lambda>q. (k q, f q)) xs) = map (\<lambda>q. (k q, if k q = k x then v else f q)) xs"
proof (induction xs)
  case (Cons y ys)
  show ?case
  proof (cases "k y = k x")
    case True
    then have "k q \<noteq> k x" if "q \<in> set ys" for q using Cons.prems(1) that by (metis distinct.simps(2) image_eqI list.map(2) list.set_map)
    then show ?thesis using True by auto
  next
    case False
    then show ?thesis using Cons by auto
  qed
qed simp

lemma map_add_covered: "dom a \<subseteq> dom b \<Longrightarrow> m ++ a ++ b = m ++ b"
  by (rule ext) (auto simp: map_add_def split: option.splits)

section \<open>Sorting\<close>

lemma sort_key_hd_le:
  "sort_key f xs = y # ys \<Longrightarrow> x \<in> set xs \<Longrightarrow> f y \<le> f x"
  by (metis list.simps(9) set_ConsD set_sort sorted_simps(2) sorted_sort_key
      image_eqI list.set_map order_refl)

lemma sort_key_snoc_least [list_lib]:
  "(\<And>y. y \<in> set xs \<Longrightarrow> f x < f y) \<Longrightarrow> sort_key f (xs @ [x]) = x # sort_key f xs"
proof (induction xs)
  case (Cons a xs)
  have "f x < f a" using Cons.prems by simp
  then have "\<not> f a \<le> f x" by simp
  then show ?case using Cons by simp
qed simp

lemma sort_key_cong_order:
  assumes "\<And>x y. x \<in> set xs \<Longrightarrow> y \<in> set xs \<Longrightarrow> f x \<le> f y \<longleftrightarrow> g x \<le> g y"
  shows "sort_key f xs = sort_key g xs"
proof -
  have ins: "insort_key f x ys = insort_key g x ys" if "\<And>y. y \<in> set ys \<Longrightarrow> f x \<le> f y \<longleftrightarrow> g x \<le> g y" for x ys
    using that by (induction ys) auto
  show ?thesis using assms by (induction xs) (auto intro: ins)
qed

text \<open>A list sorted by a key without repetitions is determined by the lookup under that key.\<close>

lemma sorted_by_lookup:
  assumes "sorted (map g xs)" "distinct (map g xs)" "\<And>x. x \<in> set xs \<Longrightarrow> m (g x) = Some x"
  shows "xs = map (\<lambda>k. the (m k)) (sorted_list_of_set (g ` set xs))"
proof -
  have "sorted_list_of_set (g ` set xs) = map g xs"
    using assms(1,2) by (metis list.set_map sorted_list_of_set.idem_if_sorted_distinct)
  then show ?thesis using assms(3) by (simp add: comp_def map_idI)
qed

section \<open>Runs of a deterministic machine\<close>

text \<open>A run applies the operations in order; a raised exception leaves the state the operation left.\<close>

fun run_ops :: "('c \<Rightarrow> 's \<Rightarrow> 'r \<times> 's) \<Rightarrow> 's \<Rightarrow> 'c list \<Rightarrow> 's" where
  "run_ops step s [] = s"
| "run_ops step s (c # cs) = run_ops step (snd (step c s)) cs"

lemma run_ops_append [simp]:
  "run_ops step s (cs @ ds) = run_ops step (run_ops step s cs) ds"
  by (induction cs arbitrary: s) auto

lemma run_ops_invariant:
  assumes "I s" and "\<And>c s. I s \<Longrightarrow> I (snd (step c s))"
  shows "I (run_ops step s cs)"
  using assms(1) by (induction cs arbitrary: s) (auto intro: assms(2))

text \<open>A reflexive and transitive relation that every step respects holds across a run.\<close>

lemma run_ops_mono:
  assumes step: "\<And>c s. I s \<Longrightarrow> I (snd (step c s)) \<and> R s (snd (step c s))"
    and refl: "\<And>s. R s s"
    and trans: "\<And>a b c. R a b \<Longrightarrow> R b c \<Longrightarrow> R a c"
    and "I s"
  shows "R s (run_ops step s cs)"
  using \<open>I s\<close>
proof (induction cs arbitrary: s)
  case Nil
  then show ?case by (simp add: refl)
next
  case (Cons c cs)
  then show ?case using step by (auto intro: trans)
qed

text \<open>The results a run returns, in order.\<close>

fun trace_ops :: "('c \<Rightarrow> 's \<Rightarrow> 'r \<times> 's) \<Rightarrow> 's \<Rightarrow> 'c list \<Rightarrow> 'r list" where
  "trace_ops step s [] = []"
| "trace_ops step s (c # cs) = fst (step c s) # trace_ops step (snd (step c s)) cs"

text \<open>
  Forward simulation: steps that agree through an abstraction, as long as the remaining commands
  are admissible, give equal results along the whole run.
\<close>

lemma run_ops_simulation:
  assumes step: "\<And>c cs s. I s (c # cs) \<Longrightarrow>
      map_prod id f (cstep c s) = astep c (f s) \<and> I (snd (cstep c s)) cs"
    and "I s cs"
  shows "trace_ops cstep s cs = trace_ops astep (f s) cs \<and>
    f (run_ops cstep s cs) = run_ops astep (f s) cs"
  using \<open>I s cs\<close>
proof (induction cs arbitrary: s)
  case (Cons c cs)
  have "fst (cstep c s) = fst (astep c (f s))" "f (snd (cstep c s)) = snd (astep c (f s))"
    using step [OF Cons.prems] by (metis fst_map_prod id_apply, metis snd_map_prod)
  then show ?case using Cons.IH [of "snd (cstep c s)"] step [OF Cons.prems] by simp
qed simp

text \<open>Every command of the run is admissible in the state it is applied to.\<close>

fun admissible_run :: "('c \<Rightarrow> 's \<Rightarrow> 'r \<times> 's) \<Rightarrow> ('s \<Rightarrow> 'c \<Rightarrow> bool) \<Rightarrow> 's \<Rightarrow> 'c list \<Rightarrow> bool" where
  "admissible_run step ok s [] = True"
| "admissible_run step ok s (c # cs) = (ok s c \<and> admissible_run step ok (snd (step c s)) cs)"

lemma admissible_simulation:
  assumes step: "\<And>c s. I s \<Longrightarrow> ok s c \<Longrightarrow>
      map_prod id f (cstep c s) = astep c (f s) \<and> I (snd (cstep c s))"
    and "I s" "admissible_run cstep ok s cs"
  shows "trace_ops cstep s cs = trace_ops astep (f s) cs \<and>
    f (run_ops cstep s cs) = run_ops astep (f s) cs"
  by (rule run_ops_simulation [where I = "\<lambda>s cs. I s \<and> admissible_run cstep ok s cs"])
    (use assms in auto)

text \<open>Two machines related step by step, for commands that satisfy a condition of their own.\<close>

lemma related_runs:
  assumes step: "\<And>c a b. R a b \<Longrightarrow> ok c \<Longrightarrow> fst (f c a) = fst (g c b) \<and> R (snd (f c a)) (snd (g c b))"
    and "R a b" "list_all ok cs"
  shows "trace_ops f a cs = trace_ops g b cs \<and> R (run_ops f a cs) (run_ops g b cs)"
  using assms(2,3)
proof (induction cs arbitrary: a b)
  case (Cons c cs)
  then show ?case using step [of a b c] by simp
qed simp

text \<open>A prefix free of a separator is determined by the joined string.\<close>

lemma separator_split:
  "c \<notin> set a \<Longrightarrow> c \<notin> set b \<Longrightarrow> a @ c # x = b @ c # y \<longleftrightarrow> a = b \<and> x = y"
proof (induction a arbitrary: b)
  case Nil
  then show ?case by (cases b) auto
next
  case (Cons z a)
  then show ?case by (cases b) auto
qed

end
