(* ===== verification/Leases.thy ===== *)
theory Leases
  imports Prelude
begin

text \<open>
  Lease acquisition, heartbeats, fencing and reclaim, from \<open>app/coordination/leases.py\<close>.
  \<open>LeaseManager\<close> is a client of the repository interface (the source's \<open>LeaseRepository\<close>
  protocol), stated here as the locale \<open>lease_repository\<close>; both repositories of the source, the
  in-memory one and the PostgreSQL one, are interpreted as instances, so every fact about the
  manager holds of both.  Each repository method runs under a lock (an \<open>asyncio.Lock\<close>, or row
  locks in one transaction), so it is one atomic step; an exception rolls the transaction back.
  Clock readings and generated identifiers are arguments.
\<close>

record lease_claim =
  lc_tenant_id :: string
  lc_work_item_id :: string
  lc_owner_agent_id :: string
  lc_lease_id :: string
  lc_fencing_token :: int
  lc_heartbeat_at :: instant
  lc_lease_expires_at :: instant
  lc_state :: string

section \<open>The in-memory repository\<close>

type_synonym mem_leases = "string \<times> string \<rightharpoonup> lease_claim"

definition lease_live :: "lease_claim option \<Rightarrow> instant \<Rightarrow> bool" where
  "lease_live c now = (case c of None \<Rightarrow> False
     | Some c \<Rightarrow> lc_state c = ''active'' \<and> lc_lease_expires_at c > now)"

definition next_token :: "lease_claim option \<Rightarrow> int" where
  "next_token c = (case c of None \<Rightarrow> 1 | Some c \<Rightarrow> lc_fencing_token c + 1)"

type_synonym fresh_ids = "string \<times> string"  \<comment> \<open>a lease id and a row id\<close>

definition mem_acquire ::
  "string \<Rightarrow> string \<Rightarrow> string \<Rightarrow> instant \<Rightarrow> duration \<Rightarrow> fresh_ids \<Rightarrow> (mem_leases, lease_claim) op" where
  "mem_acquire tenant work owner now ttl fresh claims =
     (let key = (tenant, work); current = claims key in
      if lease_live current now then (Inl (ActiveClaimError work), claims)
      else let claim = \<lparr>lc_tenant_id = tenant, lc_work_item_id = work, lc_owner_agent_id = owner,
             lc_lease_id = fst fresh, lc_fencing_token = next_token current,
             lc_heartbeat_at = now, lc_lease_expires_at = now + ttl, lc_state = ''active''\<rparr>
           in (Inr claim, claims(key \<mapsto> claim)))"

definition lease_held :: "lease_claim option \<Rightarrow> string \<Rightarrow> int \<Rightarrow> bool" where
  "lease_held c owner token = (case c of None \<Rightarrow> False
     | Some c \<Rightarrow> lc_state c = ''active'' \<and> lc_owner_agent_id c = owner \<and> lc_fencing_token c = token)"

definition mem_mutate ::
  "string \<Rightarrow> string \<Rightarrow> string \<Rightarrow> int \<Rightarrow> instant \<Rightarrow> string option \<Rightarrow> duration option \<Rightarrow>
   (mem_leases, lease_claim) op" where
  "mem_mutate tenant work owner token now state ttl claims =
     (let key = (tenant, work) in
      case claims key of
        None \<Rightarrow> (Inl (StaleFencingTokenError work), claims)
      | Some current \<Rightarrow>
          if \<not> lease_held (Some current) owner token
          then (Inl (StaleFencingTokenError work), claims)
          else let updated = current\<lparr>lc_heartbeat_at := now,
                 lc_lease_expires_at := (case ttl of None \<Rightarrow> lc_lease_expires_at current
                                         | Some d \<Rightarrow> now + d),
                 lc_state := str_or state (lc_state current)\<rparr>
               in (Inr updated, claims(key \<mapsto> updated)))"

section \<open>The PostgreSQL repository\<close>

record claim_row =
  cr_id :: string
  cr_tenant_id :: string
  cr_work_item_id :: string
  cr_owner_agent_id :: string
  cr_lease_id :: string
  cr_fencing_token :: int
  cr_heartbeat_at :: instant
  cr_lease_expires_at :: instant
  cr_state :: string
  cr_version :: int

record work_item_row =
  wi_id :: string
  wi_tenant_id :: string
  wi_session_id :: string
  wi_state :: string

record pg_leases =
  pg_work_items :: "work_item_row list"
  pg_claims :: "claim_row list"

definition claim_of_row :: "claim_row \<Rightarrow> lease_claim" where
  "claim_of_row r = \<lparr>lc_tenant_id = cr_tenant_id r, lc_work_item_id = cr_work_item_id r,
     lc_owner_agent_id = cr_owner_agent_id r, lc_lease_id = cr_lease_id r,
     lc_fencing_token = cr_fencing_token r, lc_heartbeat_at = cr_heartbeat_at r,
     lc_lease_expires_at = cr_lease_expires_at r, lc_state = cr_state r\<rparr>"

definition pg_acquire ::
  "bool \<Rightarrow> string \<Rightarrow> string \<Rightarrow> string \<Rightarrow> instant \<Rightarrow> duration \<Rightarrow> fresh_ids \<Rightarrow>
   (pg_leases, lease_claim) op" where
  "pg_acquire enforced tenant work owner now ttl fresh db =
     (case one_or_none (filter (\<lambda>w. wi_id w = work)
             (rls_rows enforced wi_tenant_id tenant (pg_work_items db))) of
        Inl e \<Rightarrow> (Inl e, db)
      | Inr None \<Rightarrow> (Inl (KeyError work), db)
      | Inr (Some _) \<Rightarrow>
     (case one_or_none (filter (\<lambda>r. cr_work_item_id r = work)
             (rls_rows enforced cr_tenant_id tenant (pg_claims db))) of
        Inl e \<Rightarrow> (Inl e, db)
      | Inr current \<Rightarrow>
          if lease_live (map_option claim_of_row current) now
          then (Inl (ActiveClaimError work), db)
          else
            let token = next_token (map_option claim_of_row current);
                claim = \<lparr>lc_tenant_id = tenant, lc_work_item_id = work, lc_owner_agent_id = owner,
                  lc_lease_id = fst fresh, lc_fencing_token = token,
                  lc_heartbeat_at = now, lc_lease_expires_at = now + ttl, lc_state = ''active''\<rparr>
            in case current of
                 None \<Rightarrow>
                   if snd fresh \<in> cr_id ` set (pg_claims db)
                   then (Inl (IntegrityError ''claims.id''), db)
                   else (Inr claim, db\<lparr>pg_claims := pg_claims db @
                     [\<lparr>cr_id = snd fresh, cr_tenant_id = tenant, cr_work_item_id = work,
                       cr_owner_agent_id = owner, cr_lease_id = fst fresh, cr_fencing_token = token,
                       cr_heartbeat_at = now, cr_lease_expires_at = now + ttl,
                       cr_state = ''active'', cr_version = 1\<rparr>]\<rparr>)
               | Some row \<Rightarrow>
                   (Inr claim, db\<lparr>pg_claims := update_where
                     (\<lambda>r. cr_id r = cr_id row \<and> (enforced \<longrightarrow> cr_tenant_id r = tenant))
                     (\<lambda>r. r\<lparr>cr_owner_agent_id := owner, cr_lease_id := fst fresh,
                        cr_fencing_token := token, cr_heartbeat_at := now,
                        cr_lease_expires_at := now + ttl, cr_state := ''active'',
                        cr_version := cr_version row + 1\<rparr>) (pg_claims db)\<rparr>)))"

definition pg_mutate ::
  "bool \<Rightarrow> string \<Rightarrow> string \<Rightarrow> string \<Rightarrow> int \<Rightarrow> instant \<Rightarrow> string option \<Rightarrow> duration option \<Rightarrow>
   (pg_leases, lease_claim) op" where
  "pg_mutate enforced tenant work owner token now state ttl db =
     (case one_or_none (filter (\<lambda>r. cr_work_item_id r = work)
             (rls_rows enforced cr_tenant_id tenant (pg_claims db))) of
        Inl e \<Rightarrow> (Inl e, db)
      | Inr None \<Rightarrow> (Inl (StaleFencingTokenError work), db)
      | Inr (Some row) \<Rightarrow>
          if \<not> lease_held (Some (claim_of_row row)) owner token
          then (Inl (StaleFencingTokenError work), db)
          else
            let new_state = str_or state (cr_state row);
                expires_at = (case ttl of None \<Rightarrow> cr_lease_expires_at row | Some d \<Rightarrow> now + d)
            in (Inr \<lparr>lc_tenant_id = tenant, lc_work_item_id = work, lc_owner_agent_id = owner,
                  lc_lease_id = cr_lease_id row, lc_fencing_token = token, lc_heartbeat_at = now,
                  lc_lease_expires_at = expires_at, lc_state = new_state\<rparr>,
                db\<lparr>pg_claims := update_where
                  (\<lambda>r. cr_id r = cr_id row \<and> cr_version r = cr_version row \<and>
                       (enforced \<longrightarrow> cr_tenant_id r = tenant))
                  (\<lambda>r. r\<lparr>cr_heartbeat_at := now, cr_lease_expires_at := expires_at,
                     cr_state := new_state, cr_version := cr_version row + 1\<rparr>) (pg_claims db)\<rparr>))"

section \<open>The lease manager\<close>

text \<open>
  \<open>LeaseManager\<close> holds a repository; its operations take the repository's two methods.  The
  commands of a run are the manager's public methods.
\<close>

type_synonym 's acquire_fn =
  "string \<Rightarrow> string \<Rightarrow> string \<Rightarrow> instant \<Rightarrow> duration \<Rightarrow> fresh_ids \<Rightarrow> ('s, lease_claim) op"
type_synonym 's mutate_fn =
  "string \<Rightarrow> string \<Rightarrow> string \<Rightarrow> int \<Rightarrow> instant \<Rightarrow> string option \<Rightarrow> duration option \<Rightarrow> ('s, lease_claim) op"

definition validate_ttl :: "duration \<Rightarrow> unit result" where
  "validate_ttl ttl = (if ttl \<le> 0 then Inl (ValueError ''lease TTL must be positive'') else Inr ())"

definition manager_acquire :: "'s acquire_fn \<Rightarrow> 's acquire_fn" where
  "manager_acquire acquire tenant work owner now ttl fresh s =
     (case validate_ttl ttl of Inl e \<Rightarrow> (Inl e, s)
      | Inr _ \<Rightarrow> acquire tenant work owner now ttl fresh s)"

definition manager_heartbeat ::
  "'s mutate_fn \<Rightarrow> string \<Rightarrow> string \<Rightarrow> string \<Rightarrow> int \<Rightarrow> instant \<Rightarrow> duration \<Rightarrow> ('s, lease_claim) op" where
  "manager_heartbeat mutate tenant work owner token now ttl s =
     (case validate_ttl ttl of Inl e \<Rightarrow> (Inl e, s)
      | Inr _ \<Rightarrow> mutate tenant work owner token now None (Some ttl) s)"

definition manager_terminal ::
  "'s mutate_fn \<Rightarrow> string \<Rightarrow> string \<Rightarrow> string \<Rightarrow> int \<Rightarrow> instant \<Rightarrow> string \<Rightarrow> ('s, lease_claim) op" where
  "manager_terminal mutate tenant work owner token now state s =
     mutate tenant work owner token now (Some state) None s"

definition manager_complete ::
  "'s mutate_fn \<Rightarrow> string \<Rightarrow> string \<Rightarrow> string \<Rightarrow> int \<Rightarrow> instant \<Rightarrow> ('s, lease_claim) op" where
  "manager_complete mutate tenant work owner token now s =
     manager_terminal mutate tenant work owner token now ''completed'' s"

definition manager_release ::
  "'s mutate_fn \<Rightarrow> string \<Rightarrow> string \<Rightarrow> string \<Rightarrow> int \<Rightarrow> instant \<Rightarrow> ('s, lease_claim) op" where
  "manager_release mutate tenant work owner token now s =
     manager_terminal mutate tenant work owner token now ''released'' s"

datatype lease_command =
    Acquire string string string instant duration fresh_ids
  | Heartbeat string string string int instant duration
  | Complete string string string int instant
  | Release string string string int instant

fun lease_step ::
  "'s acquire_fn \<Rightarrow> 's mutate_fn \<Rightarrow> lease_command \<Rightarrow> ('s, lease_claim) op" where
  "lease_step acq mut (Acquire t w ag now ttl fr) s = manager_acquire acq t w ag now ttl fr s"
| "lease_step acq mut (Heartbeat t w ag tok now ttl) s = manager_heartbeat mut t w ag tok now ttl s"
| "lease_step acq mut (Complete t w ag tok now) s = manager_complete mut t w ag tok now s"
| "lease_step acq mut (Release t w ag tok now) s = manager_release mut t w ag tok now s"

fun presents_token :: "lease_command \<Rightarrow> string \<Rightarrow> string \<Rightarrow> int \<Rightarrow> bool" where
  "presents_token (Acquire _ _ _ _ _ _) t w tok = False"
| "presents_token (Heartbeat t' w' _ tok' _ ttl) t w tok = (t' = t \<and> w' = w \<and> tok' = tok \<and> 0 < ttl)"
| "presents_token (Complete t' w' _ tok' _) t w tok = (t' = t \<and> w' = w \<and> tok' = tok)"
| "presents_token (Release t' w' _ tok' _) t w tok = (t' = t \<and> w' = w \<and> tok' = tok)"

text \<open>The identifiers a command uses up if it inserts a row.\<close>

fun acquire_ids :: "lease_command \<Rightarrow> string list" where
  "acquire_ids (Acquire _ _ _ _ _ fr) = [snd fr]"
| "acquire_ids _ = []"

fun acquires :: "lease_command \<Rightarrow> (string \<times> string) list" where
  "acquires (Acquire t w _ _ _ _) = [(t, w)]"
| "acquires _ = []"

text \<open>Commands that are not the holder's own: other keys, other credentials, or an acquisition
  attempted before the expiry.\<close>

fun foreign_command :: "lease_claim \<Rightarrow> lease_command \<Rightarrow> bool" where
  "foreign_command c (Acquire t w _ now _ _) \<longleftrightarrow>
     (t, w) \<noteq> (lc_tenant_id c, lc_work_item_id c) \<or> now < lc_lease_expires_at c"
| "foreign_command c (Heartbeat t w ag tok _ _) \<longleftrightarrow>
     (t, w, ag, tok) \<noteq> (lc_tenant_id c, lc_work_item_id c, lc_owner_agent_id c, lc_fencing_token c)"
| "foreign_command c (Complete t w ag tok _) \<longleftrightarrow>
     (t, w, ag, tok) \<noteq> (lc_tenant_id c, lc_work_item_id c, lc_owner_agent_id c, lc_fencing_token c)"
| "foreign_command c (Release t w ag tok _) \<longleftrightarrow>
     (t, w, ag, tok) \<noteq> (lc_tenant_id c, lc_work_item_id c, lc_owner_agent_id c, lc_fencing_token c)"

section \<open>The repository contract and its clients\<close>

text \<open>
  The in-memory repository is the specification: a repository with abstraction \<open>current\<close> (the
  claim on record for a work item) behaves as it does whenever it admits the request, and refuses
  the others without an effect.
\<close>

locale lease_repository =
  fixes acquire :: "'s acquire_fn"
    and mutate :: "'s mutate_fn"
    and current :: "'s \<Rightarrow> mem_leases"
    and admits :: "'s \<Rightarrow> string \<times> string \<Rightarrow> fresh_ids \<Rightarrow> bool"
    and invar :: "'s \<Rightarrow> bool"
  assumes acquire_spec: "invar s \<Longrightarrow> admits s (t, w) fr \<Longrightarrow>
      map_prod id current (acquire t w ag now ttl fr s) = mem_acquire t w ag now ttl fr (current s)"
    and acquire_refused: "invar s \<Longrightarrow> \<not> admits s (t, w) fr \<Longrightarrow>
      raised (fst (acquire t w ag now ttl fr s)) \<and> snd (acquire t w ag now ttl fr s) = s"
    and mutate_spec: "invar s \<Longrightarrow>
      map_prod id current (mutate t w ag tok now st d s) = mem_mutate t w ag tok now st d (current s)"
    and invar_acquire: "invar s \<Longrightarrow> invar (snd (acquire t w ag now ttl fr s))"
    and invar_mutate: "invar s \<Longrightarrow> invar (snd (mutate t w ag tok now st d s))"
begin

lemma acquire_cases:
  assumes "invar s"
  shows "raised (fst (acquire t w ag now ttl fr s)) \<and> snd (acquire t w ag now ttl fr s) = s \<or>
     (fst (acquire t w ag now ttl fr s), current (snd (acquire t w ag now ttl fr s)))
       = mem_acquire t w ag now ttl fr (current s)"
  using acquire_refused [OF assms, of t w fr ag now ttl] acquire_spec [OF assms, of t w fr ag now ttl]
  by (cases "admits s (t, w) fr"; cases "acquire t w ag now ttl fr s") auto

lemma mutate_result:
  assumes "invar s"
  shows "fst (mutate t w ag tok now st d s) = fst (mem_mutate t w ag tok now st d (current s))"
    and "current (snd (mutate t w ag tok now st d s))
      = snd (mem_mutate t w ag tok now st d (current s))"
  using mutate_spec [OF assms, of t w ag tok now st d]
  by (cases "mutate t w ag tok now st d s"; cases "mem_mutate t w ag tok now st d (current s)"; simp)+

lemma invar_step: "invar s \<Longrightarrow> invar (snd (lease_step acquire mutate c s))"
  by (cases c) (auto simp: manager_acquire_def manager_heartbeat_def manager_complete_def
      manager_release_def manager_terminal_def invar_acquire invar_mutate split: sum.splits)

text \<open>Tokens only grow, and a claim never disappears.\<close>

definition tokens_grow :: "'s \<Rightarrow> 's \<Rightarrow> bool" where
  "tokens_grow s s' \<longleftrightarrow> (\<forall>k c. current s k = Some c \<longrightarrow>
     (\<exists>c'. current s' k = Some c' \<and> lc_fencing_token c \<le> lc_fencing_token c'))"

lemma tokens_grow_refl: "tokens_grow s s"
  by (simp add: tokens_grow_def)

lemma tokens_grow_trans: "tokens_grow a b \<Longrightarrow> tokens_grow b c \<Longrightarrow> tokens_grow a c"
  by (fastforce simp: tokens_grow_def)

lemma tokens_grow_acquire: "invar s \<Longrightarrow> tokens_grow s (snd (acquire t w ag now ttl fr s))"
  using acquire_cases [of s t w ag now ttl fr]
  by (auto simp: tokens_grow_def mem_acquire_def next_token_def Let_def prod_eq_iff
      split: if_splits option.splits)

lemma tokens_grow_mutate: "invar s \<Longrightarrow> tokens_grow s (snd (mutate t w ag tok now st d s))"
  by (auto simp: tokens_grow_def mutate_result mem_mutate_def Let_def
      split: option.splits if_splits)

lemma tokens_grow_step: "invar s \<Longrightarrow> tokens_grow s (snd (lease_step acquire mutate c s))"
  by (cases c) (auto simp: manager_acquire_def manager_heartbeat_def manager_complete_def
      manager_release_def manager_terminal_def tokens_grow_acquire tokens_grow_mutate
      tokens_grow_refl split: sum.splits)

lemma tokens_grow_run: "invar s \<Longrightarrow> tokens_grow s (run_ops (lease_step acquire mutate) s cs)"
  by (rule run_ops_mono [where I = invar])
    (auto intro: invar_step tokens_grow_step tokens_grow_refl tokens_grow_trans)

lemma invar_run: "invar s \<Longrightarrow> invar (run_ops (lease_step acquire mutate) s cs)"
  by (rule run_ops_invariant) (auto intro: invar_step)

text \<open>A command that presents an outdated token is refused and changes nothing on record.\<close>

lemma stale_step:
  assumes "invar s" "current s (t, w) = Some c" "tok < lc_fencing_token c"
    and "presents_token cmd t w tok"
  shows "fst (lease_step acquire mutate cmd s) = Inl (StaleFencingTokenError w) \<and>
    current (snd (lease_step acquire mutate cmd s)) = current s"
proof -
  have "\<not> lease_held (Some c) ag tok" for ag using assms(3) by (simp add: lease_held_def)
  then have "fst (mutate t w ag tok now st d s) = Inl (StaleFencingTokenError w) \<and>
     current (snd (mutate t w ag tok now st d s)) = current s" for ag now st d
    by (simp add: mutate_result [OF assms(1)] mem_mutate_def assms(2) Let_def)
  then show ?thesis using assms(4)
    by (cases cmd) (auto simp: manager_heartbeat_def manager_complete_def
      manager_release_def manager_terminal_def validate_ttl_def)
qed

lemma stale_forever:
  assumes "invar s" "current s (t, w) = Some c" "tok < lc_fencing_token c"
    and "presents_token cmd t w tok"
  shows "fst (lease_step acquire mutate cmd (run_ops (lease_step acquire mutate) s cs))
      = Inl (StaleFencingTokenError w)"
proof -
  obtain c' where "current (run_ops (lease_step acquire mutate) s cs) (t, w) = Some c'"
    "lc_fencing_token c \<le> lc_fencing_token c'"
    using tokens_grow_run [OF assms(1)] assms(2) by (fastforce simp: tokens_grow_def)
  then show ?thesis
    using stale_step [OF invar_run [OF assms(1)], of cs t w c' tok cmd] assms(3,4) by simp
qed

text \<open>A successful acquisition outdates the token of every earlier one of that work item.\<close>

lemma acquired_token:
  assumes "invar s" "acquire t w ag now ttl fr s = (Inr c, s')"
  shows "current s' (t, w) = Some c" "lc_fencing_token c = next_token (current s (t, w))"
    and "\<not> lease_live (current s (t, w)) now"
    and "lc_owner_agent_id c = ag" "lc_lease_expires_at c = now + ttl" "lc_state c = ''active''"
  using acquire_cases [OF assms(1), of t w ag now ttl fr] assms(2)
  by (auto simp: mem_acquire_def Let_def split: if_splits)

lemma reclaimed_owner_fenced:
  assumes "invar s" "acquire t w ag now ttl fr s = (Inr c, s1)"
    and "acquire t w ag' now' ttl' fr' (run_ops (lease_step acquire mutate) s1 cs) = (Inr c', s2)"
    and "presents_token cmd t w (lc_fencing_token c)"
  shows "lc_fencing_token c < lc_fencing_token c' \<and>
    fst (lease_step acquire mutate cmd (run_ops (lease_step acquire mutate) s2 ds))
      = Inl (StaleFencingTokenError w)"
proof -
  let ?m = "run_ops (lease_step acquire mutate) s1 cs"
  have s1: "invar s1" using invar_acquire [OF assms(1), of t w ag now ttl fr] assms(2) by simp
  have m: "invar ?m" by (rule invar_run [OF s1])
  have s2: "invar s2" using invar_acquire [OF m, of t w ag' now' ttl' fr'] assms(3) by simp
  obtain d where "current ?m (t, w) = Some d" "lc_fencing_token c \<le> lc_fencing_token d"
    using tokens_grow_run [OF s1] acquired_token(1) [OF assms(1,2)] by (fastforce simp: tokens_grow_def)
  then have less: "lc_fencing_token c < lc_fencing_token c'"
    using acquired_token(2) [OF m assms(3)] by (simp add: next_token_def)
  with stale_forever [OF s2 acquired_token(1) [OF m assms(3)] less assms(4), of ds]
  show ?thesis by simp
qed

text \<open>Only the holder changes a live lease.\<close>

lemma live_lease_step:
  assumes "invar s" "current s (lc_tenant_id c, lc_work_item_id c) = Some c" "lc_state c = ''active''"
    and "foreign_command c cmd"
  shows "current (snd (lease_step acquire mutate cmd s)) (lc_tenant_id c, lc_work_item_id c) = Some c"
proof -
  have "current (snd (acquire t w ag now ttl fr s)) (lc_tenant_id c, lc_work_item_id c) = Some c"
    if "(t, w) \<noteq> (lc_tenant_id c, lc_work_item_id c) \<or> now < lc_lease_expires_at c" for t w ag now ttl fr
    using acquire_cases [OF assms(1), of t w ag now ttl fr] assms(2,3) that
    by (auto simp: mem_acquire_def lease_live_def Let_def prod_eq_iff split: if_splits)
  moreover have "current (snd (mutate t w ag tok now st d s)) (lc_tenant_id c, lc_work_item_id c) = Some c"
    if "(t, w, ag, tok) \<noteq> (lc_tenant_id c, lc_work_item_id c, lc_owner_agent_id c, lc_fencing_token c)"
    for t w ag tok now st d
    using assms(2) that
    by (auto simp: mutate_result [OF assms(1)] mem_mutate_def lease_held_def Let_def split: option.splits)
  ultimately show ?thesis using assms(2,4)
    by (cases cmd) (auto simp: manager_acquire_def manager_heartbeat_def manager_complete_def
      manager_release_def manager_terminal_def split: sum.splits)
qed

lemma live_lease_run:
  assumes "invar s" "current s (lc_tenant_id c, lc_work_item_id c) = Some c" "lc_state c = ''active''"
    and "list_all (foreign_command c) cs"
  shows "current (run_ops (lease_step acquire mutate) s cs) (lc_tenant_id c, lc_work_item_id c) = Some c"
  using assms
proof (induction cs arbitrary: s)
  case (Cons cmd cs)
  then show ?case using live_lease_step [of s c cmd] invar_step [of s cmd] by simp
qed simp

lemma manager_acquire_Inr:
  "manager_acquire acquire t w ag now ttl fr s = (Inr c, s') \<Longrightarrow> acquire t w ag now ttl fr s = (Inr c, s')"
  by (auto simp: manager_acquire_def split: sum.splits)

end

section \<open>Both repositories keep the contract\<close>

interpretation mem_repo: lease_repository mem_acquire mem_mutate id "\<lambda>_ _ _. True" "\<lambda>_. True"
  by unfold_locales (simp_all add: prod.map_id)

definition pg_key :: "claim_row \<Rightarrow> string \<times> string" where
  "pg_key r = (cr_tenant_id r, cr_work_item_id r)"

definition pg_row :: "pg_leases \<Rightarrow> string \<times> string \<Rightarrow> claim_row option" where
  "pg_row db k = find (\<lambda>r. pg_key r = k) (pg_claims db)"

definition pg_current :: "pg_leases \<Rightarrow> mem_leases" where
  "pg_current db k = map_option claim_of_row (pg_row db k)"

definition pg_registered :: "pg_leases \<Rightarrow> string \<times> string \<Rightarrow> bool" where
  "pg_registered db k \<longleftrightarrow> (\<exists>w \<in> set (pg_work_items db). wi_tenant_id w = fst k \<and> wi_id w = snd k)"

definition pg_admits :: "pg_leases \<Rightarrow> string \<times> string \<Rightarrow> fresh_ids \<Rightarrow> bool" where
  "pg_admits db k fr \<longleftrightarrow> pg_registered db k \<and>
     (pg_row db k = None \<longrightarrow> snd fr \<notin> cr_id ` set (pg_claims db))"

definition pg_invar :: "pg_leases \<Rightarrow> bool" where
  "pg_invar db \<longleftrightarrow> distinct (map wi_id (pg_work_items db)) \<and>
     distinct (map cr_id (pg_claims db)) \<and> distinct (map pg_key (pg_claims db))"

text \<open>The two queries of a transaction, as lookups.\<close>

lemma pg_claim_query:
  assumes "pg_invar db"
  shows "one_or_none (filter (\<lambda>r. cr_work_item_id r = w) (rls_rows True cr_tenant_id t (pg_claims db)))
    = Inr (pg_row db (t, w))"
proof -
  have "filter (\<lambda>r. cr_work_item_id r = w) (rls_rows True cr_tenant_id t (pg_claims db))
      = filter (\<lambda>r. pg_key r = (t, w)) (pg_claims db)"
    by (auto simp: pg_key_def intro: filter_cong)
  then show ?thesis
    using assms one_or_none_key [of pg_key "pg_claims db" "(t, w)"] by (simp add: pg_invar_def pg_row_def)
qed

lemma pg_work_item_query:
  assumes "pg_invar db"
  shows "\<exists>x. one_or_none (filter (\<lambda>r. wi_id r = w) (rls_rows True wi_tenant_id t (pg_work_items db)))
    = Inr (if pg_registered db (t, w) then Some x else None)"
proof -
  have "distinct (map wi_id (filter (\<lambda>r. wi_tenant_id r = t) (pg_work_items db)))"
    using assms by (auto simp: pg_invar_def distinct_map_filter)
  from one_or_none_key [OF this, of w]
  have "one_or_none (filter (\<lambda>r. wi_id r = w) (rls_rows True wi_tenant_id t (pg_work_items db)))
    = Inr (find (\<lambda>r. wi_id r = w) (filter (\<lambda>r. wi_tenant_id r = t) (pg_work_items db)))" by simp
  moreover have "find (\<lambda>r. wi_id r = w) (filter (\<lambda>r. wi_tenant_id r = t) (pg_work_items db)) = None
      \<longleftrightarrow> \<not> pg_registered db (t, w)"
    by (auto simp: find_None_iff pg_registered_def)
  ultimately show ?thesis by auto
qed

lemma pg_row_mem: "pg_row db k = Some r \<Longrightarrow> r \<in> set (pg_claims db) \<and> pg_key r = k"
  unfolding pg_row_def by (rule find_key_Some)

text \<open>Updating the one row a query returned, keeping its key.\<close>

lemma pg_row_update:
  assumes "pg_invar db" "pg_row db (t, w) = Some row"
    and "\<And>r. r \<in> set (pg_claims db) \<Longrightarrow> p r \<longleftrightarrow> r = row" and "pg_key (g row) = pg_key row"
  shows "pg_row (db\<lparr>pg_claims := update_where p g (pg_claims db)\<rparr>)
    = (\<lambda>k. if k = (t, w) then Some (g row) else pg_row db k)"
proof
  fix k
  have row: "row \<in> set (pg_claims db)" "pg_key row = (t, w)" using pg_row_mem [OF assms(2)] by auto
  have "distinct (map pg_key (pg_claims db))" using assms(1) by (simp add: pg_invar_def)
  from find_update_unique [where key = pg_key and g = g and p = p and k = k, OF this row(1) assms(4) assms(3)]
  show "pg_row (db\<lparr>pg_claims := update_where p g (pg_claims db)\<rparr>) k
      = (if k = (t, w) then Some (g row) else pg_row db k)"
    by (auto simp: pg_row_def row(2))
qed

lemma pg_row_is: "pg_invar db \<Longrightarrow> pg_row db (t, w) = Some row \<Longrightarrow> r \<in> set (pg_claims db) \<Longrightarrow>
    cr_id r = cr_id row \<longleftrightarrow> r = row"
  using pg_row_mem [of db "(t, w)" row]
  by (auto simp: pg_invar_def distinct_map inj_on_def)

lemma pg_invar_update:
  "pg_invar db \<Longrightarrow> (\<And>r. cr_id (g r) = cr_id r) \<Longrightarrow> (\<And>r. pg_key (g r) = pg_key r) \<Longrightarrow>
   pg_invar (db\<lparr>pg_claims := update_where p g (pg_claims db)\<rparr>)"
  by (simp add: pg_invar_def map_update_where)

lemma pg_acquire_unregistered:
  "pg_invar db \<Longrightarrow> \<not> pg_registered db (t, w) \<Longrightarrow>
   pg_acquire True t w ag now ttl fr db = (Inl (KeyError w), db)"
  using pg_work_item_query [of db w t] by (auto simp: pg_acquire_def simp del: rls_rows_simps)

lemma pg_acquire_live:
  "pg_invar db \<Longrightarrow> pg_registered db (t, w) \<Longrightarrow> lease_live (pg_current db (t, w)) now \<Longrightarrow>
   pg_acquire True t w ag now ttl fr db = (Inl (ActiveClaimError w), db)"
  using pg_work_item_query [of db w t] pg_claim_query [of db w t]
  by (auto simp: pg_acquire_def pg_current_def simp del: rls_rows_simps)

lemma pg_acquire_new:
  assumes "pg_invar db" "pg_registered db (t, w)" "pg_row db (t, w) = None"
    and "snd fr \<notin> cr_id ` set (pg_claims db)"
  shows "map_prod id pg_current (pg_acquire True t w ag now ttl fr db)
      = mem_acquire t w ag now ttl fr (pg_current db)"
    and "pg_invar (snd (pg_acquire True t w ag now ttl fr db))"
proof -
  have key: "(t, w) \<notin> pg_key ` set (pg_claims db)"
    using assms(3) unfolding pg_row_def by (simp add: find_key_None)
  obtain r where r: "pg_acquire True t w ag now ttl fr db = (fst (mem_acquire t w ag now ttl fr (pg_current db)),
      db\<lparr>pg_claims := pg_claims db @ [r]\<rparr>)" "pg_key r = (t, w)" "cr_id r = snd fr"
      "Inr (claim_of_row r) = fst (mem_acquire t w ag now ttl fr (pg_current db))"
    using pg_work_item_query [OF assms(1), of w t] pg_claim_query [OF assms(1), of w t] assms(2-4)
    by (force simp: pg_acquire_def pg_current_def mem_acquire_def lease_live_def next_token_def Let_def
        pg_key_def claim_of_row_def simp del: rls_rows_simps)
  show "pg_invar (snd (pg_acquire True t w ag now ttl fr db))"
    using assms(1,4) key by (auto simp: r pg_invar_def)
  show "map_prod id pg_current (pg_acquire True t w ag now ttl fr db)
      = mem_acquire t w ag now ttl fr (pg_current db)"
    using assms(3) r(2,4)
    by (auto simp: r(1) fun_eq_iff pg_current_def pg_row_def find_append mem_acquire_def Let_def
        lease_live_def split: option.splits if_splits)
qed

lemma pg_acquire_reclaim:
  assumes "pg_invar db" "pg_registered db (t, w)" "pg_row db (t, w) = Some row"
    and "\<not> lease_live (pg_current db (t, w)) now"
  shows "map_prod id pg_current (pg_acquire True t w ag now ttl fr db)
      = mem_acquire t w ag now ttl fr (pg_current db)"
    and "pg_invar (snd (pg_acquire True t w ag now ttl fr db))"
proof -
  define p where "p = (\<lambda>r :: claim_row. cr_id r = cr_id row \<and> (True \<longrightarrow> cr_tenant_id r = t))"
  define g where "g = (\<lambda>r :: claim_row. r\<lparr>cr_owner_agent_id := ag, cr_lease_id := fst fr,
     cr_fencing_token := cr_fencing_token row + 1, cr_heartbeat_at := now,
     cr_lease_expires_at := now + ttl, cr_state := ''active'', cr_version := cr_version row + 1\<rparr>)"
  have row: "pg_key row = (t, w)" using pg_row_mem [OF assms(3)] by simp
  have eq: "pg_acquire True t w ag now ttl fr db = (Inr (claim_of_row (g row)),
      db\<lparr>pg_claims := update_where p g (pg_claims db)\<rparr>)"
    using pg_work_item_query [OF assms(1), of w t] pg_claim_query [OF assms(1), of w t] assms(2-4) row
    by (auto simp: pg_acquire_def pg_current_def next_token_def Let_def claim_of_row_def p_def g_def
        pg_key_def simp del: rls_rows_simps)
  have "p r \<longleftrightarrow> r = row" if "r \<in> set (pg_claims db)" for r
    using pg_row_is [OF assms(1,3) that] row by (auto simp: p_def pg_key_def)
  from pg_row_update [where p = p and g = g, OF assms(1,3) this]
  have upd: "pg_current (db\<lparr>pg_claims := update_where p g (pg_claims db)\<rparr>)
    = (pg_current db)((t, w) \<mapsto> claim_of_row (g row))"
    by (auto simp: g_def pg_key_def pg_current_def)
  have claim: "claim_of_row (g row) = \<lparr>lc_tenant_id = t, lc_work_item_id = w, lc_owner_agent_id = ag,
      lc_lease_id = fst fr, lc_fencing_token = next_token (pg_current db (t, w)),
      lc_heartbeat_at = now, lc_lease_expires_at = now + ttl, lc_state = ''active''\<rparr>"
    using row assms(3) by (simp add: claim_of_row_def g_def pg_key_def pg_current_def next_token_def)
  show "map_prod id pg_current (pg_acquire True t w ag now ttl fr db)
      = mem_acquire t w ag now ttl fr (pg_current db)"
    using assms(4) by (simp add: eq upd claim mem_acquire_def Let_def)
  show "pg_invar (snd (pg_acquire True t w ag now ttl fr db))"
    using pg_invar_update [OF assms(1), of g p] by (simp add: eq g_def pg_key_def)
qed

lemma pg_mutate_spec:
  assumes "pg_invar db"
  shows "map_prod id pg_current (pg_mutate True t w ag tok now st d db)
      = mem_mutate t w ag tok now st d (pg_current db)"
    and "pg_invar (snd (pg_mutate True t w ag tok now st d db))"
proof -
  have "map_prod id pg_current (pg_mutate True t w ag tok now st d db)
      = mem_mutate t w ag tok now st d (pg_current db) \<and>
    pg_invar (snd (pg_mutate True t w ag tok now st d db))"
  proof (cases "pg_row db (t, w)")
    case None
    then show ?thesis using pg_claim_query [OF assms, of w t] assms
      by (simp add: pg_mutate_def mem_mutate_def pg_current_def Let_def del: rls_rows_simps)
  next
    case (Some row)
    have row: "pg_key row = (t, w)" using pg_row_mem [OF Some] by simp
    show ?thesis
    proof (cases "lease_held (Some (claim_of_row row)) ag tok")
      case False
      then show ?thesis using pg_claim_query [OF assms, of w t] assms Some
        by (simp add: pg_mutate_def mem_mutate_def pg_current_def Let_def del: rls_rows_simps)
    next
      case True
      define p where "p = (\<lambda>r :: claim_row. cr_id r = cr_id row \<and> cr_version r = cr_version row \<and>
        (True \<longrightarrow> cr_tenant_id r = t))"
      define g where "g = (\<lambda>r :: claim_row. r\<lparr>cr_heartbeat_at := now,
         cr_lease_expires_at := (case d of None \<Rightarrow> cr_lease_expires_at row | Some d \<Rightarrow> now + d),
         cr_state := str_or st (cr_state row), cr_version := cr_version row + 1\<rparr>)"
      have eq: "pg_mutate True t w ag tok now st d db = (Inr (claim_of_row (g row)),
          db\<lparr>pg_claims := update_where p g (pg_claims db)\<rparr>)"
        using pg_claim_query [OF assms, of w t] Some True row
        by (auto simp: pg_mutate_def Let_def claim_of_row_def p_def g_def lease_held_def pg_key_def
            simp del: rls_rows_simps)
      have "p r \<longleftrightarrow> r = row" if "r \<in> set (pg_claims db)" for r
        using pg_row_is [OF assms Some that] row by (auto simp: p_def pg_key_def)
      from pg_row_update [where p = p and g = g, OF assms Some this]
      have upd: "pg_current (db\<lparr>pg_claims := update_where p g (pg_claims db)\<rparr>)
        = (pg_current db)((t, w) \<mapsto> claim_of_row (g row))"
        by (auto simp: g_def pg_key_def pg_current_def)
      have claim: "claim_of_row (g row) = (claim_of_row row)\<lparr>lc_heartbeat_at := now,
          lc_lease_expires_at := (case d of None \<Rightarrow> lc_lease_expires_at (claim_of_row row)
                                  | Some d \<Rightarrow> now + d),
          lc_state := str_or st (lc_state (claim_of_row row))\<rparr>"
        by (auto simp: claim_of_row_def g_def split: option.split)
      have "pg_current db (t, w) = Some (claim_of_row row)" using Some by (simp add: pg_current_def)
      moreover have "pg_invar (db\<lparr>pg_claims := update_where p g (pg_claims db)\<rparr>)"
        by (rule pg_invar_update [OF assms]) (simp_all add: g_def pg_key_def)
      ultimately show ?thesis using True by (simp add: eq upd claim mem_mutate_def Let_def)
    qed
  qed
  then show "map_prod id pg_current (pg_mutate True t w ag tok now st d db)
      = mem_mutate t w ag tok now st d (pg_current db)"
    and "pg_invar (snd (pg_mutate True t w ag tok now st d db))" by simp_all
qed

interpretation pg_repo: lease_repository "pg_acquire True" "pg_mutate True" pg_current pg_admits pg_invar
proof
  fix db t w fr ag now ttl
  assume inv: "pg_invar db"
  show "pg_invar (snd (pg_acquire True t w ag now ttl fr db))"
  proof (cases "pg_registered db (t, w) \<and> \<not> lease_live (pg_current db (t, w)) now")
    case True
    then show ?thesis
      using inv pg_acquire_new(2) [OF inv, of t w fr ag now ttl] pg_acquire_reclaim(2) [OF inv, of t w]
        pg_work_item_query [OF inv, of w t] pg_claim_query [OF inv, of w t]
      by (cases "pg_row db (t, w)"; cases "snd fr \<in> cr_id ` set (pg_claims db)")
        (auto simp: pg_acquire_def pg_current_def Let_def simp del: rls_rows_simps)
  next
    case False
    then show ?thesis
      using inv pg_acquire_unregistered [OF inv] pg_acquire_live [OF inv]
      by (cases "pg_registered db (t, w)") simp_all
  qed
  show "map_prod id pg_current (pg_acquire True t w ag now ttl fr db)
      = mem_acquire t w ag now ttl fr (pg_current db)" if "pg_admits db (t, w) fr"
  proof (cases "lease_live (pg_current db (t, w)) now")
    case True
    then show ?thesis using that pg_acquire_live [OF inv, of t w]
      by (simp add: pg_admits_def mem_acquire_def)
  next
    case False
    then show ?thesis
      using that pg_acquire_new(1) [OF inv, of t w fr] pg_acquire_reclaim(1) [OF inv, of t w _ now]
      by (cases "pg_row db (t, w)") (auto simp: pg_admits_def)
  qed
  show "raised (fst (pg_acquire True t w ag now ttl fr db)) \<and>
      snd (pg_acquire True t w ag now ttl fr db) = db" if "\<not> pg_admits db (t, w) fr"
    using that pg_acquire_unregistered [OF inv, of t w] pg_work_item_query [OF inv, of w t]
      pg_claim_query [OF inv, of w t]
    by (cases "pg_registered db (t, w)")
      (auto simp: pg_admits_def pg_acquire_def lease_live_def Let_def simp del: rls_rows_simps)
qed (rule pg_mutate_spec; assumption)+

section \<open>Simulation\<close>

lemma pg_acquire_frame:
  "pg_work_items (snd (pg_acquire e t w ag now ttl fr db)) = pg_work_items db"
  "cr_id ` set (pg_claims (snd (pg_acquire e t w ag now ttl fr db)))
     \<subseteq> insert (snd fr) (cr_id ` set (pg_claims db))"
  by (auto simp: pg_acquire_def Let_def image_update_where split: sum.splits option.splits)

lemma pg_mutate_frame:
  "pg_work_items (snd (pg_mutate e t w ag tok now st d db)) = pg_work_items db"
  "cr_id ` set (pg_claims (snd (pg_mutate e t w ag tok now st d db))) \<subseteq> cr_id ` set (pg_claims db)"
  by (auto simp: pg_mutate_def Let_def image_update_where split: sum.splits option.splits)

definition pg_run_ok :: "pg_leases \<Rightarrow> lease_command list \<Rightarrow> bool" where
  "pg_run_ok db cs \<longleftrightarrow> pg_invar db \<and>
     list_all (pg_registered db) (concat (map acquires cs)) \<and>
     distinct (concat (map acquire_ids cs)) \<and>
     set (concat (map acquire_ids cs)) \<inter> cr_id ` set (pg_claims db) = {}"

lemma pg_step_frame:
  "pg_work_items (snd (lease_step (pg_acquire True) (pg_mutate True) c db)) = pg_work_items db"
  "cr_id ` set (pg_claims (snd (lease_step (pg_acquire True) (pg_mutate True) c db)))
     \<subseteq> set (acquire_ids c) \<union> cr_id ` set (pg_claims db)"
  using pg_acquire_frame [of True] pg_mutate_frame [of True]
  by (cases c; auto simp: manager_acquire_def manager_heartbeat_def manager_complete_def
      manager_release_def manager_terminal_def split: sum.splits; fast)+

lemma pg_step_refines:
  assumes "pg_run_ok db (c # cs)"
  shows "map_prod id pg_current (lease_step (pg_acquire True) (pg_mutate True) c db)
      = lease_step mem_acquire mem_mutate c (pg_current db)"
proof -
  have inv: "pg_invar db" using assms by (simp add: pg_run_ok_def)
  show ?thesis
  proof (cases c)
    case (Acquire t w ag now ttl fr)
    then have "pg_admits db (t, w) fr" using assms by (auto simp: pg_run_ok_def pg_admits_def)
    then show ?thesis using Acquire pg_repo.acquire_spec [OF inv]
      by (auto simp: manager_acquire_def split: sum.splits)
  qed (auto simp: manager_heartbeat_def manager_complete_def manager_release_def
      manager_terminal_def pg_repo.mutate_spec [OF inv] split: sum.splits)
qed

lemma pg_step_run_ok:
  assumes "pg_run_ok db (c # cs)"
  shows "pg_run_ok (snd (lease_step (pg_acquire True) (pg_mutate True) c db)) cs"
proof -
  let ?db = "snd (lease_step (pg_acquire True) (pg_mutate True) c db)"
  have inv: "pg_invar ?db" using assms by (auto simp: pg_run_ok_def intro: pg_repo.invar_step)
  have "pg_registered ?db = pg_registered db"
    by (simp add: fun_eq_iff pg_registered_def pg_step_frame(1))
  then show ?thesis
    using assms inv pg_step_frame(2) [of c db] unfolding pg_run_ok_def by auto
qed

section \<open>Properties\<close>

text \<open>
  C2: fencing.  In the PostgreSQL lease store, when a work item that one agent acquired is later
  acquired again (by any agent, after any sequence of manager commands), the second claim has a
  strictly larger fencing token, and from then on, after any further commands, every heartbeat,
  completion or release that presents the first token raises \<open>StaleFencingTokenError\<close>.
\<close>

theorem pg_reclaimed_owner_fenced:
  assumes "pg_invar db"
    and "manager_acquire (pg_acquire True) t w ag now ttl fr db = (Inr c, db1)"
    and "manager_acquire (pg_acquire True) t w ag' now' ttl' fr'
           (run_ops (lease_step (pg_acquire True) (pg_mutate True)) db1 cs) = (Inr c', db2)"
    and "presents_token cmd t w (lc_fencing_token c)"
  shows "lc_fencing_token c < lc_fencing_token c' \<and>
    fst (lease_step (pg_acquire True) (pg_mutate True) cmd
      (run_ops (lease_step (pg_acquire True) (pg_mutate True)) db2 ds)) = Inl (StaleFencingTokenError w)"
  using pg_repo.reclaimed_owner_fenced [OF assms(1) pg_repo.manager_acquire_Inr [OF assms(2)]
      pg_repo.manager_acquire_Inr [OF assms(3)] assms(4)] .

definition example_db :: pg_leases where
  "example_db = \<lparr>pg_work_items = [\<lparr>wi_id = ''w'', wi_tenant_id = ''t'', wi_session_id = ''s'', wi_state = ''claimed''\<rparr>], pg_claims = []\<rparr>"

theorem pg_reclaimed_owner_fenced_witness:
  "fst (lease_step (pg_acquire True) (pg_mutate True) (Complete ''t'' ''w'' ''a'' 1 30)
     (snd (manager_acquire (pg_acquire True) ''t'' ''w'' ''b'' 20 10 (''l2'', ''r2'')
        (snd (manager_acquire (pg_acquire True) ''t'' ''w'' ''a'' 0 10 (''l1'', ''r1'') example_db)))))
   = Inl (StaleFencingTokenError ''w'')"
proof -
  let ?first = "manager_acquire (pg_acquire True) ''t'' ''w'' ''a'' 0 10 (''l1'', ''r1'') example_db"
  let ?second = "manager_acquire (pg_acquire True) ''t'' ''w'' ''b'' 20 10 (''l2'', ''r2'') (snd ?first)"
  have inv: "pg_invar example_db" by code_simp
  have "lc_fencing_token (projr (fst ?first)) = 1 \<and> \<not> raised (fst ?first) \<and> \<not> raised (fst ?second)"
    by code_simp
  then obtain c c' where c: "?first = (Inr c, snd ?first)" "lc_fencing_token c = 1"
    and c': "?second = (Inr c', snd ?second)"
    by (metis not_raised_iff prod.collapse sum.sel(2))
  show ?thesis
    using pg_reclaimed_owner_fenced [OF inv c(1), where cs = "[]" and ds = "[]" and
        cmd = "Complete ''t'' ''w'' ''a'' 1 30", unfolded run_ops.simps, OF c'] c(2)
    by simp
qed

text \<open>
  C3: only the holder changes a live lease.  While a claim on record is active, no sequence of
  commands by other agents, with other tokens, on other work items or tenants, and no acquisition
  attempted before its expiry, changes it: owner, token and expiry stay as they are.
\<close>

theorem pg_live_lease_protected:
  assumes "pg_invar db" "pg_current db (lc_tenant_id c, lc_work_item_id c) = Some c"
    and "lc_state c = ''active''" "list_all (foreign_command c) cs"
  shows "pg_current (run_ops (lease_step (pg_acquire True) (pg_mutate True)) db cs)
    (lc_tenant_id c, lc_work_item_id c) = Some c"
  by (rule pg_repo.live_lease_run [OF assms])

theorem pg_live_lease_protected_witness:
  "lc_owner_agent_id (the (pg_current (run_ops (lease_step (pg_acquire True) (pg_mutate True))
     (snd (manager_acquire (pg_acquire True) ''t'' ''w'' ''a'' 0 10 (''l1'', ''r1'') example_db))
     [Acquire ''t'' ''w'' ''b'' 9 10 (''l2'', ''r2''), Release ''t'' ''w'' ''a'' 2 5]) (''t'', ''w''))) = ''a''"
proof -
  let ?db = "snd (manager_acquire (pg_acquire True) ''t'' ''w'' ''a'' 0 10 (''l1'', ''r1'') example_db)"
  let ?c = "\<lparr>lc_tenant_id = ''t'', lc_work_item_id = ''w'', lc_owner_agent_id = ''a'', lc_lease_id = ''l1'',
     lc_fencing_token = 1, lc_heartbeat_at = 0, lc_lease_expires_at = 10, lc_state = ''active''\<rparr>"
  have "pg_invar ?db" by code_simp
  moreover have "pg_current ?db (lc_tenant_id ?c, lc_work_item_id ?c) = Some ?c" by code_simp
  moreover have "lc_state ?c = ''active''" by simp
  moreover have "list_all (foreign_command ?c)
      [Acquire ''t'' ''w'' ''b'' 9 10 (''l2'', ''r2''), Release ''t'' ''w'' ''a'' 2 5]" by code_simp
  ultimately have "pg_current (run_ops (lease_step (pg_acquire True) (pg_mutate True)) ?db
     [Acquire ''t'' ''w'' ''b'' 9 10 (''l2'', ''r2''), Release ''t'' ''w'' ''a'' 2 5])
       (lc_tenant_id ?c, lc_work_item_id ?c) = Some ?c"
    by (rule pg_live_lease_protected)
  then show ?thesis by simp
qed



end
