(* ===== verification/Lifecycle.thy ===== *)
theory Lifecycle
  imports Prelude
begin

text \<open>
  The lifecycle tables and authorization predicate of
  \<open>app/coordination/state_machines.py\<close>: coordination sessions, strategy executions and
  handoffs.  A table is the source's dictionary from a state to its permitted successors.  The
  locale \<open>lifecycle\<close> is the contract every such machine keeps; it is interpreted for the three
  tables here and for the auction machine in its own theory.
\<close>

type_synonym transition_table = "(string \<times> string list) list"

definition SESSION_TRANSITIONS :: transition_table where
  "SESSION_TRANSITIONS =
    [(''pending'', [''active'', ''cancelling'', ''failed'']),
     (''active'', [''paused'', ''cancelling'', ''completed'', ''failed'']),
     (''paused'', [''active'', ''cancelling'', ''failed'']),
     (''cancelling'', [''cancelled'', ''failed'']),
     (''completed'', []),
     (''cancelled'', []),
     (''failed'', [])]"

definition EXECUTION_TRANSITIONS :: transition_table where
  "EXECUTION_TRANSITIONS =
    [(''pending'', [''running'', ''cancelled'', ''failed'']),
     (''running'', [''checkpointed'', ''cancelling'', ''completed'', ''failed'']),
     (''checkpointed'', [''running'', ''cancelling'', ''completed'', ''failed'']),
     (''cancelling'', [''cancelled'', ''failed'']),
     (''completed'', []),
     (''cancelled'', []),
     (''failed'', [])]"

definition HANDOFF_TRANSITIONS :: transition_table where
  "HANDOFF_TRANSITIONS =
    [(''requested'', [''accepted'', ''rejected'', ''expired'', ''cancelled'']),
     (''accepted'', [''active'', ''completed'', ''cancelled'', ''expired'']),
     (''active'', [''completed'', ''cancelled'', ''expired'']),
     (''rejected'', []),
     (''completed'', []),
     (''cancelled'', []),
     (''expired'', [])]"

text \<open>\<open>_transition\<close>: an unknown current state has no successors.\<close>

definition transition_in :: "string \<Rightarrow> string \<Rightarrow> transition_table \<Rightarrow> string result" where
  "transition_in current target transitions =
     (if target \<notin> set (case map_of transitions current of None \<Rightarrow> [] | Some ts \<Rightarrow> ts)
      then Inl (InvalidTransitionError current target)
      else Inr target)"

definition transition_session :: "string \<Rightarrow> string \<Rightarrow> string result" where
  "transition_session current target = transition_in current target SESSION_TRANSITIONS"

definition transition_execution :: "string \<Rightarrow> string \<Rightarrow> string result" where
  "transition_execution current target = transition_in current target EXECUTION_TRANSITIONS"

definition transition_handoff :: "string \<Rightarrow> string \<Rightarrow> string result" where
  "transition_handoff current target = transition_in current target HANDOFF_TRANSITIONS"

section \<open>Handoff authorization\<close>

record authorization_context =
  auth_actor_id :: string
  auth_permissions :: "string list"
  auth_policy_version :: string

record handoff_command =
  hc_tenant_id :: string
  hc_session_id :: string
  hc_source_agent_id :: string
  hc_target_agent_id :: string
  hc_source_civilization_id :: string
  hc_target_civilization_id :: string
  hc_idempotency_key :: string
  hc_expires_at :: instant
  hc_authorization :: authorization_context

definition authorize_handoff :: "handoff_command \<Rightarrow> instant \<Rightarrow> unit result" where
  "authorize_handoff command now =
     (if hc_source_civilization_id command \<noteq> hc_target_civilization_id command
      then Inl (PermissionError ''handoffs must remain in the same civilization'')
      else if ''coordination:handoff'' \<notin> set (auth_permissions (hc_authorization command))
      then Inl (PermissionError ''coordination:handoff permission is required'')
      else if hc_expires_at command \<le> now
      then Inl (PermissionError ''handoff command has expired'')
      else Inr ())"

section \<open>The lifecycle contract\<close>

definition advance :: "(string \<Rightarrow> string \<Rightarrow> string result) \<Rightarrow> string \<Rightarrow> string \<Rightarrow> string" where
  "advance delta s t = (case delta s t of Inl _ \<Rightarrow> s | Inr u \<Rightarrow> u)"

fun advance_all :: "(string \<Rightarrow> string \<Rightarrow> string result) \<Rightarrow> string \<Rightarrow> string list \<Rightarrow> string" where
  "advance_all delta s [] = s"
| "advance_all delta s (t # ts) = advance_all delta (advance delta s t) ts"

lemma advance_all_append [simp]:
  "advance_all delta s (ts @ us) = advance_all delta (advance_all delta s ts) us"
  by (induction ts arbitrary: s) auto

locale lifecycle =
  fixes delta :: "string \<Rightarrow> string \<Rightarrow> string result"
    and states :: "string list"
    and terminal :: "string list"
    and abort :: string
  assumes trans_target: "delta s t = Inr u \<Longrightarrow> u = t"
    and trans_closed: "delta s t = Inr u \<Longrightarrow> u \<in> set states"
    and terminal_stuck: "s \<in> set terminal \<Longrightarrow> raised (delta s t)"
    and abort_terminal: "abort \<in> set terminal"
    and abort_enabled: "s \<in> set states \<Longrightarrow> s \<notin> set terminal \<Longrightarrow> delta s abort = Inr abort"
begin

lemma advance_closed: "s \<in> set states \<Longrightarrow> advance delta s t \<in> set states"
  by (auto simp: advance_def split: sum.splits dest: trans_closed)

lemma advance_all_closed: "s \<in> set states \<Longrightarrow> advance_all delta s ts \<in> set states"
  by (induction ts arbitrary: s) (auto simp: advance_closed)

lemma terminal_absorbing: "s \<in> set terminal \<Longrightarrow> advance_all delta s ts = s"
proof (induction ts)
  case (Cons t ts)
  then have "advance delta s t = s"
    using terminal_stuck [of s t] by (auto simp: advance_def raised_iff)
  with Cons show ?case by simp
qed simp

text \<open>Whatever was requested before, one more request ends the lifecycle.\<close>

lemma always_abortable:
  assumes "s \<in> set states"
  shows "advance_all delta s (ts @ [abort]) \<in> set terminal"
proof (cases "advance_all delta s ts \<in> set terminal")
  case True
  then show ?thesis using terminal_absorbing [OF True, of "[abort]"] by simp
next
  case False
  then show ?thesis
    using abort_enabled [OF advance_all_closed [OF assms] False] abort_terminal
    by (simp add: advance_def)
qed

lemma lifecycle_facts:
  assumes "s \<in> set states"
  shows "advance_all delta s ts \<in> set states \<and>
     (advance_all delta s ts \<in> set terminal \<longrightarrow>
        advance_all delta s (ts @ us) = advance_all delta s ts) \<and>
     advance_all delta s (ts @ [abort]) \<in> set terminal"
  using advance_all_closed [OF assms] always_abortable [OF assms] terminal_absorbing by simp

end

text \<open>
  The contract holds of a table as soon as an executable check of the table succeeds: every
  successor is a listed state, the terminal states are the ones without successors, and the abort
  state is a successor of every other state.
\<close>

definition table_ok :: "transition_table \<Rightarrow> string list \<Rightarrow> string \<Rightarrow> bool" where
  "table_ok tbl terminal abort \<longleftrightarrow>
     abort \<in> set terminal \<and>
     list_all (\<lambda>(s, ts). list_all (\<lambda>t. t \<in> set (map fst tbl)) ts) tbl \<and>
     list_all (\<lambda>s. map_of tbl s = Some []) terminal \<and>
     list_all (\<lambda>(s, ts). s \<in> set terminal \<or> abort \<in> set (the (map_of tbl s))) tbl"

lemma lifecycle_of_table:
  assumes "table_ok tbl terminal abort"
  shows "lifecycle (\<lambda>s t. transition_in s t tbl) (map fst tbl) terminal abort"
proof
  fix s t u
  assume tr: "transition_in s t tbl = Inr u"
  then show "u = t" by (auto simp: transition_in_def split: if_splits)
  from tr obtain ts where "map_of tbl s = Some ts" "u \<in> set ts"
    by (cases "map_of tbl s") (auto simp: transition_in_def split: if_splits)
  then have "(s, ts) \<in> set tbl" "u \<in> set ts" by (auto dest: map_of_SomeD)
  then show "u \<in> set (map fst tbl)"
    using assms by (fastforce simp: table_ok_def list_all_iff)
next
  fix s t
  assume "s \<in> set terminal"
  then have "map_of tbl s = Some []"
    using assms by (auto simp: table_ok_def list_all_iff)
  then show "raised (transition_in s t tbl)" by (simp add: transition_in_def)
next
  show "abort \<in> set terminal" using assms by (simp add: table_ok_def)
next
  fix s
  assume s: "s \<in> set (map fst tbl)" and nt: "s \<notin> set terminal"
  then obtain ts where ts: "map_of tbl s = Some ts"
    by (cases "map_of tbl s") (auto simp: map_of_eq_None_iff)
  with nt have "abort \<in> set ts"
    using assms map_of_SomeD [OF ts] by (fastforce simp: table_ok_def list_all_iff)
  with ts show "transition_in s abort tbl = Inr abort" by (simp add: transition_in_def)
qed

interpretation session_lc: lifecycle transition_session "map fst SESSION_TRANSITIONS"
    "[''completed'', ''cancelled'', ''failed'']" "''failed''"
  unfolding transition_session_def by (rule lifecycle_of_table) code_simp

interpretation execution_lc: lifecycle transition_execution "map fst EXECUTION_TRANSITIONS"
    "[''completed'', ''cancelled'', ''failed'']" "''failed''"
  unfolding transition_execution_def by (rule lifecycle_of_table) code_simp

interpretation handoff_lc: lifecycle transition_handoff "map fst HANDOFF_TRANSITIONS"
    "[''rejected'', ''completed'', ''cancelled'', ''expired'']" "''cancelled''"
  unfolding transition_handoff_def by (rule lifecycle_of_table) code_simp

lemma transition_session_Inr: "transition_session s t = Inr u \<Longrightarrow> u = t"
  by (rule session_lc.trans_target)

text \<open>
  C1: whatever transitions are requested of a coordination session, a strategy execution or a
  handoff, from any state of its table: the state stays within the table; once it is terminal it
  never changes again; and the machine is never stuck outside a terminal state, because one
  further request (\<open>failed\<close> for sessions and executions, \<open>cancelled\<close> for handoffs) ends it.
\<close>

theorem lifecycles_closed_absorbing_abortable:
  assumes "s \<in> set (map fst SESSION_TRANSITIONS)"
    and "e \<in> set (map fst EXECUTION_TRANSITIONS)"
    and "h \<in> set (map fst HANDOFF_TRANSITIONS)"
  shows "(let c = advance_all transition_session s ts; fin = {''completed'', ''cancelled'', ''failed''}
      in c \<in> set (map fst SESSION_TRANSITIONS) \<and>
         (c \<in> fin \<longrightarrow> advance_all transition_session s (ts @ us) = c) \<and>
         advance_all transition_session s (ts @ [''failed'']) \<in> fin) \<and>
     (let c = advance_all transition_execution e ts; fin = {''completed'', ''cancelled'', ''failed''}
      in c \<in> set (map fst EXECUTION_TRANSITIONS) \<and>
         (c \<in> fin \<longrightarrow> advance_all transition_execution e (ts @ us) = c) \<and>
         advance_all transition_execution e (ts @ [''failed'']) \<in> fin) \<and>
     (let c = advance_all transition_handoff h ts;
          fin = {''rejected'', ''completed'', ''cancelled'', ''expired''}
      in c \<in> set (map fst HANDOFF_TRANSITIONS) \<and>
         (c \<in> fin \<longrightarrow> advance_all transition_handoff h (ts @ us) = c) \<and>
         advance_all transition_handoff h (ts @ [''cancelled'']) \<in> fin)"
  unfolding Let_def
  using session_lc.lifecycle_facts [OF assms(1), of ts us]
    execution_lc.lifecycle_facts [OF assms(2), of ts us]
    handoff_lc.lifecycle_facts [OF assms(3), of ts us]
  unfolding list.set by blast

theorem lifecycles_witness:
  "advance_all transition_session ''pending'' [''active'', ''pending'', ''completed'', ''failed''] = ''completed'' \<and>
   advance_all transition_execution ''pending'' [''running'', ''failed''] = ''failed'' \<and>
   advance_all transition_handoff ''requested'' [''accepted'', ''cancelled''] = ''cancelled'' \<and>
   advance_all transition_session ''pending'' [''active'', ''failed''] \<in> {''completed'', ''cancelled'', ''failed''}"
proof -
  have "''pending'' \<in> set (map fst SESSION_TRANSITIONS)" "''pending'' \<in> set (map fst EXECUTION_TRANSITIONS)"
    "''requested'' \<in> set (map fst HANDOFF_TRANSITIONS)" by code_simp+
  from lifecycles_closed_absorbing_abortable [OF this, of "[''active'']" "[]"]
  have "advance_all transition_session ''pending'' [''active'', ''failed'']
      \<in> {''completed'', ''cancelled'', ''failed''}"
    by (simp only: Let_def append.simps simp_thms)
  moreover have "advance_all transition_session ''pending'' [''active'', ''pending'', ''completed'', ''failed''] = ''completed''"
    "advance_all transition_execution ''pending'' [''running'', ''failed''] = ''failed''"
    "advance_all transition_handoff ''requested'' [''accepted'', ''cancelled''] = ''cancelled''"
    by code_simp+
  ultimately show ?thesis by blast
qed

end
