(* ===== verification/Coord_Tables.thy ===== *)
theory Coord_Tables
  imports Lifecycle
begin

text \<open>
  The rows of the coordination tables (\<open>app/db/models/coordination.py\<close>) that the session store,
  the outbox and the replay share: sessions, events, outbox and dead letters, and the database
  record holding them.  A table is the list of its rows in insertion order.
\<close>

record accepted_transition =
  at_event_id :: string
  at_session_id :: string
  at_sequence :: int
  at_state :: string
  at_version :: int
  at_idempotency_key :: string

record handoff_transition =
  ht_handoff_id :: string
  ht_from_state :: string
  ht_to_state :: string
  ht_version :: int
  ht_idempotency_key :: string
  ht_event_type :: string
  ht_occurred_at :: instant

text \<open>
  An event's \<open>payload\<close> column: the dictionary a session transition writes, the one a handoff writes
  (a request has no \<open>transition\<close> entry), the one a cancellation writes, or any other.
\<close>

datatype event_payload =
    TransitionPayload (from_state: string) (to_state: string) (accepted: accepted_transition)
  | HandoffPayload string int "handoff_transition option"
  | CancelPayload string "string list" "string list"
  | JsonPayload json

record session_row =
  ss_id :: string
  ss_tenant_id :: string
  ss_civilization_id :: string
  ss_goal_id :: string
  ss_state :: string
  ss_policy_snapshot :: json
  ss_budget_snapshot :: json
  ss_next_sequence :: int
  ss_version :: int
  ss_cancellation_requested_at :: "instant option"
  ss_cancellation_reason :: "string option"
  ss_updated_at :: instant

record event_row =
  ev_id :: string
  ev_tenant_id :: string
  ev_session_id :: string
  ev_sequence :: int
  ev_schema_version :: int
  ev_event_type :: string
  ev_occurred_at :: instant
  ev_correlation_id :: string
  ev_causation_id :: string
  ev_idempotency_key :: string
  ev_classification :: string
  ev_payload :: event_payload

record envelope =
  en_event_id :: string
  en_tenant_id :: string
  en_session_id :: string
  en_sequence :: int
  en_schema_version :: int
  en_event_type :: string
  en_occurred_at :: instant
  en_correlation_id :: string
  en_causation_id :: "string option"
  en_idempotency_key :: string
  en_classification :: string
  en_payload :: event_payload

record outbox_row =
  ob_id :: string
  ob_event_id :: string
  ob_tenant_id :: string
  ob_session_id :: string
  ob_stream :: string
  ob_payload :: envelope
  ob_state :: string
  ob_attempt_count :: int
  ob_available_at :: instant
  ob_claim_owner :: string
  ob_claimed_at :: "instant option"
  ob_published_at :: "instant option"
  ob_last_error :: string
  ob_created_at :: instant

record dead_row =
  dl_id :: string
  dl_tenant_id :: string
  dl_event_id :: string
  dl_session_id :: string
  dl_payload :: envelope
  dl_replay_status :: string

record coord_db =
  db_sessions :: "session_row list"
  db_events :: "event_row list"
  db_outbox :: "outbox_row list"
  db_dead :: "dead_row list"

definition session_key :: "session_row \<Rightarrow> string \<times> string" where
  "session_key r = (ss_tenant_id r, ss_id r)"

definition event_key :: "event_row \<Rightarrow> string \<times> string" where
  "event_key e = (ev_tenant_id e, ev_session_id e)"

end
