(* ===== verification/Session_Store.thy ===== *)
theory Session_Store
  imports Coord_Tables
begin

text \<open>
  The canonical session store of \<open>app/coordination/store.py\<close> and the command boundary of
  \<open>app/coordination/service.py\<close>.  Every session transition commits the new session state, one
  event with the session's next sequence number and one outbox row in a single transaction, guarded
  by an idempotency key and an expected version.  The in-memory store is the specification; the
  PostgreSQL store refines it.  \<open>uuid5\<close> is a parameter (namespace and name to a hexadecimal id);
  generated ids and clock readings are arguments.
\<close>

section \<open>Data and the in-memory store\<close>

record session_record =
  sr_session_id :: string
  sr_tenant_id :: string
  sr_state :: string
  sr_next_sequence :: int
  sr_version :: int

record mem_store =
  ms_sessions :: "string \<times> string \<rightharpoonup> session_record"
  ms_accepted :: "string \<times> string \<times> string \<rightharpoonup> accepted_transition"

definition empty_store :: mem_store where
  "empty_store = \<lparr>ms_sessions = Map.empty, ms_accepted = Map.empty\<rparr>"

definition event_name :: "string \<Rightarrow> string \<Rightarrow> string \<Rightarrow> string" where
  "event_name tenant session key = tenant @ '':'' @ session @ '':'' @ key"

abbreviation event_id_of :: "(string \<Rightarrow> string \<Rightarrow> string) \<Rightarrow> string \<Rightarrow> string \<Rightarrow> string \<Rightarrow> string" where
  "event_id_of uuid5 t s k \<equiv> uuid5 ''NAMESPACE_URL'' (event_name t s k)"

definition mem_create_session ::
  "string \<Rightarrow> string option \<Rightarrow> string \<Rightarrow> (mem_store, session_record) op" where
  "mem_create_session tenant session_id fresh st =
     (let sid = str_or session_id fresh;
          new = \<lparr>sr_session_id = sid, sr_tenant_id = tenant, sr_state = ''pending'',
            sr_next_sequence = 1, sr_version = 1\<rparr>
      in case ms_sessions st (tenant, sid) of
           Some existing \<Rightarrow> (Inr existing, st)
         | None \<Rightarrow> (Inr new, st\<lparr>ms_sessions := (ms_sessions st)((tenant, sid) \<mapsto> new)\<rparr>))"

definition mem_get_session :: "string \<Rightarrow> string \<Rightarrow> mem_store \<Rightarrow> session_record result" where
  "mem_get_session tenant session st =
     (case ms_sessions st (tenant, session) of
        None \<Rightarrow> Inl (KeyError session) | Some r \<Rightarrow> Inr r)"

definition mem_contains :: "string \<Rightarrow> string \<Rightarrow> mem_store \<Rightarrow> bool" where
  "mem_contains tenant session st = (ms_sessions st (tenant, session) \<noteq> None)"

definition mem_transition_session ::
  "(string \<Rightarrow> string \<Rightarrow> string) \<Rightarrow> string \<Rightarrow> string \<Rightarrow> int \<Rightarrow> string \<Rightarrow> string \<Rightarrow>
   (mem_store, accepted_transition) op" where
  "mem_transition_session uuid5 tenant session expected target key st =
     (case ms_accepted st (tenant, session, key) of
        Some replayed \<Rightarrow> (Inr replayed, st)
      | None \<Rightarrow>
     (case ms_sessions st (tenant, session) of
        None \<Rightarrow> (Inl (KeyError session), st)
      | Some current \<Rightarrow>
          if sr_version current \<noteq> expected
          then (Inl (OptimisticConflictError expected (sr_version current)), st)
          else case transition_session (sr_state current) target of
                 Inl e \<Rightarrow> (Inl e, st)
               | Inr state \<Rightarrow>
                   let acc = \<lparr>at_event_id = event_id_of uuid5 tenant session key,
                         at_session_id = session, at_sequence = sr_next_sequence current,
                         at_state = state, at_version = sr_version current + 1,
                         at_idempotency_key = key\<rparr>
                   in (Inr acc,
                       st\<lparr>ms_sessions := (ms_sessions st)((tenant, session) \<mapsto>
                            \<lparr>sr_session_id = session, sr_tenant_id = tenant, sr_state = state,
                              sr_next_sequence = sr_next_sequence current + 1,
                              sr_version = sr_version current + 1\<rparr>),
                          ms_accepted := (ms_accepted st)((tenant, session, key) \<mapsto> acc)\<rparr>)))"

section \<open>The PostgreSQL store\<close>

definition record_of_row :: "session_row \<Rightarrow> session_record" where
  "record_of_row r = \<lparr>sr_session_id = ss_id r, sr_tenant_id = ss_tenant_id r, sr_state = ss_state r,
     sr_next_sequence = ss_next_sequence r, sr_version = ss_version r\<rparr>"

definition pg_get_session :: "bool \<Rightarrow> string \<Rightarrow> string \<Rightarrow> coord_db \<Rightarrow> session_record result" where
  "pg_get_session enforced tenant session db =
     (case one_or_none (filter (\<lambda>r. ss_id r = session \<and> ss_tenant_id r = tenant)
             (rls_rows enforced ss_tenant_id tenant (db_sessions db))) of
        Inl e \<Rightarrow> Inl e
      | Inr None \<Rightarrow> Inl (KeyError session)
      | Inr (Some row) \<Rightarrow> Inr (record_of_row row))"

text \<open>\<open>INSERT ... ON CONFLICT (id) DO NOTHING\<close>: the conflict is on the primary key alone.\<close>

definition pg_create_session ::
  "bool \<Rightarrow> string \<Rightarrow> string \<Rightarrow> string \<Rightarrow> json \<Rightarrow> json \<Rightarrow> string option \<Rightarrow> string \<Rightarrow> instant \<Rightarrow>
   (coord_db, session_record) op" where
  "pg_create_session enforced tenant civilization goal policy budget session_id fresh now db =
     (let idempotent = (session_id \<noteq> None);
          sid = str_or session_id fresh;
          conflict = (sid \<in> ss_id ` set (db_sessions db));
          db' = (if conflict then db else db\<lparr>db_sessions := db_sessions db @
             [\<lparr>ss_id = sid, ss_tenant_id = tenant, ss_civilization_id = civilization,
               ss_goal_id = goal, ss_state = ''pending'', ss_policy_snapshot = policy,
               ss_budget_snapshot = budget, ss_next_sequence = 1, ss_version = 1,
               ss_cancellation_requested_at = None, ss_cancellation_reason = None, ss_updated_at = now\<rparr>]\<rparr>)
      in if idempotent \<and> conflict then (pg_get_session enforced tenant sid db', db')
         else (Inr \<lparr>sr_session_id = sid, sr_tenant_id = tenant, sr_state = ''pending'',
                 sr_next_sequence = 1, sr_version = 1\<rparr>, db'))"

definition transition_event ::
  "string \<Rightarrow> string \<Rightarrow> string \<Rightarrow> string \<Rightarrow> instant \<Rightarrow> accepted_transition \<Rightarrow> event_row" where
  "transition_event tenant session key prev now acc =
     \<lparr>ev_id = at_event_id acc, ev_tenant_id = tenant, ev_session_id = session,
      ev_sequence = at_sequence acc, ev_schema_version = 1,
      ev_event_type = ''session.state_changed'', ev_occurred_at = now,
      ev_correlation_id = session, ev_causation_id = '''', ev_idempotency_key = key,
      ev_classification = ''internal'',
      ev_payload = TransitionPayload prev (at_state acc) acc\<rparr>"

definition transition_outbox ::
  "string \<Rightarrow> string \<Rightarrow> string \<Rightarrow> string \<Rightarrow> instant \<Rightarrow> accepted_transition \<Rightarrow> string \<Rightarrow> outbox_row" where
  "transition_outbox tenant session key prev now acc row_id =
     \<lparr>ob_id = row_id, ob_event_id = at_event_id acc, ob_tenant_id = tenant, ob_session_id = session,
      ob_stream = ''coord:'' @ tenant @ '':'' @ session,
      ob_payload = \<lparr>en_event_id = at_event_id acc, en_tenant_id = tenant, en_session_id = session,
        en_sequence = at_sequence acc, en_schema_version = 1,
        en_event_type = ''session.state_changed'', en_occurred_at = now,
        en_correlation_id = session, en_causation_id = None, en_idempotency_key = key,
        en_classification = ''internal'',
        en_payload = TransitionPayload prev (at_state acc) acc\<rparr>,
      ob_state = ''pending'', ob_attempt_count = 0, ob_available_at = now, ob_claim_owner = '''',
      ob_claimed_at = None, ob_published_at = None, ob_last_error = '''', ob_created_at = now\<rparr>"

text \<open>The unique constraints of the two tables a transition inserts into.\<close>

definition event_insert_ok :: "event_row \<Rightarrow> event_row list \<Rightarrow> bool" where
  "event_insert_ok e rows \<longleftrightarrow> ev_id e \<notin> ev_id ` set rows \<and>
     (ev_tenant_id e, ev_session_id e, ev_sequence e)
       \<notin> (\<lambda>r. (ev_tenant_id r, ev_session_id r, ev_sequence r)) ` set rows"

definition outbox_insert_ok :: "outbox_row \<Rightarrow> outbox_row list \<Rightarrow> bool" where
  "outbox_insert_ok r rows \<longleftrightarrow> ob_id r \<notin> ob_id ` set rows \<and> ob_event_id r \<notin> ob_event_id ` set rows"

definition pg_transition_session ::
  "bool \<Rightarrow> (string \<Rightarrow> string \<Rightarrow> string) \<Rightarrow> string \<Rightarrow> string \<Rightarrow> int \<Rightarrow> string \<Rightarrow> string \<Rightarrow> instant \<Rightarrow>
   string \<Rightarrow> (coord_db, accepted_transition) op" where
  "pg_transition_session enforced uuid5 tenant session expected target key now row_id db =
     (let event_id = event_id_of uuid5 tenant session key in
      case one_or_none (filter (\<lambda>e. ev_id e = event_id \<and> ev_tenant_id e = tenant)
             (rls_rows enforced ev_tenant_id tenant (db_events db))) of
        Inl e \<Rightarrow> (Inl e, db)
      | Inr (Some replay) \<Rightarrow>
          (case ev_payload replay of
             TransitionPayload _ _ acc \<Rightarrow> (Inr acc, db)
           | _ \<Rightarrow> (Inl (KeyError ''accepted''), db))
      | Inr None \<Rightarrow>
     (case one_or_none (filter (\<lambda>r. ss_id r = session \<and> ss_tenant_id r = tenant)
             (rls_rows enforced ss_tenant_id tenant (db_sessions db))) of
        Inl e \<Rightarrow> (Inl e, db)
      | Inr None \<Rightarrow> (Inl (KeyError session), db)
      | Inr (Some row) \<Rightarrow>
          if ss_version row \<noteq> expected
          then (Inl (OptimisticConflictError expected (ss_version row)), db)
          else case transition_session (ss_state row) target of
                 Inl e \<Rightarrow> (Inl e, db)
               | Inr new_state \<Rightarrow>
                   let acc = \<lparr>at_event_id = event_id, at_session_id = session,
                         at_sequence = ss_next_sequence row, at_state = new_state,
                         at_version = ss_version row + 1, at_idempotency_key = key\<rparr>;
                       event = transition_event tenant session key (ss_state row) now acc;
                       out = transition_outbox tenant session key (ss_state row) now acc row_id
                   in if \<not> event_insert_ok event (db_events db)
                      then (Inl (IntegrityError ''coordination_events''), db)
                      else if \<not> outbox_insert_ok out (db_outbox db)
                      then (Inl (IntegrityError ''coordination_outbox''), db)
                      else (Inr acc, db\<lparr>
                        db_sessions := update_where
                          (\<lambda>r. ss_id r = session \<and> ss_tenant_id r = tenant \<and> ss_version r = expected)
                          (\<lambda>r. r\<lparr>ss_state := new_state,
                             ss_next_sequence := ss_next_sequence row + 1,
                             ss_version := ss_version row + 1, ss_updated_at := now\<rparr>) (db_sessions db),
                        db_events := db_events db @ [event],
                        db_outbox := db_outbox db @ [out]\<rparr>)))"

section \<open>The command boundary\<close>

text \<open>
  \<open>CoordinationService\<close> over a store's \<open>create_session\<close>, \<open>get_session\<close> and
  \<open>transition_session\<close>.  The named commands differ in the target state they request.
\<close>

definition session_id_for_idempotency_key ::
  "(string \<Rightarrow> string \<Rightarrow> string) \<Rightarrow> string \<Rightarrow> string \<Rightarrow> string" where
  "session_id_for_idempotency_key uuid5 tenant key =
     uuid5 ''6f1d8a52-3c1b-4f7e-9a0d-2b5c8e4f1a37'' (tenant @ '':'' @ key)"

definition require_permission :: "authorization_context \<Rightarrow> string \<Rightarrow> unit result" where
  "require_permission auth permission =
     (if permission \<in> set (auth_permissions auth) then Inr ()
      else Inl (PermissionError (permission @ '' permission is required'')))"

record session_admission =
  sa_civilization_id :: string
  sa_goal_id :: string
  sa_policy_snapshot :: json
  sa_budget_snapshot :: json
  sa_authorization :: authorization_context

definition service_create_session ::
  "(string \<Rightarrow> string \<Rightarrow> string) \<Rightarrow>
   (string \<Rightarrow> string \<Rightarrow> string \<Rightarrow> json \<Rightarrow> json \<Rightarrow> string option \<Rightarrow> ('s, session_record) op) \<Rightarrow>
   string \<Rightarrow> session_admission \<Rightarrow> string option \<Rightarrow> ('s, session_record) op" where
  "service_create_session uuid5 create tenant admission idempotency_key s =
     (case require_permission (sa_authorization admission) ''coordination:create'' of
        Inl e \<Rightarrow> (Inl e, s)
      | Inr _ \<Rightarrow>
          let session_id = (case idempotency_key of None \<Rightarrow> None
                | Some k \<Rightarrow> if k = [] then None
                            else Some (session_id_for_idempotency_key uuid5 tenant k))
          in create tenant (sa_civilization_id admission) (sa_goal_id admission)
               (sa_policy_snapshot admission) (sa_budget_snapshot admission) session_id s)"

definition service_get_session ::
  "(string \<Rightarrow> string \<Rightarrow> 's \<Rightarrow> session_record result) \<Rightarrow> string \<Rightarrow> string \<Rightarrow> 's \<Rightarrow> session_record result" where
  "service_get_session get tenant session s =
     (if session = [] then Inl (ValueError ''session ID is required'') else get tenant session s)"

datatype session_command = Start | Cancel | Pause | Resume | Complete | Fail

fun command_target :: "session_command \<Rightarrow> string" where
  "command_target Start = ''active''"
| "command_target Cancel = ''cancelling''"
| "command_target Pause = ''paused''"
| "command_target Resume = ''active''"
| "command_target Complete = ''completed''"
| "command_target Fail = ''failed''"

definition service_transition ::
  "(string \<Rightarrow> string \<Rightarrow> int \<Rightarrow> string \<Rightarrow> string \<Rightarrow> ('s, accepted_transition) op) \<Rightarrow>
   session_command \<Rightarrow> string \<Rightarrow> string \<Rightarrow> int \<Rightarrow> string \<Rightarrow> ('s, accepted_transition) op" where
  "service_transition transition cmd tenant session expected key s =
     (if session = [] \<or> key = []
      then (Inl (ValueError ''session and idempotency key are required''), s)
      else transition tenant session expected (command_target cmd) key s)"

end
