(* ===== verification/Session_Log.thy ===== *)
theory Session_Log
  imports Session_Store
begin

text \<open>
  What the PostgreSQL session store keeps true: every session's events are numbered without gaps,
  they form a path of the session lifecycle from \<open>pending\<close> to the session's state, and every event
  has exactly one outbox row.  Both are invariants of any sequence of store commands, whether or
  not row-level security is enforced.
\<close>

section \<open>Commands of the store\<close>

datatype store_command =
    CreateSession string string string json json "string option" string instant
  | Transition string string int string string instant string

datatype store_reply = Created session_record | Accepted accepted_transition

fun mem_step :: "(string \<Rightarrow> string \<Rightarrow> string) \<Rightarrow> store_command \<Rightarrow> (mem_store, store_reply) op" where
  "mem_step u (CreateSession t civ goal pol bud sid fr now) st =
     map_prod (map_sum id Created) id (mem_create_session t sid fr st)"
| "mem_step u (Transition t s v target k now rid) st =
     map_prod (map_sum id Accepted) id (mem_transition_session u t s v target k st)"

fun pg_step :: "bool \<Rightarrow> (string \<Rightarrow> string \<Rightarrow> string) \<Rightarrow> store_command \<Rightarrow> (coord_db, store_reply) op" where
  "pg_step enforced u (CreateSession t civ goal pol bud sid fr now) db =
     map_prod (map_sum id Created) id (pg_create_session enforced t civ goal pol bud sid fr now db)"
| "pg_step enforced u (Transition t s v target k now rid) db =
     map_prod (map_sum id Accepted) id (pg_transition_session enforced u t s v target k now rid db)"

definition empty_db :: coord_db where
  "empty_db = \<lparr>db_sessions = [], db_events = [], db_outbox = [], db_dead = []\<rparr>"

section \<open>The event log of a session\<close>

definition session_events :: "coord_db \<Rightarrow> string \<times> string \<Rightarrow> event_row list" where
  "session_events db k = filter (\<lambda>e. event_key e = k) (db_events db)"

text \<open>The events lead from one state to another, each a permitted transition recorded as accepted.\<close>

fun chain_ok :: "string \<Rightarrow> event_row list \<Rightarrow> string \<Rightarrow> bool" where
  "chain_ok s [] s' \<longleftrightarrow> s = s'"
| "chain_ok s (e # es) s' \<longleftrightarrow>
     (case ev_payload e of
        TransitionPayload f t acc \<Rightarrow> f = s \<and> transition_session f t = Inr t \<and>
          acc = \<lparr>at_event_id = ev_id e, at_session_id = ev_session_id e, at_sequence = ev_sequence e,
            at_state = t, at_version = ev_sequence e + 1, at_idempotency_key = ev_idempotency_key e\<rparr> \<and>
          chain_ok t es s'
      | _ \<Rightarrow> False)"

lemma chain_ok_append: "chain_ok s (es @ fs) s' \<longleftrightarrow> (\<exists>m. chain_ok s es m \<and> chain_ok m fs s')"
  by (induction es arbitrary: s) (auto split: event_payload.splits)

definition session_log_ok :: "coord_db \<Rightarrow> session_row \<Rightarrow> bool" where
  "session_log_ok db r \<longleftrightarrow> 1 \<le> ss_next_sequence r \<and> ss_version r = ss_next_sequence r \<and>
     map ev_sequence (session_events db (session_key r)) = map int [1..<nat (ss_next_sequence r)] \<and>
     chain_ok ''pending'' (session_events db (session_key r)) (ss_state r)"

definition event_ok :: "(string \<Rightarrow> string \<Rightarrow> string) \<Rightarrow> coord_db \<Rightarrow> event_row \<Rightarrow> bool" where
  "event_ok u db e \<longleftrightarrow>
     ev_id e = event_id_of u (ev_tenant_id e) (ev_session_id e) (ev_idempotency_key e) \<and>
     event_key e \<in> session_key ` set (db_sessions db)"

definition pg_store_inv :: "(string \<Rightarrow> string \<Rightarrow> string) \<Rightarrow> coord_db \<Rightarrow> bool" where
  "pg_store_inv u db \<longleftrightarrow>
     distinct (map ss_id (db_sessions db)) \<and> distinct (map ev_id (db_events db)) \<and>
     list_all (event_ok u db) (db_events db) \<and> list_all (session_log_ok db) (db_sessions db) \<and>
     distinct (map ob_id (db_outbox db)) \<and>
     map ob_event_id (db_outbox db) = map ev_id (db_events db)"

section \<open>Queries as lookups\<close>

definition session_at :: "coord_db \<Rightarrow> string \<times> string \<Rightarrow> session_row option" where
  "session_at db k = find (\<lambda>r. session_key r = k) (db_sessions db)"

definition event_at :: "coord_db \<Rightarrow> string \<Rightarrow> string \<Rightarrow> event_row option" where
  "event_at db t i = find (\<lambda>e. (ev_id e, ev_tenant_id e) = (i, t)) (db_events db)"

lemma distinct_session_key:
  "distinct (map ss_id rows) \<Longrightarrow> distinct (map session_key rows)"
  by (auto simp: session_key_def distinct_map inj_on_def)

lemma session_query:
  assumes "distinct (map ss_id (db_sessions db))"
  shows "one_or_none (filter (\<lambda>r. ss_id r = s \<and> ss_tenant_id r = t)
      (rls_rows enforced ss_tenant_id t (db_sessions db))) = Inr (session_at db (t, s))"
proof -
  have "filter (\<lambda>r. ss_id r = s \<and> ss_tenant_id r = t) (db_sessions db)
      = filter (\<lambda>r. session_key r = (t, s)) (db_sessions db)"
    by (auto simp: session_key_def intro: filter_cong)
  then show ?thesis
    using one_or_none_key [OF distinct_session_key [OF assms], of "(t, s)"] by (simp add: session_at_def)
qed

lemma event_query:
  assumes "distinct (map ev_id (db_events db))"
  shows "one_or_none (filter (\<lambda>e. ev_id e = i \<and> ev_tenant_id e = t)
      (rls_rows enforced ev_tenant_id t (db_events db))) = Inr (event_at db t i)"
proof -
  have "distinct (map (\<lambda>e. (ev_id e, ev_tenant_id e)) (db_events db))"
    using assms by (auto simp: distinct_map inj_on_def)
  from one_or_none_key [OF this, of "(i, t)"] show ?thesis by (simp add: event_at_def)
qed

lemma session_at_Some: "session_at db k = Some r \<Longrightarrow> r \<in> set (db_sessions db) \<and> session_key r = k"
  unfolding session_at_def by (rule find_key_Some)

lemma event_at_Some: "event_at db t i = Some e \<Longrightarrow>
    e \<in> set (db_events db) \<and> ev_id e = i \<and> ev_tenant_id e = t"
  unfolding event_at_def by (drule find_key_Some) simp

text \<open>A transition that is not a replay either raises and changes nothing, or appends.\<close>

definition accepted_of ::
  "(string \<Rightarrow> string \<Rightarrow> string) \<Rightarrow> session_row \<Rightarrow> string \<Rightarrow> string \<Rightarrow> accepted_transition" where
  "accepted_of u row target k = \<lparr>at_event_id = event_id_of u (ss_tenant_id row) (ss_id row) k,
     at_session_id = ss_id row, at_sequence = ss_next_sequence row, at_state = target,
     at_version = ss_version row + 1, at_idempotency_key = k\<rparr>"

definition appended :: "(string \<Rightarrow> string \<Rightarrow> string) \<Rightarrow> session_row \<Rightarrow> string \<Rightarrow> string \<Rightarrow> instant \<Rightarrow> string \<Rightarrow>
    coord_db \<Rightarrow> coord_db" where
  "appended u row target k now rid db = (let acc = accepted_of u row target k in db\<lparr>
     db_sessions := update_where
       (\<lambda>r. ss_id r = ss_id row \<and> ss_tenant_id r = ss_tenant_id row \<and> ss_version r = ss_version row)
       (\<lambda>r. r\<lparr>ss_state := target, ss_next_sequence := ss_next_sequence row + 1,
          ss_version := ss_version row + 1, ss_updated_at := now\<rparr>) (db_sessions db),
     db_events := db_events db @ [transition_event (ss_tenant_id row) (ss_id row) k (ss_state row) now acc],
     db_outbox := db_outbox db @
       [transition_outbox (ss_tenant_id row) (ss_id row) k (ss_state row) now acc rid]\<rparr>)"

definition insertable :: "(string \<Rightarrow> string \<Rightarrow> string) \<Rightarrow> session_row \<Rightarrow> string \<Rightarrow> string \<Rightarrow> instant \<Rightarrow> string \<Rightarrow>
    coord_db \<Rightarrow> bool" where
  "insertable u row target k now rid db \<longleftrightarrow> (let acc = accepted_of u row target k in
     event_insert_ok (transition_event (ss_tenant_id row) (ss_id row) k (ss_state row) now acc) (db_events db) \<and>
     outbox_insert_ok (transition_outbox (ss_tenant_id row) (ss_id row) k (ss_state row) now acc rid)
       (db_outbox db))"

text \<open>Sessions and events have distinct ids.\<close>

definition distinct_ids :: "coord_db \<Rightarrow> bool" where
  "distinct_ids db \<longleftrightarrow> distinct (map ss_id (db_sessions db)) \<and> distinct (map ev_id (db_events db))"

lemma pg_store_inv_ids: "pg_store_inv u db \<Longrightarrow> distinct_ids db"
  by (simp add: pg_store_inv_def distinct_ids_def)

lemma pg_transition_cases:
  assumes "distinct_ids db"
  obtains (replay) e where "event_at db t (event_id_of u t s k) = Some e"
      "snd (pg_transition_session enforced u t s v target k now rid db) = db"
      "\<And>f g acc. ev_payload e = TransitionPayload f g acc \<Longrightarrow>
         fst (pg_transition_session enforced u t s v target k now rid db) = Inr acc"
  | (refused) x where "event_at db t (event_id_of u t s k) = None"
      "pg_transition_session enforced u t s v target k now rid db = (Inl x, db)"
  | (accepted) row where "event_at db t (event_id_of u t s k) = None"
      "session_at db (t, s) = Some row" "ss_version row = v"
      "transition_session (ss_state row) target = Inr target" "insertable u row target k now rid db"
      "pg_transition_session enforced u t s v target k now rid db
         = (Inr (accepted_of u row target k), appended u row target k now rid db)"
proof -
  have d: "distinct (map ss_id (db_sessions db))" "distinct (map ev_id (db_events db))"
    using assms by (auto simp: distinct_ids_def)
  note q = session_query [OF d(1), of s t enforced] event_query [OF d(2), of "event_id_of u t s k" t enforced]
  show ?thesis
  proof (cases "event_at db t (event_id_of u t s k)")
    case (Some e)
    with q show ?thesis
      by (intro replay [of e]) (auto simp: pg_transition_session_def split: event_payload.splits)
  next
    case None
    show ?thesis
    proof (cases "\<exists>x. pg_transition_session enforced u t s v target k now rid db = (Inl x, db)")
      case True
      with None refused show ?thesis by blast
    next
      case False
      with None q obtain row where row: "session_at db (t, s) = Some row" "ss_version row = v"
        "transition_session (ss_state row) target = Inr target"
        by (auto simp: pg_transition_session_def split: option.splits if_splits sum.splits
            dest: transition_session_Inr)
      have "ss_tenant_id row = t" "ss_id row = s"
        using session_at_Some [OF row(1)] by (auto simp: session_key_def)
      with False None q row show ?thesis
        by (intro accepted [of row])
          (auto simp: pg_transition_session_def accepted_of_def appended_def insertable_def Let_def
            split: if_splits)
    qed
  qed
qed

section \<open>The invariant\<close>

lemma session_log_ok_frame:
  "session_events db' (session_key r) = session_events db (session_key r) \<Longrightarrow>
   session_log_ok db' r = session_log_ok db r"
  by (simp add: session_log_ok_def)

lemma update_session_rows:
  assumes "distinct (map ss_id rows)" "row \<in> set rows"
  shows "set (update_where (\<lambda>r. ss_id r = ss_id row \<and> ss_tenant_id r = ss_tenant_id row \<and>
        ss_version r = ss_version row) g rows) = insert (g row) (set rows - {row})"
proof -
  have "ss_id r = ss_id row \<longleftrightarrow> r = row" if "r \<in> set rows" for r
    using assms that by (auto simp: distinct_map inj_on_def)
  then show ?thesis using assms(2) by (auto simp: set_update_where)
qed

lemma pg_store_inv_appended:
  assumes inv: "pg_store_inv u db" and row: "session_at db (t, s) = Some row"
    and tr: "transition_session (ss_state row) target = Inr target"
    and ins: "insertable u row target k now rid db"
  shows "pg_store_inv u (appended u row target k now rid db)"
proof -
  let ?db = "appended u row target k now rid db"
  let ?e = "transition_event (ss_tenant_id row) (ss_id row) k (ss_state row) now (accepted_of u row target k)"
  let ?row = "row\<lparr>ss_state := target, ss_next_sequence := ss_next_sequence row + 1,
    ss_version := ss_version row + 1, ss_updated_at := now\<rparr>"
  have mem: "row \<in> set (db_sessions db)" and d: "distinct (map ss_id (db_sessions db))"
    using session_at_Some [OF row] inv by (auto simp: pg_store_inv_def)
  have ev: "db_events ?db = db_events db @ [?e]" by (simp add: appended_def Let_def)
  have ek: "event_key ?e = session_key row" by (simp add: event_key_def session_key_def transition_event_def)
  have rows: "set (db_sessions ?db) = insert ?row (set (db_sessions db) - {row})"
    using update_session_rows [OF d mem] by (simp add: appended_def Let_def)
  have keys: "map ss_id (db_sessions ?db) = map ss_id (db_sessions db)"
    "session_key ` set (db_sessions ?db) = session_key ` set (db_sessions db)"
    by (auto simp: appended_def Let_def map_update_where session_key_def image_update_where)
  have old: "session_log_ok db row" using inv mem by (simp add: pg_store_inv_def list_all_iff)
  have "session_events ?db (session_key row) = session_events db (session_key row) @ [?e]"
    by (simp add: session_events_def ev ek)
  moreover have "chain_ok (ss_state row) [?e] target"
    using tr old by (simp add: transition_event_def accepted_of_def session_log_ok_def)
  moreover have "[1..<nat (ss_next_sequence row + 1)] = [1..<nat (ss_next_sequence row)] @ [nat (ss_next_sequence row)]"
    using old upt_Suc_append [of 1 "nat (ss_next_sequence row)"]
    by (auto simp: session_log_ok_def nat_add_distrib)
  ultimately have "session_log_ok ?db ?row"
    using old by (auto simp: session_log_ok_def session_key_def chain_ok_append transition_event_def accepted_of_def)
  moreover have "session_log_ok ?db r" if "r \<in> set (db_sessions db) - {row}" for r
  proof -
    have "session_key r \<noteq> session_key row"
      using that mem distinct_session_key [OF d] by (auto simp: distinct_map inj_on_def)
    then have "session_events ?db (session_key r) = session_events db (session_key r)"
      by (simp add: session_events_def ev ek)
    from session_log_ok_frame [OF this] show ?thesis
      using that inv by (simp add: pg_store_inv_def list_all_iff)
  qed
  ultimately have logs: "list_all (session_log_ok ?db) (db_sessions ?db)" by (auto simp: list_all_iff rows)
  have "event_ok u ?db ?e" using mem
    by (auto simp: event_ok_def keys ek) (simp add: transition_event_def accepted_of_def)
  then have evs: "list_all (event_ok u ?db) (db_events ?db)"
    using inv by (auto simp: pg_store_inv_def list_all_iff ev event_ok_def keys)
  show ?thesis
    using inv ins logs evs keys(1)
    by (auto simp: pg_store_inv_def ev insertable_def event_insert_ok_def outbox_insert_ok_def Let_def)
      (auto simp: appended_def Let_def transition_outbox_def transition_event_def)
qed

lemma no_events:
  assumes "pg_store_inv u db" "k \<notin> session_key ` set (db_sessions db)"
  shows "session_events db k = []"
proof -
  have "event_key e \<noteq> k" if "e \<in> set (db_events db)" for e
    using assms that unfolding pg_store_inv_def list_all_iff event_ok_def by metis
  then show ?thesis by (simp add: session_events_def filter_empty_conv)
qed

lemma pg_store_inv_create:
  assumes inv: "pg_store_inv u db"
  shows "pg_store_inv u (snd (pg_create_session enforced t civ goal pol bud sid fr now db))"
proof (cases "str_or sid fr \<in> ss_id ` set (db_sessions db)")
  case True
  then have "snd (pg_create_session enforced t civ goal pol bud sid fr now db) = db"
    by (auto simp: pg_create_session_def Let_def)
  then show ?thesis using inv by simp
next
  case False
  define new where "new = \<lparr>ss_id = str_or sid fr, ss_tenant_id = t, ss_civilization_id = civ,
     ss_goal_id = goal, ss_state = ''pending'', ss_policy_snapshot = pol,
     ss_budget_snapshot = bud, ss_next_sequence = 1, ss_version = 1,
     ss_cancellation_requested_at = None, ss_cancellation_reason = None, ss_updated_at = now\<rparr>"
  let ?db = "db\<lparr>db_sessions := db_sessions db @ [new]\<rparr>"
  have eq: "snd (pg_create_session enforced t civ goal pol bud sid fr now db) = ?db"
    using False by (auto simp: pg_create_session_def Let_def new_def)
  have "session_key new \<notin> session_key ` set (db_sessions db)"
    using False by (auto simp: session_key_def new_def)
  from no_events [OF inv this] have "session_events db (session_key new) = []" .
  then have "session_log_ok ?db new"
    by (simp add: session_log_ok_def session_events_def new_def session_key_def)
  moreover have "session_log_ok ?db r = session_log_ok db r" for r
    by (rule session_log_ok_frame) (simp add: session_events_def)
  ultimately show ?thesis
    using inv False unfolding eq
    by (auto simp: pg_store_inv_def list_all_iff event_ok_def new_def)
qed

lemma pg_store_inv_step: "pg_store_inv u db \<Longrightarrow> pg_store_inv u (snd (pg_step enforced u c db))"
proof (cases c)
  case (Transition t s v target k now rid)
  assume inv: "pg_store_inv u db"
  show ?thesis
    by (rule pg_transition_cases [OF pg_store_inv_ids [OF inv], where u = u and t = t and s = s and k = k and v = v and target = target
          and now = now and rid = rid and enforced = enforced])
      (use inv Transition pg_store_inv_appended [OF inv] in auto)
qed (simp add: pg_store_inv_create)

lemma pg_store_inv_run: "pg_store_inv u db \<Longrightarrow> pg_store_inv u (run_ops (pg_step enforced u) db cs)"
  by (rule run_ops_invariant) (auto intro: pg_store_inv_step)

lemma pg_store_inv_empty: "pg_store_inv u empty_db"
  by (simp add: pg_store_inv_def empty_db_def)

section \<open>Events are only ever added\<close>

abbreviation grows :: "coord_db \<Rightarrow> coord_db \<Rightarrow> bool" where
  "grows db db' \<equiv> set (db_events db) \<subseteq> set (db_events db')"

lemma grows_step: "pg_store_inv u db \<Longrightarrow> grows db (snd (pg_step enforced u c db))"
proof (cases c)
  case (Transition t s v target k now rid)
  assume inv: "pg_store_inv u db"
  show ?thesis
    by (rule pg_transition_cases [OF pg_store_inv_ids [OF inv], where u = u and t = t and s = s and k = k and v = v and target = target
          and now = now and rid = rid and enforced = enforced])
      (use Transition in \<open>auto simp: appended_def Let_def\<close>)
qed (auto simp: pg_create_session_def Let_def)

lemma grows_run: "pg_store_inv u db \<Longrightarrow> grows db (run_ops (pg_step enforced u) db cs)"
  by (rule run_ops_mono [where I = "pg_store_inv u" and R = grows])
    (auto intro: pg_store_inv_step dest: grows_step)

lemma event_at_grows:
  assumes "pg_store_inv u db'" "grows db db'" "event_at db t i = Some e"
  shows "event_at db' t i = Some e"
proof -
  have e: "e \<in> set (db_events db')" "ev_id e = i" "ev_tenant_id e = t"
    using event_at_Some [OF assms(3)] assms(2) by auto
  have "distinct (map (\<lambda>e. (ev_id e, ev_tenant_id e)) (db_events db'))"
    using assms(1) by (auto simp: pg_store_inv_def distinct_map inj_on_def)
  from find_key_unique [OF this e(1)] show ?thesis by (simp add: event_at_def e(2,3))
qed

text \<open>An acceptance is on record under its idempotency key.\<close>

lemma event_payload_recorded:
  assumes "pg_store_inv u db" "e \<in> set (db_events db)"
  obtains f g acc where "ev_payload e = TransitionPayload f g acc"
proof -
  obtain r where r: "r \<in> set (db_sessions db)" "event_key e = session_key r"
    using assms unfolding pg_store_inv_def list_all_iff event_ok_def by auto
  then have "e \<in> set (session_events db (session_key r))"
    "chain_ok ''pending'' (session_events db (session_key r)) (ss_state r)"
    using assms by (auto simp: session_events_def pg_store_inv_def list_all_iff session_log_ok_def)
  then obtain as bs m where "chain_ok m (e # bs) (ss_state r)" by (metis split_list chain_ok_append)
  then show ?thesis using that by (auto split: event_payload.splits)
qed

lemma event_at_appended:
  assumes "pg_store_inv u db" "session_at db (t, s) = Some row" "insertable u row target k now rid db"
  shows "event_at (appended u row target k now rid db) t (event_id_of u t s k)
     = Some (transition_event t s k (ss_state row) now (accepted_of u row target k))"
proof -
  have "ss_tenant_id row = t" "ss_id row = s"
    using session_at_Some [OF assms(2)] by (auto simp: session_key_def)
  moreover from this have "find (\<lambda>e. (ev_id e, ev_tenant_id e) = (event_id_of u t s k, t)) (db_events db) = None"
    using assms(3) by (force simp: find_None_iff insertable_def event_insert_ok_def Let_def
        transition_event_def accepted_of_def)
  ultimately show ?thesis
    by (simp add: event_at_def appended_def Let_def find_append) (simp add: transition_event_def accepted_of_def)
qed

lemma accepted_event_at:
  assumes inv: "pg_store_inv u db"
    and acc: "pg_transition_session enforced u t s v target k now rid db = (Inr acc, db1)"
  obtains e f g where "event_at db1 t (event_id_of u t s k) = Some e" "ev_payload e = TransitionPayload f g acc"
proof (rule pg_transition_cases [OF pg_store_inv_ids [OF inv], where u = u and t = t and s = s and k = k and v = v and target = target
      and now = now and rid = rid and enforced = enforced])
  fix e
  assume e: "event_at db t (event_id_of u t s k) = Some e"
    "snd (pg_transition_session enforced u t s v target k now rid db) = db"
    "\<And>f g acc. ev_payload e = TransitionPayload f g acc \<Longrightarrow>
       fst (pg_transition_session enforced u t s v target k now rid db) = Inr acc"
  obtain f g acc' where "ev_payload e = TransitionPayload f g acc'"
    using event_payload_recorded [OF inv] event_at_Some [OF e(1)] by metis
  with e acc that show thesis by auto
next
  fix row
  assume row: "session_at db (t, s) = Some row" "insertable u row target k now rid db"
    "pg_transition_session enforced u t s v target k now rid db
       = (Inr (accepted_of u row target k), appended u row target k now rid db)"
  from event_at_appended [OF inv row(1,2)] row(3) acc that show thesis
    by (simp add: transition_event_def)
qed (use acc in auto)

section \<open>Properties\<close>

text \<open>
  C5: after any sequence of session-store commands on an empty database (with row-level security
  enforced or bypassed), every session's events carry the sequence numbers \<open>1, 2, ..., version - 1\<close>
  in order, without gap or duplicate; they are a path of permitted lifecycle transitions from
  \<open>pending\<close> to the session's current state, each recording the accepted transition; and the outbox
  holds exactly one row per event, in the same order.
\<close>

theorem session_log_gap_free:
  "let db = run_ops (pg_step enforced u) empty_db cs in
     (\<forall>r \<in> set (db_sessions db).
        map ev_sequence (session_events db (session_key r)) = map int [1..<nat (ss_version r)] \<and>
        chain_ok ''pending'' (session_events db (session_key r)) (ss_state r)) \<and>
     map ob_event_id (db_outbox db) = map ev_id (db_events db) \<and> distinct (map ev_id (db_events db))"
  using pg_store_inv_run [OF pg_store_inv_empty, of u enforced cs]
  by (auto simp: Let_def pg_store_inv_def list_all_iff session_log_ok_def)

definition demo_uuid5 :: "string \<Rightarrow> string \<Rightarrow> string" where
  "demo_uuid5 ns name = name"

definition demo_run :: "store_command list" where
  "demo_run = [CreateSession ''t'' ''civ'' ''g'' JNull JNull (Some ''s'') ''f'' 5,
     Transition ''t'' ''s'' 1 ''active'' ''k1'' 10 ''o1'', Transition ''t'' ''s'' 1 ''paused'' ''k2'' 11 ''o2'',
     Transition ''t'' ''s'' 2 ''completed'' ''k3'' 12 ''o3'']"

theorem session_log_gap_free_witness:
  "map ev_sequence (session_events (run_ops (pg_step True demo_uuid5) empty_db demo_run) (''t'', ''s'')) = [1, 2]"
proof -
  let ?db = "run_ops (pg_step True demo_uuid5) empty_db demo_run"
  obtain r where r: "r \<in> set (db_sessions ?db)" "session_key r = (''t'', ''s'')" "ss_version r = 3"
  proof
    show "hd (db_sessions ?db) \<in> set (db_sessions ?db)"
      by (rule list.set_sel(1)) code_simp
    show "session_key (hd (db_sessions ?db)) = (''t'', ''s'')" by code_simp
    show "ss_version (hd (db_sessions ?db)) = 3" by code_simp
  qed
  have "map ev_sequence (session_events ?db (session_key r)) = map int [1..<nat (ss_version r)]"
    using session_log_gap_free [of True demo_uuid5 demo_run] r(1) by (simp add: Let_def)
  also have "\<dots> = [1, 2]" unfolding r(3) by code_simp
  finally show ?thesis using r(2) by simp
qed

text \<open>
  Idempotent replay.  Once a transition was accepted under an idempotency key, repeating the
  request with that key (whatever version and target it names), after any further commands, returns
  the recorded acceptance and changes nothing.
\<close>

theorem transition_replay_idempotent:
  assumes "pg_store_inv u db"
    and "pg_transition_session enforced u t s v target k now rid db = (Inr acc, db1)"
  shows "pg_transition_session enforced u t s v' target' k now' rid' (run_ops (pg_step enforced u) db1 cs)
      = (Inr acc, run_ops (pg_step enforced u) db1 cs)"
proof -
  let ?db = "run_ops (pg_step enforced u) db1 cs"
  have inv1: "pg_store_inv u db1"
    using pg_store_inv_step [OF assms(1), of enforced "Transition t s v target k now rid"] assms(2) by simp
  have inv: "pg_store_inv u ?db" by (rule pg_store_inv_run [OF inv1])
  obtain e f g where e: "event_at db1 t (event_id_of u t s k) = Some e" "ev_payload e = TransitionPayload f g acc"
    by (rule accepted_event_at [OF assms])
  have at: "event_at ?db t (event_id_of u t s k) = Some e"
    by (rule event_at_grows [OF inv grows_run [OF inv1] e(1)])
  show ?thesis
    by (rule pg_transition_cases [OF pg_store_inv_ids [OF inv], where u = u and t = t and s = s and k = k and v = v' and target = target'
          and now = now' and rid = rid' and enforced = enforced])
      (use at e(2) in \<open>auto simp: prod_eq_iff\<close>)
qed

theorem transition_replay_idempotent_witness:
  "fst (pg_transition_session True demo_uuid5 ''t'' ''s'' 7 ''failed'' ''k1'' 99 ''o9''
     (run_ops (pg_step True demo_uuid5)
        (snd (pg_transition_session True demo_uuid5 ''t'' ''s'' 1 ''active'' ''k1'' 10 ''o1''
          (run_ops (pg_step True demo_uuid5) empty_db (take 1 demo_run)))) (drop 2 demo_run)))
   = fst (pg_transition_session True demo_uuid5 ''t'' ''s'' 1 ''active'' ''k1'' 10 ''o1''
          (run_ops (pg_step True demo_uuid5) empty_db (take 1 demo_run)))"
proof -
  let ?db = "run_ops (pg_step True demo_uuid5) empty_db (take 1 demo_run)"
  let ?r = "pg_transition_session True demo_uuid5 ''t'' ''s'' 1 ''active'' ''k1'' 10 ''o1'' ?db"
  have "\<not> raised (fst ?r)" by code_simp
  then obtain acc where r: "?r = (Inr acc, snd ?r)" by (metis not_raised_iff prod.collapse)
  from transition_replay_idempotent [OF pg_store_inv_run [OF pg_store_inv_empty] r]
  have "fst (pg_transition_session True demo_uuid5 ''t'' ''s'' 7 ''failed'' ''k1'' 99 ''o9''
     (run_ops (pg_step True demo_uuid5) (snd ?r) (drop 2 demo_run))) = Inr acc"
    by (metis fst_conv)
  then show ?thesis using r by (metis fst_conv)
qed

end
