(* ===== verification/Session_Refinement.thy ===== *)
theory Session_Refinement
  imports Session_Log
begin

text \<open>
  The PostgreSQL session store implements the in-memory one, and what \<open>CoordinationService\<close> can
  rely on of either: the locale \<open>session_store\<close> is the source's \<open>CoordinationCommandStore\<close>
  protocol with the in-memory store as its specification.  Identifiers are UUIDs, so they contain
  no colon, and \<open>uuid5\<close> is taken to be free of collisions; both are hypotheses where they matter.
\<close>

section \<open>Abstraction\<close>

definition plain_id :: "string \<Rightarrow> bool" where
  "plain_id s \<longleftrightarrow> CHR '':'' \<notin> set s"

definition abs_store :: "(string \<Rightarrow> string \<Rightarrow> string) \<Rightarrow> coord_db \<Rightarrow> mem_store" where
  "abs_store u db = \<lparr>
     ms_sessions = (\<lambda>k. map_option record_of_row (session_at db k)),
     ms_accepted = (\<lambda>(t, s, k). if plain_id t \<and> plain_id s
        then map_option (\<lambda>e. accepted (ev_payload e)) (event_at db t (event_id_of u t s k)) else None)\<rparr>"

definition store_ok :: "(string \<Rightarrow> string \<Rightarrow> string) \<Rightarrow> coord_db \<Rightarrow> bool" where
  "store_ok u db \<longleftrightarrow> pg_store_inv u db \<and>
     list_all (\<lambda>e. plain_id (ev_tenant_id e) \<and> plain_id (ev_session_id e)) (db_events db)"

fun command_ok :: "coord_db \<Rightarrow> store_command \<Rightarrow> bool" where
  "command_ok db (CreateSession t civ goal pol bud sid fr now) \<longleftrightarrow>
     list_all (\<lambda>r. ss_id r = str_or sid fr \<longrightarrow> ss_tenant_id r = t \<and> sid \<noteq> None) (db_sessions db)"
| "command_ok db (Transition t s v target k now rid) \<longleftrightarrow>
     plain_id t \<and> plain_id s \<and> rid \<notin> ob_id ` set (db_outbox db)"

lemma event_name_inj:
  assumes "plain_id t" "plain_id t'" "plain_id s" "plain_id s'"
  shows "event_name t s k = event_name t' s' k' \<longleftrightarrow> t = t' \<and> s = s' \<and> k = k'"
  using assms separator_split [of "CHR '':''"] by (auto simp: event_name_def plain_id_def)

lemma store_ok_event_at:
  assumes "store_ok u db" "inj (u ''NAMESPACE_URL'')" "plain_id t" "plain_id s"
    and "e \<in> set (db_events db)" "ev_id e = event_id_of u t s k"
  shows "ev_tenant_id e = t \<and> ev_session_id e = s \<and> ev_idempotency_key e = k"
proof -
  have e: "ev_id e = event_id_of u (ev_tenant_id e) (ev_session_id e) (ev_idempotency_key e)"
    "plain_id (ev_tenant_id e)" "plain_id (ev_session_id e)"
    using assms(1,5) by (auto simp: store_ok_def pg_store_inv_def list_all_iff event_ok_def)
  have "event_name (ev_tenant_id e) (ev_session_id e) (ev_idempotency_key e) = event_name t s k"
    using trans [OF e(1) [symmetric] assms(6)] unfolding inj_eq [OF assms(2)] .
  then show ?thesis using event_name_inj [OF e(2) assms(3) e(3) assms(4)] by simp
qed

section \<open>Inserts never collide\<close>

lemma insertable_ok:
  assumes "store_ok u db" "inj (u ''NAMESPACE_URL'')" "plain_id t" "plain_id s"
    and "rid \<notin> ob_id ` set (db_outbox db)"
    and none: "event_at db t (event_id_of u t s k) = None" and row: "session_at db (t, s) = Some row"
  shows "insertable u row target k now rid db"
proof -
  have ids: "ss_tenant_id row = t" "ss_id row = s" and mem: "row \<in> set (db_sessions db)"
    using session_at_Some [OF row] by (auto simp: session_key_def)
  have inv: "pg_store_inv u db" using assms(1) by (simp add: store_ok_def)
  have new: "ev_id e \<noteq> event_id_of u t s k" if "e \<in> set (db_events db)" for e
    using store_ok_event_at [OF assms(1-4) that, of k] none that
    by (auto simp: event_at_def find_None_iff)
  have seq: "(ev_tenant_id e, ev_session_id e, ev_sequence e) \<noteq> (t, s, ss_next_sequence row)"
    if "e \<in> set (db_events db)" for e
  proof
    assume k: "(ev_tenant_id e, ev_session_id e, ev_sequence e) = (t, s, ss_next_sequence row)"
    have log: "session_log_ok db row" using inv mem by (simp add: pg_store_inv_def list_all_iff)
    have "e \<in> set (session_events db (session_key row))"
      using that k ids by (simp add: session_events_def event_key_def session_key_def)
    then have "ev_sequence e \<in> set (map int [1..<nat (ss_next_sequence row)])"
      using log by (metis image_eqI list.set_map session_log_ok_def)
    then show False using k by auto
  qed
  have "ob_event_id ` set (db_outbox db) = ev_id ` set (db_events db)"
    using inv unfolding pg_store_inv_def by (metis list.set_map)
  moreover have "event_id_of u t s k \<notin> ev_id ` set (db_events db)" using new by force
  moreover have "(t, s, ss_next_sequence row)
      \<notin> (\<lambda>r. (ev_tenant_id r, ev_session_id r, ev_sequence r)) ` set (db_events db)" using seq by force
  ultimately show ?thesis
    using assms(5) ids
    by (simp add: insertable_def event_insert_ok_def outbox_insert_ok_def Let_def transition_event_def
        transition_outbox_def accepted_of_def)
qed

section \<open>Each operation refines\<close>

lemma abs_insert:
  "session_at db (session_key r) = None \<Longrightarrow>
   abs_store u (db\<lparr>db_sessions := db_sessions db @ [r]\<rparr>) = (abs_store u db)\<lparr>ms_sessions :=
     (ms_sessions (abs_store u db))(session_key r \<mapsto> record_of_row r)\<rparr>"
  by (auto simp: abs_store_def fun_eq_iff session_at_def find_append event_at_def split: option.splits)

lemma abs_create:
  assumes ok: "store_ok u db" and cmd: "command_ok db (CreateSession t civ goal pol bud sid fr now)"
  shows "map_prod id (abs_store u) (pg_create_session True t civ goal pol bud sid fr now db)
      = mem_create_session t sid fr (abs_store u db)"
proof -
  let ?sid = "str_or sid fr"
  have d: "distinct (map ss_id (db_sessions db))"
    using ok by (simp add: store_ok_def pg_store_inv_def)
  show ?thesis
  proof (cases "session_at db (t, ?sid)")
    case None
    then have "?sid \<notin> ss_id ` set (db_sessions db)"
      using cmd by (force simp: session_at_def find_None_iff list_all_iff session_key_def)
    moreover have "ms_sessions (abs_store u db) (t, ?sid) = None" using None by (simp add: abs_store_def)
    ultimately show ?thesis
      using abs_insert [of db] None
      by (simp add: pg_create_session_def mem_create_session_def Let_def session_key_def record_of_row_def)
  next
    case (Some row)
    have row: "row \<in> set (db_sessions db)" "ss_id row = ?sid"
      using session_at_Some [OF Some] by (simp_all add: session_key_def)
    have "sid \<noteq> None" using cmd row unfolding command_ok.simps list_all_iff by blast
    moreover have "?sid \<in> ss_id ` set (db_sessions db)" using row by (metis image_eqI)
    moreover have "ms_sessions (abs_store u db) (t, ?sid) = Some (record_of_row row)"
      using Some by (simp add: abs_store_def)
    ultimately show ?thesis using Some session_query [OF d, of ?sid t True]
      by (simp add: pg_create_session_def mem_create_session_def Let_def pg_get_session_def)
  qed
qed

lemma session_at_appended:
  assumes "pg_store_inv u db" "session_at db (t, s) = Some row"
  shows "session_at (appended u row target k now rid db) x =
    (if x = (t, s) then Some (row\<lparr>ss_state := target, ss_next_sequence := ss_next_sequence row + 1,
       ss_version := ss_version row + 1, ss_updated_at := now\<rparr>) else session_at db x)"
proof -
  have row: "row \<in> set (db_sessions db)" "session_key row = (t, s)"
    using session_at_Some [OF assms(2)] by auto
  have d: "distinct (map ss_id (db_sessions db))" using assms(1) by (simp add: pg_store_inv_def)
  have "ss_id r = ss_id row \<and> ss_tenant_id r = ss_tenant_id row \<and> ss_version r = ss_version row \<longleftrightarrow> r = row"
    if "r \<in> set (db_sessions db)" for r
    using d row(1) that by (auto simp: distinct_map inj_on_def)
  from find_update_unique [where key = session_key and k = x, OF distinct_session_key [OF d] row(1) _ this]
  show ?thesis
    using row(2) by (auto simp: session_at_def appended_def Let_def session_key_def)
qed

lemma event_at_appended_iff:
  assumes "session_at db (t, s) = Some row"
  shows "event_at (appended u row target k now rid db) t' i = (case event_at db t' i of
     None \<Rightarrow> if t' = t \<and> i = event_id_of u t s k
       then Some (transition_event t s k (ss_state row) now (accepted_of u row target k)) else None
   | Some e \<Rightarrow> Some e)"
proof -
  have "ss_tenant_id row = t" "ss_id row = s"
    using session_at_Some [OF assms] by (auto simp: session_key_def)
  then show ?thesis
    by (auto simp: event_at_def appended_def Let_def find_append transition_event_def accepted_of_def
        split: option.splits)
qed

lemma abs_appended:
  assumes ok: "store_ok u db" and inj: "inj (u ''NAMESPACE_URL'')" and plain: "plain_id t" "plain_id s"
    and none: "event_at db t (event_id_of u t s k) = None" and row: "session_at db (t, s) = Some row"
    and ins: "insertable u row target k now rid db"
  shows "abs_store u (appended u row target k now rid db) = (abs_store u db)\<lparr>
     ms_sessions := (ms_sessions (abs_store u db))((t, s) \<mapsto>
       \<lparr>sr_session_id = s, sr_tenant_id = t, sr_state = target,
        sr_next_sequence = ss_next_sequence row + 1, sr_version = ss_version row + 1\<rparr>),
     ms_accepted := (ms_accepted (abs_store u db))((t, s, k) \<mapsto> accepted_of u row target k)\<rparr>"
proof -
  have inv: "pg_store_inv u db" using ok by (simp add: store_ok_def)
  have ids: "ss_tenant_id row = t" "ss_id row = s"
    using session_at_Some [OF row] by (auto simp: session_key_def)
  have sess: "ms_sessions (abs_store u (appended u row target k now rid db))
     = (ms_sessions (abs_store u db))((t, s) \<mapsto>
       \<lparr>sr_session_id = s, sr_tenant_id = t, sr_state = target,
        sr_next_sequence = ss_next_sequence row + 1, sr_version = ss_version row + 1\<rparr>)"
    using ids by (auto simp: abs_store_def fun_eq_iff session_at_appended [OF inv row] record_of_row_def)
  have "event_id_of u t' s' k' = event_id_of u t s k \<longleftrightarrow> t' = t \<and> s' = s \<and> k' = k"
    if "plain_id t'" "plain_id s'" for t' s' k'
    using event_name_inj [OF that(1) plain(1) that(2) plain(2)] inj_eq [OF inj] by simp
  then have "ms_accepted (abs_store u (appended u row target k now rid db))
     = (ms_accepted (abs_store u db))((t, s, k) \<mapsto> accepted_of u row target k)"
    using none plain
    by (auto simp: abs_store_def fun_eq_iff event_at_appended_iff [OF row] transition_event_def
        split: option.splits)
  with sess show ?thesis by (simp add: abs_store_def)
qed

lemma abs_transition:
  assumes ok: "store_ok u db" and inj: "inj (u ''NAMESPACE_URL'')"
    and cmd: "command_ok db (Transition t s v target k now rid)"
  shows "map_prod id (abs_store u) (pg_transition_session True u t s v target k now rid db)
      = mem_transition_session u t s v target k (abs_store u db)"
proof -
  have plain: "plain_id t" "plain_id s" and rid: "rid \<notin> ob_id ` set (db_outbox db)" using cmd by auto
  have inv: "pg_store_inv u db" using ok by (simp add: store_ok_def)
  have d: "distinct (map ss_id (db_sessions db))" "distinct (map ev_id (db_events db))"
    using inv by (auto simp: pg_store_inv_def)
  note q = session_query [OF d(1), of s t True] event_query [OF d(2), of "event_id_of u t s k" t True]
  have acc: "ms_accepted (abs_store u db) (t, s, k)
      = map_option (\<lambda>e. accepted (ev_payload e)) (event_at db t (event_id_of u t s k))"
    using plain by (simp add: abs_store_def)
  have ses: "ms_sessions (abs_store u db) (t, s) = map_option record_of_row (session_at db (t, s))"
    by (simp add: abs_store_def)
  show ?thesis
  proof (cases "event_at db t (event_id_of u t s k)")
    case (Some e)
    obtain f g a where "ev_payload e = TransitionPayload f g a"
      using event_payload_recorded [OF inv] event_at_Some [OF Some] by metis
    then show ?thesis using Some q by (simp add: pg_transition_session_def mem_transition_session_def acc)
  next
    case none: None
    show ?thesis
    proof (cases "session_at db (t, s)")
      case None
      then show ?thesis using none q
        by (simp add: pg_transition_session_def mem_transition_session_def acc ses)
    next
      case (Some row)
      have ids: "ss_tenant_id row = t" "ss_id row = s"
        using session_at_Some [OF Some] by (auto simp: session_key_def)
      show ?thesis
      proof (cases "ss_version row = v \<and> transition_session (ss_state row) target = Inr target")
        case False
        then show ?thesis using none Some q
          by (auto simp: pg_transition_session_def mem_transition_session_def acc ses record_of_row_def
              split: sum.splits dest: transition_session_Inr)
      next
        case True
        have ins: "insertable u row target k now rid db"
          by (rule insertable_ok [OF ok inj plain rid none Some])
        have eq: "pg_transition_session True u t s v target k now rid db
            = (Inr (accepted_of u row target k), appended u row target k now rid db)"
          by (rule pg_transition_cases [OF pg_store_inv_ids [OF inv], where u = u and t = t and s = s and k = k and v = v and target = target
              and now = now and rid = rid and enforced = True])
            (use none Some True ins q ids in
              \<open>auto simp: pg_transition_session_def accepted_of_def insertable_def Let_def split: if_splits\<close>)
        show ?thesis
          using none Some True ids abs_appended [OF ok inj plain none Some ins]
          by (simp add: eq mem_transition_session_def acc ses record_of_row_def accepted_of_def Let_def)
      qed
    qed
  qed
qed

section \<open>The store contract and its client\<close>

definition session_version :: "mem_store \<Rightarrow> string \<times> string \<Rightarrow> int option" where
  "session_version st k = map_option sr_version (ms_sessions st k)"

definition versions_grow :: "mem_store \<Rightarrow> mem_store \<Rightarrow> bool" where
  "versions_grow a b \<longleftrightarrow> (\<forall>k v. session_version a k = Some v \<longrightarrow>
     (\<exists>v' \<ge> v. session_version b k = Some v'))"

lemma versions_grow_refl: "versions_grow a a"
  by (auto simp: versions_grow_def)

lemma versions_grow_trans: "versions_grow a b \<Longrightarrow> versions_grow b c \<Longrightarrow> versions_grow a c"
  unfolding versions_grow_def by (meson order_trans)

lemma versions_grow_step: "versions_grow st (snd (mem_step u c st))"
  by (cases c) (auto simp: versions_grow_def session_version_def mem_create_session_def
      mem_transition_session_def Let_def split: option.splits sum.splits)

locale session_store =
  fixes uuid5 :: "string \<Rightarrow> string \<Rightarrow> string"
    and step :: "store_command \<Rightarrow> ('s, store_reply) op"
    and abs :: "'s \<Rightarrow> mem_store"
    and admits :: "'s \<Rightarrow> store_command \<Rightarrow> bool"
    and invar :: "'s \<Rightarrow> bool"
  assumes step_spec: "invar s \<Longrightarrow> admits s c \<Longrightarrow> map_prod id abs (step c s) = mem_step uuid5 c (abs s)"
    and invar_step: "invar s \<Longrightarrow> admits s c \<Longrightarrow> invar (snd (step c s))"
begin

lemma step_result:
  assumes "invar s" "admits s c"
  shows "fst (step c s) = fst (mem_step uuid5 c (abs s))" "abs (snd (step c s)) = snd (mem_step uuid5 c (abs s))"
  using step_spec [OF assms] by (metis fst_map_prod id_apply, metis snd_map_prod)

lemma run_facts:
  assumes "invar s" "admissible_run step admits s cs"
  shows "invar (run_ops step s cs) \<and> versions_grow (abs s) (abs (run_ops step s cs))"
  using assms
proof (induction cs arbitrary: s)
  case (Cons c cs)
  then have "versions_grow (abs s) (abs (snd (step c s)))"
    using step_result(2) [of s c] versions_grow_step by simp
  with Cons show ?case by (auto intro: versions_grow_trans invar_step)
qed (simp add: versions_grow_refl)

text \<open>An expected version is spent by the first new acceptance.\<close>

lemma cas_once:
  assumes "invar s" "admits s (Transition t x v target k now rid)"
    and fresh: "ms_accepted (abs s) (t, x, k) = None"
    and acc: "step (Transition t x v target k now rid) s = (Inr r, s1)"
    and run: "admissible_run step admits s1 cs" "s2 = run_ops step s1 cs"
    and later: "admits s2 (Transition t x v target' k' now' rid')" "ms_accepted (abs s2) (t, x, k') = None"
  shows "\<exists>found > v. fst (step (Transition t x v target' k' now' rid') s2)
      = Inl (OptimisticConflictError v found)"
proof -
  have s1: "invar s1" using invar_step [OF assms(1,2)] acc by simp
  have "session_version (abs s1) (t, x) = Some (v + 1)"
    using step_result [OF assms(1,2)] fresh acc
    by (auto simp: mem_transition_session_def session_version_def Let_def
        split: option.splits if_splits sum.splits)
  then have "\<exists>v' \<ge> v + 1. session_version (abs s2) (t, x) = Some v'"
    using run_facts [OF s1 run(1)] unfolding run(2) versions_grow_def by blast
  then obtain v' where v': "v < v'" "session_version (abs s2) (t, x) = Some v'" by auto
  have "fst (mem_step uuid5 (Transition t x v target' k' now' rid') (abs s2))
      = Inl (OptimisticConflictError v v')"
    using v' later(2) by (auto simp: mem_transition_session_def session_version_def)
  then show ?thesis
    using v'(1) step_result(1) [OF _ later(1)] run_facts [OF s1 run(1)] run(2) by auto
qed

lemma refines:
  assumes "invar s" "admissible_run step admits s cs"
  shows "trace_ops step s cs = trace_ops (mem_step uuid5) (abs s) cs \<and>
    abs (run_ops step s cs) = run_ops (mem_step uuid5) (abs s) cs"
  by (rule admissible_simulation [where I = invar and ok = admits])
    (use assms step_spec invar_step in auto)

end

interpretation mem_sessions: session_store uuid5 "mem_step uuid5" id "\<lambda>_ _. True" "\<lambda>_. True" for uuid5
  by unfold_locales (simp_all add: prod.map_id)

lemma store_ok_step:
  assumes ok: "store_ok u db" and cmd: "command_ok db c"
  shows "store_ok u (snd (pg_step True u c db))"
proof (cases c)
  case (Transition t s v target k now rid)
  have inv: "pg_store_inv u db" using ok by (simp add: store_ok_def)
  have "list_all (\<lambda>e. plain_id (ev_tenant_id e) \<and> plain_id (ev_session_id e))
      (db_events (snd (pg_step True u c db)))"
  proof (rule pg_transition_cases [OF pg_store_inv_ids [OF inv], where u = u and t = t and s = s and k = k and v = v and target = target
          and now = now and rid = rid and enforced = True])
    fix row
    assume row: "session_at db (t, s) = Some row" and eq: "pg_transition_session True u t s v target k now rid db
       = (Inr (accepted_of u row target k), appended u row target k now rid db)"
    have "ss_tenant_id row = t" "ss_id row = s" using session_at_Some [OF row] by (auto simp: session_key_def)
    then show ?thesis using ok cmd Transition
      by (simp add: eq store_ok_def appended_def Let_def transition_event_def)
  qed (use ok Transition in \<open>auto simp: store_ok_def\<close>)
  then show ?thesis using pg_store_inv_step [OF inv] by (simp add: store_ok_def)
next
  case (CreateSession t civ goal pol bud sid fr now)
  then show ?thesis using ok pg_store_inv_create
    by (auto simp: store_ok_def pg_create_session_def Let_def)
qed

interpretation pg_sessions: session_store uuid5 "pg_step True uuid5" "abs_store uuid5" command_ok
    "\<lambda>db. inj (uuid5 ''NAMESPACE_URL'') \<and> store_ok uuid5 db" for uuid5
proof
  fix db c
  assume inv: "inj (uuid5 ''NAMESPACE_URL'') \<and> store_ok uuid5 db" and cmd: "command_ok db c"
  then show "inj (uuid5 ''NAMESPACE_URL'') \<and> store_ok uuid5 (snd (pg_step True uuid5 c db))"
    by (simp add: store_ok_step)
  show "map_prod id (abs_store uuid5) (pg_step True uuid5 c db) = mem_step uuid5 c (abs_store uuid5 db)"
  proof (cases c)
    case (CreateSession t civ goal pol bud sid fr now)
    with inv cmd abs_create [of uuid5 db t civ goal pol bud sid fr now] show ?thesis
      by (cases "pg_create_session True t civ goal pol bud sid fr now db";
          cases "mem_create_session t sid fr (abs_store uuid5 db)") auto
  next
    case (Transition t s v target k now rid)
    with inv cmd abs_transition [of uuid5 db t s v target k now rid] show ?thesis
      by (cases "pg_transition_session True uuid5 t s v target k now rid db";
          cases "mem_transition_session uuid5 t s v target k (abs_store uuid5 db)") auto
  qed
qed

lemma filter_other_tenants:
  "filter (\<lambda>r. ss_tenant_id r \<noteq> t)
     (update_where (\<lambda>r. ss_id r = s \<and> ss_tenant_id r = t \<and> ss_version r = v)
       (\<lambda>r. r\<lparr>ss_state := x, ss_next_sequence := n, ss_version := w, ss_updated_at := now\<rparr>) rows)
   = filter (\<lambda>r. ss_tenant_id r \<noteq> t) rows"
  by (induction rows) auto

fun command_tenant :: "store_command \<Rightarrow> string" where
  "command_tenant (CreateSession t _ _ _ _ _ _ _) = t"
| "command_tenant (Transition t _ _ _ _ _ _) = t"

definition other_tenants_kept :: "string \<Rightarrow> coord_db \<Rightarrow> coord_db \<Rightarrow> bool" where
  "other_tenants_kept t db db' \<longleftrightarrow>
     filter (\<lambda>r. ss_tenant_id r \<noteq> t) (db_sessions db') = filter (\<lambda>r. ss_tenant_id r \<noteq> t) (db_sessions db) \<and>
     filter (\<lambda>e. ev_tenant_id e \<noteq> t) (db_events db') = filter (\<lambda>e. ev_tenant_id e \<noteq> t) (db_events db) \<and>
     filter (\<lambda>r. ob_tenant_id r \<noteq> t) (db_outbox db') = filter (\<lambda>r. ob_tenant_id r \<noteq> t) (db_outbox db)"

lemma other_tenants_kept_refl [simp]: "other_tenants_kept t db db"
  by (simp add: other_tenants_kept_def)

lemma kept_append [simp]:
  "other_tenants_kept t db (db\<lparr>db_sessions := update_where
       (\<lambda>r. ss_id r = s \<and> ss_tenant_id r = t \<and> ss_version r = v)
       (\<lambda>r. r\<lparr>ss_state := x, ss_next_sequence := n, ss_version := w, ss_updated_at := now\<rparr>) (db_sessions db),
     db_events := db_events db @ [transition_event t s k p now acc],
     db_outbox := db_outbox db @ [transition_outbox t s k p now acc rid]\<rparr>)"
  by (simp add: other_tenants_kept_def filter_other_tenants) (simp add: transition_event_def transition_outbox_def)

lemma pg_transition_frame:
  "other_tenants_kept t db (snd (pg_transition_session enforced u t s v target k now rid db))"
proof -
  define q1 where "q1 = one_or_none (filter (\<lambda>e. ev_id e = event_id_of u t s k \<and> ev_tenant_id e = t)
    (rls_rows enforced ev_tenant_id t (db_events db)))"
  define q2 where "q2 = one_or_none (filter (\<lambda>r. ss_id r = s \<and> ss_tenant_id r = t)
    (rls_rows enforced ss_tenant_id t (db_sessions db)))"
  note unfolded = pg_transition_session_def Let_def q1_def [symmetric] q2_def [symmetric]
  consider e where "q1 = Inl e" | r where "q1 = Inr (Some r)" | "q1 = Inr None" by (metis sum.exhaust not_Some_eq)
  then show ?thesis
  proof cases
    case (1 e)
    then show ?thesis unfolding unfolded by simp
  next
    case (2 r)
    then show ?thesis unfolding unfolded by (cases "ev_payload r") simp_all
  next
    case 3
    consider e where "q2 = Inl e" | row where "q2 = Inr (Some row)" | "q2 = Inr None" by (metis sum.exhaust not_Some_eq)
    then show ?thesis
      unfolding unfolded using 3 by cases (simp_all split: sum.split)
  qed
qed

section \<open>Properties\<close>

text \<open>
  C7: the PostgreSQL session store implements the in-memory store.  For a collision-free \<open>uuid5\<close>,
  identifiers without a colon, session ids that no other tenant uses and new outbox row ids, every
  sequence of create and transition commands returns the same records, acceptances and exceptions
  as the in-memory store, and leaves the same sessions and acceptances on record.
\<close>

theorem pg_sessions_refine_memory:
  assumes "inj (u ''NAMESPACE_URL'')" "store_ok u db" "admissible_run (pg_step True u) command_ok db cs"
  shows "trace_ops (pg_step True u) db cs = trace_ops (mem_step u) (abs_store u db) cs \<and>
    abs_store u (run_ops (pg_step True u) db cs) = run_ops (mem_step u) (abs_store u db) cs"
  by (rule pg_sessions.refines) (use assms in auto)

lemma demo_uuid5_inj: "inj (demo_uuid5 ns)"
  by (simp add: demo_uuid5_def inj_def)

lemma store_ok_empty: "store_ok u empty_db"
  using pg_store_inv_empty [of u] by (simp add: store_ok_def empty_db_def)

theorem pg_sessions_refine_memory_witness:
  "trace_ops (pg_step True demo_uuid5) empty_db demo_run
     = trace_ops (mem_step demo_uuid5) (abs_store demo_uuid5 empty_db) demo_run \<and>
   map raised (trace_ops (pg_step True demo_uuid5) empty_db demo_run) = [False, False, True, False]"
proof -
  have "admissible_run (pg_step True demo_uuid5) command_ok empty_db demo_run" by code_simp
  from pg_sessions_refine_memory [OF demo_uuid5_inj store_ok_empty this]
  have "trace_ops (pg_step True demo_uuid5) empty_db demo_run
     = trace_ops (mem_step demo_uuid5) (abs_store demo_uuid5 empty_db) demo_run" by blast
  moreover have "map raised (trace_ops (pg_step True demo_uuid5) empty_db demo_run) = [False, False, True, False]"
    by code_simp
  ultimately show ?thesis by blast
qed

text \<open>
  C8: optimistic concurrency.  After a session command was newly accepted against an expected
  version, any later command under a new idempotency key that still names that version, whatever
  ran in between, is refused with \<open>OptimisticConflictError\<close> and a higher version found: of several
  writers that read the same version at most one is accepted.
\<close>

theorem service_version_spent_once:
  assumes "inj (u ''NAMESPACE_URL'')" "store_ok u db"
    and "plain_id t" "plain_id s" "rid \<notin> ob_id ` set (db_outbox db)"
    and "ms_accepted (abs_store u db) (t, s, k) = None"
    and first: "service_transition (\<lambda>t s v tgt k. pg_transition_session True u t s v tgt k now rid) cmd t s v k db
           = (Inr acc, db1)"
    and run: "admissible_run (pg_step True u) command_ok db1 cs"
    and db2: "db2 = run_ops (pg_step True u) db1 cs"
    and later: "rid' \<notin> ob_id ` set (db_outbox db2)" "k' \<noteq> []" "ms_accepted (abs_store u db2) (t, s, k') = None"
  shows "\<exists>found > v. fst (service_transition (\<lambda>t s v tgt k. pg_transition_session True u t s v tgt k now' rid')
      cmd' t s v k' db2) = Inl (OptimisticConflictError v found)"
proof -
  have ne: "s \<noteq> []" and "k \<noteq> []" using first by (auto simp: service_transition_def split: if_splits)
  then have "pg_step True u (Transition t s v (command_target cmd) k now rid) db = (Inr (Accepted acc), db1)"
    using first by (simp add: service_transition_def)
  from pg_sessions.cas_once [OF _ _ assms(6) this run db2, of "command_target cmd'" k' now' rid'] assms
  obtain found where "found > v"
    "fst (pg_step True u (Transition t s v (command_target cmd') k' now' rid') db2)
      = Inl (OptimisticConflictError v found)" by auto
  then show ?thesis using ne later(2)
    by (cases "fst (pg_transition_session True u t s v (command_target cmd') k' now' rid' db2)")
      (auto simp: service_transition_def)
qed

theorem service_version_spent_once_witness:
  "\<exists>found > 1. fst (service_transition (\<lambda>t s v tgt k. pg_transition_session True demo_uuid5 t s v tgt k 11 ''o2'')
      Pause ''t'' ''s'' 1 ''k2''
      (snd (service_transition (\<lambda>t s v tgt k. pg_transition_session True demo_uuid5 t s v tgt k 10 ''o1'')
        Start ''t'' ''s'' 1 ''k1'' (run_ops (pg_step True demo_uuid5) empty_db (take 1 demo_run)))))
    = Inl (OptimisticConflictError 1 found)"
proof -
  let ?db = "run_ops (pg_step True demo_uuid5) empty_db (take 1 demo_run)"
  let ?r = "service_transition (\<lambda>t s v tgt k. pg_transition_session True demo_uuid5 t s v tgt k 10 ''o1'')
        Start ''t'' ''s'' 1 ''k1'' ?db"
  have "command_ok empty_db (hd demo_run)" by code_simp
  from store_ok_step [OF store_ok_empty [of demo_uuid5] this]
  have ok: "store_ok demo_uuid5 ?db" by (simp add: demo_run_def)
  have "\<not> raised (fst ?r)" by code_simp
  then obtain acc where r: "?r = (Inr acc, snd ?r)" by (metis not_raised_iff prod.collapse)
  have "plain_id ''t''" "plain_id ''s''" "''o1'' \<notin> ob_id ` set (db_outbox ?db)"
    "ms_accepted (abs_store demo_uuid5 ?db) (''t'', ''s'', ''k1'') = None"
    "''o2'' \<notin> ob_id ` set (db_outbox (snd ?r))" "''k2'' \<noteq> []"
    "ms_accepted (abs_store demo_uuid5 (snd ?r)) (''t'', ''s'', ''k2'') = None" by code_simp+
  from service_version_spent_once [where cs = "[]", OF demo_uuid5_inj ok this(1-4) r _ _ this(5-7), of 11 Pause]
  show ?thesis by simp
qed

text \<open>
  C9: tenant isolation without row-level security.  On a connection that bypasses the policies,
  every store command does exactly what it does under them, and it leaves the sessions, events and
  outbox rows of all other tenants as they were.
\<close>

theorem store_isolated_without_rls:
  "pg_step False u c db = pg_step True u c db \<and> other_tenants_kept (command_tenant c) db (snd (pg_step False u c db))"
proof (cases c)
  case (CreateSession t civ goal pol bud sid fr now)
  have "pg_get_session False t x d = pg_get_session True t x d" for x d
    unfolding pg_get_session_def rls_rows_filter_tenant ..
  then show ?thesis using CreateSession by (auto simp: pg_create_session_def Let_def other_tenants_kept_def)
next
  case (Transition t s v target k now rid)
  have "pg_transition_session False u t s v target k now rid db
      = pg_transition_session True u t s v target k now rid db"
    unfolding pg_transition_session_def rls_rows_filter_tenant ..
  then show ?thesis using Transition pg_transition_frame [of t db] by simp
qed

end
