(* ===== verification/Outbox.thy ===== *)
theory Outbox
  imports Session_Log "HOL-Library.Product_Lexorder"
begin

text \<open>
  The transactional outbox of \<open>app/coordination/outbox.py\<close> and its dispatcher
  (\<open>outbox_dispatcher.py\<close>): claiming due rows, publishing them to a stream transport, retry with
  deterministic backoff, and dead-lettering.  The transport (\<open>StreamPublisher\<close>) is a parameter with
  a state of its own; so are the digest behind the jitter, the dead-letter id and the text of an
  exception.  Clock readings are arguments, one per repository call.  The set of rows that other
  transactions hold locked (\<open>SKIP LOCKED\<close>) is an argument of a claim.  Floating-point delays are
  rationals.
\<close>

record outbox_record =
  or_record_id :: string
  or_event_id :: string
  or_tenant_id :: string
  or_session_id :: string
  or_envelope :: envelope
  or_attempt_count :: int

section \<open>Backoff\<close>

text \<open>\<open>digest8 event attempt\<close> stands for the first eight bytes of the digest, as an integer.\<close>

definition retry_delay_seconds :: "(string \<Rightarrow> int \<Rightarrow> int) \<Rightarrow> string \<Rightarrow> int \<Rightarrow> rat \<Rightarrow> rat \<Rightarrow> rat result" where
  "retry_delay_seconds digest8 event_id attempt base_seconds max_seconds =
     (if attempt \<le> 0 \<or> base_seconds \<le> 0 \<or> max_seconds \<le> 0
      then Inl (ValueError ''attempt and delay bounds must be positive'')
      else let fraction = of_int (digest8 event_id attempt) / of_int (2 ^ 64 - 1);
               exponential = base_seconds * 2 ^ nat (attempt - 1)
           in Inr (min max_seconds (exponential * (1 + fraction))))"

section \<open>Delivery over a repository and a transport\<close>

record 's outbox_repo =
  repo_claim :: "instant \<Rightarrow> string \<Rightarrow> int \<Rightarrow> ('s, outbox_record list) op"
  repo_published :: "instant \<Rightarrow> string \<Rightarrow> string \<Rightarrow> ('s, unit) op"
  repo_retry :: "instant \<Rightarrow> string \<Rightarrow> int \<Rightarrow> rat \<Rightarrow> string \<Rightarrow> ('s, unit) op"
  repo_dead_letter :: "instant \<Rightarrow> string \<Rightarrow> string \<Rightarrow> ('s, unit) op"

record 'w transport =
  publish :: "string \<Rightarrow> string \<Rightarrow> envelope \<Rightarrow> ('w, string) op"
  digest8 :: "string \<Rightarrow> int \<Rightarrow> int"
  describe :: "py_error \<Rightarrow> string"

definition on_failure ::
  "'s outbox_repo \<Rightarrow> 'w transport \<Rightarrow> int \<Rightarrow> instant \<Rightarrow> outbox_record \<Rightarrow> py_error \<Rightarrow> ('s, unit) op" where
  "on_failure repo tr max_attempts now rec exc s =
     (let attempt = or_attempt_count rec + 1; error = describe tr exc in
      if attempt \<ge> max_attempts then repo_dead_letter repo now (or_record_id rec) error s
      else case retry_delay_seconds (digest8 tr) (or_event_id rec) attempt 1 300 of
             Inl e \<Rightarrow> (Inl e, s)
           | Inr delay \<Rightarrow> repo_retry repo now (or_record_id rec) attempt delay error s)"

fun deliver_loop ::
  "'s outbox_repo \<Rightarrow> 'w transport \<Rightarrow> int \<Rightarrow> (nat \<Rightarrow> instant) \<Rightarrow> outbox_record list \<Rightarrow> nat \<Rightarrow> int \<Rightarrow>
   ('s \<times> 'w, int) op" where
  "deliver_loop repo tr max_attempts clk [] i delivered (s, w) = (Inr delivered, (s, w))"
| "deliver_loop repo tr max_attempts clk (rec # recs) i delivered (s, w) =
     (case publish tr (or_tenant_id rec) (or_session_id rec) (or_envelope rec) w of
        (Inl exc, w') \<Rightarrow>
          (case on_failure repo tr max_attempts (clk i) rec exc s of
             (Inl e, s') \<Rightarrow> (Inl e, (s', w'))
           | (Inr _, s') \<Rightarrow> deliver_loop repo tr max_attempts clk recs (Suc i) delivered (s', w'))
      | (Inr message, w') \<Rightarrow>
          (case repo_published repo (clk i) (or_record_id rec) message s of
             (Inl e, s') \<Rightarrow> (Inl e, (s', w'))
           | (Inr _, s') \<Rightarrow> deliver_loop repo tr max_attempts clk recs (Suc i) (delivered + 1) (s', w')))"

definition deliver ::
  "'s outbox_repo \<Rightarrow> 'w transport \<Rightarrow> int \<Rightarrow> (nat \<Rightarrow> instant) \<Rightarrow> string \<Rightarrow> int \<Rightarrow> ('s \<times> 'w, int) op" where
  "deliver repo tr max_attempts clk owner limit sw =
     (if owner = [] \<or> limit \<le> 0 then (Inl (ValueError ''owner and positive limit are required''), sw)
      else case repo_claim repo (clk 0) owner limit (fst sw) of
             (Inl e, s') \<Rightarrow> (Inl e, (s', snd sw))
           | (Inr recs, s') \<Rightarrow> deliver_loop repo tr max_attempts clk recs 1 0 (s', snd sw))"

text \<open>\<open>OutboxDelivery.__init__\<close> refuses a non-positive attempt budget.\<close>

definition new_delivery :: "int \<Rightarrow> int result" where
  "new_delivery max_attempts =
     (if max_attempts \<le> 0 then Inl (ValueError ''max_attempts must be positive'') else Inr max_attempts)"

section \<open>The PostgreSQL outbox repository\<close>

definition due :: "instant \<Rightarrow> duration \<Rightarrow> outbox_row \<Rightarrow> bool" where
  "due now claim_ttl r \<longleftrightarrow>
     ob_state r = ''pending'' \<and> ob_available_at r \<le> now \<or>
     ob_state r = ''claimed'' \<and> (case ob_claimed_at r of None \<Rightarrow> False | Some c \<Rightarrow> c \<le> now - claim_ttl)"

text \<open>\<open>OutboxRecord\<close> refuses a negative attempt count; the claiming transaction then rolls back.\<close>

definition record_of_outbox :: "outbox_row \<Rightarrow> outbox_record" where
  "record_of_outbox r = \<lparr>or_record_id = ob_id r, or_event_id = ob_event_id r, or_tenant_id = ob_tenant_id r,
     or_session_id = ob_session_id r, or_envelope = ob_payload r, or_attempt_count = ob_attempt_count r\<rparr>"

definition claimable ::
  "bool \<Rightarrow> string \<Rightarrow> duration \<Rightarrow> string list \<Rightarrow> instant \<Rightarrow> int \<Rightarrow> outbox_row list \<Rightarrow> outbox_row list" where
  "claimable enforced tenant claim_ttl locked now limit rows =
     take (nat limit) (sort_key (\<lambda>r. (ob_available_at r, ob_created_at r))
       (filter (\<lambda>r. ob_tenant_id r = tenant \<and> due now claim_ttl r \<and> ob_id r \<notin> set locked)
         (rls_rows enforced ob_tenant_id tenant rows)))"

definition pg_claim ::
  "bool \<Rightarrow> string \<Rightarrow> duration \<Rightarrow> string list \<Rightarrow> instant \<Rightarrow> string \<Rightarrow> int \<Rightarrow> (coord_db, outbox_record list) op" where
  "pg_claim enforced tenant claim_ttl locked now owner limit db =
     (let rows = claimable enforced tenant claim_ttl locked now limit (db_outbox db)
      in if \<exists>r \<in> set rows. ob_attempt_count r < 0 then (Inl (ValueError ''attempt_count''), db)
         else (Inr (map record_of_outbox rows),
          if rows = [] then db
          else db\<lparr>db_outbox := update_where
            (\<lambda>r. ob_id r \<in> set (map ob_id rows) \<and> (enforced \<longrightarrow> ob_tenant_id r = tenant))
            (\<lambda>r. r\<lparr>ob_state := ''claimed'', ob_claim_owner := owner, ob_claimed_at := Some now\<rparr>)
            (db_outbox db)\<rparr>))"

text \<open>\<open>_update\<close>: one \<open>UPDATE\<close> by primary key in the tenant's transaction.\<close>

definition pg_update ::
  "bool \<Rightarrow> string \<Rightarrow> string \<Rightarrow> (outbox_row \<Rightarrow> outbox_row) \<Rightarrow> (coord_db, unit) op" where
  "pg_update enforced tenant record_id f db = (Inr (), db\<lparr>db_outbox := update_where
     (\<lambda>r. ob_id r = record_id \<and> (enforced \<longrightarrow> ob_tenant_id r = tenant)) f (db_outbox db)\<rparr>)"

definition pg_mark_published ::
  "bool \<Rightarrow> string \<Rightarrow> instant \<Rightarrow> string \<Rightarrow> string \<Rightarrow> (coord_db, unit) op" where
  "pg_mark_published enforced tenant now record_id message_id =
     pg_update enforced tenant record_id
       (\<lambda>r. r\<lparr>ob_state := ''published'', ob_published_at := Some now, ob_claim_owner := ''''\<rparr>)"

text \<open>\<open>timedelta(seconds=delay)\<close> in microseconds, rounded to the nearest, ties to even.\<close>

definition seconds :: "rat \<Rightarrow> duration" where
  "seconds d = round_half_even (d * 1000000)"

definition pg_mark_retry ::
  "bool \<Rightarrow> string \<Rightarrow> instant \<Rightarrow> string \<Rightarrow> int \<Rightarrow> rat \<Rightarrow> string \<Rightarrow> (coord_db, unit) op" where
  "pg_mark_retry enforced tenant now record_id attempt delay error =
     pg_update enforced tenant record_id
       (\<lambda>r. r\<lparr>ob_state := ''pending'', ob_attempt_count := attempt,
          ob_available_at := now + seconds delay, ob_claim_owner := '''', ob_claimed_at := None,
          ob_last_error := error\<rparr>)"

definition pg_dead_letter ::
  "bool \<Rightarrow> (string \<Rightarrow> string) \<Rightarrow> string \<Rightarrow> instant \<Rightarrow> string \<Rightarrow> string \<Rightarrow> (coord_db, unit) op" where
  "pg_dead_letter enforced dead_id tenant now record_id error db =
     (case exactly_one (filter (\<lambda>r. ob_id r = record_id)
             (rls_rows enforced ob_tenant_id tenant (db_outbox db))) of
        Inl e \<Rightarrow> (Inl e, db)
      | Inr row \<Rightarrow>
          if dead_id record_id \<in> dl_id ` set (db_dead db)
          then (Inl (IntegrityError ''coordination_dead_letters''), db)
          else (Inr (), db\<lparr>db_dead := db_dead db @
                 [\<lparr>dl_id = dead_id record_id, dl_tenant_id = tenant, dl_event_id = ob_event_id row,
                   dl_session_id = ob_session_id row, dl_payload = ob_payload row,
                   dl_replay_status = ''pending_operator_review''\<rparr>],
               db_outbox := update_where
                 (\<lambda>r. ob_id r = record_id \<and> (enforced \<longrightarrow> ob_tenant_id r = tenant))
                 (\<lambda>r. r\<lparr>ob_state := ''dead_letter'', ob_last_error := error\<rparr>) (db_outbox db)\<rparr>))"

definition pg_outbox_repo ::
  "bool \<Rightarrow> (string \<Rightarrow> string) \<Rightarrow> string \<Rightarrow> duration \<Rightarrow> string list \<Rightarrow> coord_db outbox_repo" where
  "pg_outbox_repo enforced dead_id tenant claim_ttl locked = \<lparr>
     repo_claim = pg_claim enforced tenant claim_ttl locked,
     repo_published = pg_mark_published enforced tenant,
     repo_retry = pg_mark_retry enforced tenant,
     repo_dead_letter = pg_dead_letter enforced dead_id tenant\<rparr>"

section \<open>The dispatcher\<close>

text \<open>
  The cross-tenant scan runs under the maintenance role; \<open>SELECT DISTINCT\<close> promises no order, and
  the model lists the tenants by first occurrence.
\<close>

definition tenants_with_due_outbox :: "instant \<Rightarrow> duration \<Rightarrow> nat \<Rightarrow> coord_db \<Rightarrow> string list" where
  "tenants_with_due_outbox now claim_ttl limit db =
     take limit (rev (remdups (rev (map ob_tenant_id (filter (due now claim_ttl) (db_outbox db))))))"

record dispatch_report =
  dr_status :: string
  dr_reason :: string
  dr_tenants :: nat
  dr_delivered :: int
  dr_failed_tenants :: int

text \<open>
  One tenant's failure is counted and does not stop the others; the constructor of
  \<open>OutboxDelivery\<close> stands outside the \<open>try\<close>.
\<close>

fun dispatch_tenants ::
  "(string \<Rightarrow> 's outbox_repo) \<Rightarrow> 'w transport \<Rightarrow> int \<Rightarrow> (string \<Rightarrow> nat \<Rightarrow> instant) \<Rightarrow> string \<Rightarrow> int \<Rightarrow>
   string list \<Rightarrow> int \<Rightarrow> int \<Rightarrow> ('s \<times> 'w, int \<times> int) op" where
  "dispatch_tenants repo tr max_attempts clk owner batch [] delivered failed sw = (Inr (delivered, failed), sw)"
| "dispatch_tenants repo tr max_attempts clk owner batch (t # ts) delivered failed sw =
     (case new_delivery max_attempts of
        Inl e \<Rightarrow> (Inl e, sw)
      | Inr attempts \<Rightarrow>
          (case deliver (repo t) tr attempts (clk t) owner batch sw of
             (Inl _, sw') \<Rightarrow>
               dispatch_tenants repo tr max_attempts clk owner batch ts delivered (failed + 1) sw'
           | (Inr n, sw') \<Rightarrow>
               dispatch_tenants repo tr max_attempts clk owner batch ts (delivered + n) failed sw'))"

definition dispatch_once ::
  "bool \<Rightarrow> (string \<Rightarrow> string) \<Rightarrow> duration \<Rightarrow> (string \<Rightarrow> string list) \<Rightarrow> 'w transport option \<Rightarrow> int \<Rightarrow> instant \<Rightarrow>
   (string \<Rightarrow> nat \<Rightarrow> instant) \<Rightarrow> string \<Rightarrow> int \<Rightarrow> nat \<Rightarrow> (coord_db \<times> 'w, dispatch_report) op" where
  "dispatch_once enforced dead_id claim_ttl locked publisher max_attempts now clk owner batch max_tenants sw =
     (case publisher of
        None \<Rightarrow> (Inr \<lparr>dr_status = ''skipped'', dr_reason = ''no_stream_transport'', dr_tenants = 0,
                  dr_delivered = 0, dr_failed_tenants = 0\<rparr>, sw)
      | Some tr \<Rightarrow>
          let tenants = tenants_with_due_outbox now claim_ttl max_tenants (fst sw) in
          case dispatch_tenants (\<lambda>t. pg_outbox_repo enforced dead_id t claim_ttl (locked t)) tr max_attempts
                 clk owner batch tenants 0 0 sw of
            (Inl e, sw') \<Rightarrow> (Inl e, sw')
          | (Inr (delivered, failed), sw') \<Rightarrow>
              (Inr \<lparr>dr_status = ''ok'', dr_reason = '''', dr_tenants = length tenants,
                 dr_delivered = delivered, dr_failed_tenants = failed\<rparr>, sw'))"

end
