(* ===== verification/Outbox_Delivery.thy ===== *)
theory Outbox_Delivery
  imports Outbox
begin

text \<open>
  Correctness of outbox delivery: the contract of \<open>OutboxRepository\<close> as a locale over an abstract
  delivery status, the delivery loop accounted for once against that contract, the PostgreSQL
  repository as its instance, exclusive claims, the bounds of the backoff, and the dispatcher.
\<close>

section \<open>The contract of an outbox repository\<close>

datatype delivery_status = Pending int instant | Claimed int | Published | DeadLettered

fun publish_all :: "'w transport \<Rightarrow> outbox_record list \<Rightarrow> 'w \<Rightarrow> string result list \<times> 'w" where
  "publish_all tr [] w = ([], w)"
| "publish_all tr (r # rs) w =
     (let (out, w1) = publish tr (or_tenant_id r) (or_session_id r) (or_envelope r) w;
          (outs, w2) = publish_all tr rs w1
      in (out # outs, w2))"

definition backoff :: "'w transport \<Rightarrow> outbox_record \<Rightarrow> rat" where
  "backoff tr r = min 300 (2 ^ nat (or_attempt_count r) *
     (1 + of_int (digest8 tr (or_event_id r) (or_attempt_count r + 1)) / of_int (2 ^ 64 - 1)))"

text \<open>What becomes of a claimed record, given what the transport answered.\<close>

definition settled :: "'w transport \<Rightarrow> int \<Rightarrow> instant \<Rightarrow> outbox_record \<Rightarrow> string result \<Rightarrow> delivery_status" where
  "settled tr max_attempts now r out =
     (if \<not> raised out then Published
      else if or_attempt_count r + 1 \<ge> max_attempts then DeadLettered
      else Pending (or_attempt_count r + 1) (now + seconds (backoff tr r)))"

fun settle_all :: "'w transport \<Rightarrow> int \<Rightarrow> (nat \<Rightarrow> instant) \<Rightarrow> nat \<Rightarrow> outbox_record list \<Rightarrow> string result list \<Rightarrow>
    (string \<times> delivery_status) list" where
  "settle_all tr m clk i (r # rs) (out # outs) =
     (or_record_id r, settled tr m (clk i) r out) # settle_all tr m clk (Suc i) rs outs"
| "settle_all tr m clk i _ _ = []"

definition accepted_count :: "string result list \<Rightarrow> int" where
  "accepted_count outs = int (length (filter (\<lambda>out. \<not> raised out) outs))"

lemma accepted_count_simps [simp]:
  "accepted_count [] = 0"
  "accepted_count (out # outs) = (if raised out then 0 else 1) + accepted_count outs"
  by (simp_all add: accepted_count_def)

lemma length_publish_all: "length (fst (publish_all tr rs w)) = length rs"
  by (induction rs arbitrary: w) (auto simp: Let_def split: prod.splits, metis fst_conv)

lemma fst_settle_all: "length outs = length rs \<Longrightarrow> map fst (settle_all tr m clk i rs outs) = map or_record_id rs"
  by (induction rs arbitrary: i outs) (auto simp: length_Suc_conv)

lemma retry_delay_backoff:
  "0 \<le> or_attempt_count r \<Longrightarrow>
   retry_delay_seconds (digest8 tr) (or_event_id r) (or_attempt_count r + 1) 1 300 = Inr (backoff tr r)"
  by (simp add: retry_delay_seconds_def backoff_def Let_def)

locale outbox_repository =
  fixes repo :: "'s outbox_repo"
    and inv :: "'s \<Rightarrow> bool"
    and view :: "'s \<Rightarrow> string \<Rightarrow> delivery_status option"
    and published_count :: "'s \<Rightarrow> int"
    and claims :: "instant \<Rightarrow> int \<Rightarrow> 's \<Rightarrow> outbox_record list"
  assumes claim_law: "inv s \<Longrightarrow> \<exists>s'. repo_claim repo now owner limit s = (Inr (claims now limit s), s') \<and>
      inv s' \<and> published_count s' = published_count s \<and>
      view s' = view s ++ map_of (map (\<lambda>r. (or_record_id r, Claimed (or_attempt_count r))) (claims now limit s))"
    and claims_ok: "inv s \<Longrightarrow> distinct (map or_record_id (claims now limit s)) \<and>
      (\<forall>r \<in> set (claims now limit s). 0 \<le> or_attempt_count r)"
    and published_law: "inv s \<Longrightarrow> view s i = Some (Claimed n) \<Longrightarrow>
      \<exists>s'. repo_published repo now i m s = (Inr (), s') \<and> inv s' \<and> view s' = (view s)(i \<mapsto> Published) \<and>
        published_count s' = published_count s + 1"
    and retry_law: "inv s \<Longrightarrow> view s i = Some (Claimed n) \<Longrightarrow> 0 \<le> a \<Longrightarrow>
      \<exists>s'. repo_retry repo now i a d e s = (Inr (), s') \<and> inv s' \<and>
        view s' = (view s)(i \<mapsto> Pending a (now + seconds d)) \<and> published_count s' = published_count s"
    and dead_letter_law: "inv s \<Longrightarrow> view s i = Some (Claimed n) \<Longrightarrow>
      \<exists>s'. repo_dead_letter repo now i e s = (Inr (), s') \<and> inv s' \<and>
        view s' = (view s)(i \<mapsto> DeadLettered) \<and> published_count s' = published_count s"
begin

text \<open>Every claimed record is settled by what the transport answered, and nothing else changes.\<close>

lemma deliver_loop_law:
  assumes "inv s" "distinct (map or_record_id rs)"
    and "\<forall>r \<in> set rs. view s (or_record_id r) = Some (Claimed (or_attempt_count r)) \<and> 0 \<le> or_attempt_count r"
    and "publish_all tr rs w = (outs, w')"
  shows "\<exists>s'. deliver_loop repo tr m clk rs i d (s, w) = (Inr (d + accepted_count outs), (s', w')) \<and> inv s' \<and>
    view s' = view s ++ map_of (settle_all tr m clk i rs outs) \<and>
    published_count s' = published_count s + accepted_count outs"
  using assms
proof (induction rs arbitrary: s w outs i d)
  case (Cons r rs)
  obtain out w1 where out: "publish tr (or_tenant_id r) (or_session_id r) (or_envelope r) w = (out, w1)"
    by (metis surj_pair)
  with Cons.prems(4) obtain outs' where outs: "outs = out # outs'" "publish_all tr rs w1 = (outs', w')"
    by (auto simp: Let_def split: prod.splits)
  note claimed = Cons.prems(3) [rule_format, of r, simplified]
  define next_op where "next_op = (case out of
      Inl exc \<Rightarrow> on_failure repo tr m (clk i) r exc s
    | Inr msg \<Rightarrow> repo_published repo (clk i) (or_record_id r) msg s)"
  have "\<exists>s1. next_op = (Inr (), s1) \<and> inv s1 \<and>
      view s1 = (view s)(or_record_id r \<mapsto> settled tr m (clk i) r out) \<and>
      published_count s1 = published_count s + (if raised out then 0 else 1)"
  proof (cases out)
    case (Inl exc)
    then show ?thesis
      using retry_law [OF Cons.prems(1) conjunct1 [OF claimed], of "or_attempt_count r + 1"]
        dead_letter_law [OF Cons.prems(1) conjunct1 [OF claimed]] claimed
      by (auto simp: next_op_def on_failure_def Let_def settled_def retry_delay_backoff)
  next
    case (Inr msg)
    then show ?thesis
      using published_law [OF Cons.prems(1) conjunct1 [OF claimed]] by (auto simp: next_op_def settled_def)
  qed
  then obtain s1 where s1: "next_op = (Inr (), s1)" "inv s1"
      "view s1 = (view s)(or_record_id r \<mapsto> settled tr m (clk i) r out)"
      "published_count s1 = published_count s + (if raised out then 0 else 1)"
    by blast
  have unfold: "deliver_loop repo tr m clk (r # rs) i d (s, w) =
      deliver_loop repo tr m clk rs (Suc i) (d + (if raised out then 0 else 1)) (s1, w1)"
    using s1(1) out by (auto simp: next_op_def split: sum.splits)
  have "or_record_id r \<notin> dom (map_of (settle_all tr m clk (Suc i) rs outs'))"
    using fst_settle_all [of outs' rs tr m clk "Suc i"] length_publish_all [of tr rs w1] outs(2) Cons.prems(2)
    by (metis distinct.simps(2) dom_map_of_conv_image_fst fst_conv list.set_map list.simps(9))
  then have views: "view s ++ map_of (settle_all tr m clk i (r # rs) (out # outs'))
      = view s1 ++ map_of (settle_all tr m clk (Suc i) rs outs')"
    using s1(3) by (simp add: map_add_upd_left)
  have "\<forall>r' \<in> set rs. view s1 (or_record_id r') = Some (Claimed (or_attempt_count r')) \<and>
      0 \<le> or_attempt_count r'"
    using Cons.prems(2,3) s1(3) by (auto simp: image_iff)
  from Cons.IH [OF s1(2) _ this outs(2), of "Suc i" "d + (if raised out then 0 else 1)"] Cons.prems(2)
  show ?case unfolding unfold outs(1) views s1(4) accepted_count_simps by (simp only: add.assoc list.simps distinct.simps simp_thms)
qed simp

theorem deliver_law:
  assumes "inv s" "owner \<noteq> []" "0 < limit"
    and "publish_all tr (claims (clk 0) limit s) w = (outs, w')"
  shows "\<exists>s'. deliver repo tr m clk owner limit (s, w) = (Inr (accepted_count outs), (s', w')) \<and> inv s' \<and>
    view s' = view s ++ map_of (settle_all tr m clk 1 (claims (clk 0) limit s) outs) \<and>
    published_count s' = published_count s + accepted_count outs"
proof -
  let ?recs = "claims (clk 0) limit s"
  let ?claimed = "map_of (map (\<lambda>r. (or_record_id r, Claimed (or_attempt_count r))) ?recs)"
  let ?settled = "map_of (settle_all tr m clk 1 ?recs outs)"
  obtain s1 where s1: "repo_claim repo (clk 0) owner limit s = (Inr ?recs, s1)" "inv s1"
      "view s1 = view s ++ ?claimed" "published_count s1 = published_count s"
    using claim_law [OF assms(1)] by blast
  have "length outs = length ?recs" using length_publish_all [of tr ?recs w] assms(4) by simp
  then have "dom ?settled = dom ?claimed"
    using fst_settle_all [of outs ?recs tr m clk 1]
    by (metis (no_types, lifting) dom_map_of_conv_image_fst fst_conv list.set_map map_eq_conv map_map comp_apply)
  then have "view s ++ ?claimed ++ ?settled = view s ++ ?settled"
    by (intro map_add_covered) simp
  moreover have "view s1 (or_record_id r) = Some (Claimed (or_attempt_count r)) \<and> 0 \<le> or_attempt_count r"
    if "r \<in> set ?recs" for r
    using claims_ok [OF assms(1), of "clk 0" limit] that s1(3)
    by (auto simp: map_add_Some_iff intro!: map_of_is_SomeI simp: comp_def)
  ultimately show ?thesis
    using deliver_loop_law [OF s1(2) _ _ assms(4), of m clk 1 0] claims_ok [OF assms(1), of "clk 0" limit]
      assms(2,3) s1
    by (simp add: deliver_def)
qed

end

section \<open>The PostgreSQL repository keeps the contract\<close>

definition status_of :: "outbox_row \<Rightarrow> delivery_status" where
  "status_of r = (if ob_state r = ''pending'' then Pending (ob_attempt_count r) (ob_available_at r)
     else if ob_state r = ''claimed'' then Claimed (ob_attempt_count r)
     else if ob_state r = ''published'' then Published else DeadLettered)"

definition row_view :: "string \<Rightarrow> outbox_row option \<Rightarrow> delivery_status option" where
  "row_view t r = (case r of None \<Rightarrow> None
     | Some r \<Rightarrow> if ob_tenant_id r = t then Some (status_of r) else None)"

definition outbox_at :: "coord_db \<Rightarrow> string \<Rightarrow> outbox_row option" where
  "outbox_at db i = find (\<lambda>r. ob_id r = i) (db_outbox db)"

definition outbox_view :: "string \<Rightarrow> coord_db \<Rightarrow> string \<Rightarrow> delivery_status option" where
  "outbox_view t db i = row_view t (outbox_at db i)"

definition published_rows :: "coord_db \<Rightarrow> int" where
  "published_rows db = int (length (filter (\<lambda>r. ob_state r = ''published'') (db_outbox db)))"

text \<open>
  The dead-letter table holds exactly the dead-lettered events, under the ids derived from their
  outbox rows.
\<close>

definition outbox_inv :: "(string \<Rightarrow> string) \<Rightarrow> coord_db \<Rightarrow> bool" where
  "outbox_inv dead_id db \<longleftrightarrow> distinct (map ob_id (db_outbox db)) \<and>
     list_all (\<lambda>r. 0 \<le> ob_attempt_count r \<and>
       ob_state r \<in> {''pending'', ''claimed'', ''published'', ''dead_letter''}) (db_outbox db) \<and>
     (\<lambda>d. (dl_id d, dl_tenant_id d, dl_event_id d, dl_session_id d, dl_payload d)) ` set (db_dead db) =
     (\<lambda>r. (dead_id (ob_id r), ob_tenant_id r, ob_event_id r, ob_session_id r, ob_payload r)) `
       {r \<in> set (db_outbox db). ob_state r = ''dead_letter''}"

lemma outbox_invD:
  "outbox_inv dead_id db \<Longrightarrow> distinct (map ob_id (db_outbox db))"
  "outbox_inv dead_id db \<Longrightarrow> r \<in> set (db_outbox db) \<Longrightarrow> 0 \<le> ob_attempt_count r"
  by (auto simp: outbox_inv_def list_all_iff)

lemma outbox_at_Some: "outbox_at db i = Some r \<Longrightarrow> r \<in> set (db_outbox db) \<and> ob_id r = i"
  unfolding outbox_at_def by (rule find_key_Some)

lemma view_Claimed:
  assumes "outbox_view t db i = Some (Claimed n)"
  obtains r where "outbox_at db i = Some r" "ob_tenant_id r = t" "ob_state r = ''claimed''" "r \<in> set (db_outbox db)"
    "ob_id r = i"
  using assms outbox_at_Some [of db i]
  by (auto simp: outbox_view_def row_view_def status_of_def split: option.splits if_splits)

lemma outbox_row_unique:
  "outbox_inv dead_id db \<Longrightarrow> r \<in> set (db_outbox db) \<Longrightarrow> r' \<in> set (db_outbox db) \<Longrightarrow> ob_id r' = ob_id r \<Longrightarrow> r' = r"
  using outbox_invD(1) by (auto simp: distinct_map inj_on_def)

text \<open>An outcome update of one claimed row.\<close>

definition set_row :: "bool \<Rightarrow> string \<Rightarrow> string \<Rightarrow> (outbox_row \<Rightarrow> outbox_row) \<Rightarrow> coord_db \<Rightarrow> coord_db" where
  "set_row enforced t i g db = db\<lparr>db_outbox := update_where
     (\<lambda>r. ob_id r = i \<and> (enforced \<longrightarrow> ob_tenant_id r = t)) g (db_outbox db)\<rparr>"

definition frame :: "(outbox_row \<Rightarrow> outbox_row) \<Rightarrow> bool" where
  "frame g \<longleftrightarrow> (\<forall>r. ob_id (g r) = ob_id r \<and> ob_tenant_id (g r) = ob_tenant_id r \<and>
     ob_event_id (g r) = ob_event_id r \<and> ob_session_id (g r) = ob_session_id r \<and> ob_payload (g r) = ob_payload r)"

lemma set_row_at:
  assumes "frame g"
  shows "outbox_at (set_row enforced t i g db) j =
    map_option (\<lambda>r. if j = i \<and> (enforced \<longrightarrow> ob_tenant_id r = t) then g r else r) (outbox_at db j)"
proof -
  have "outbox_at (set_row enforced t i g db) j =
      map_option (\<lambda>r. if ob_id r = i \<and> (enforced \<longrightarrow> ob_tenant_id r = t) then g r else r) (outbox_at db j)"
    unfolding outbox_at_def set_row_def using assms by (simp add: frame_def find_update_where)
  then show ?thesis using outbox_at_Some [of db j] by (cases "outbox_at db j") simp_all
qed

lemma set_row_view:
  assumes "frame g" "outbox_at db i = Some row" "ob_tenant_id row = t"
  shows "outbox_view t (set_row enforced t i g db) = (outbox_view t db)(i \<mapsto> status_of (g row))"
proof
  fix j
  have "ob_tenant_id (g row) = t" using assms by (simp add: frame_def)
  then show "outbox_view t (set_row enforced t i g db) j = ((outbox_view t db)(i \<mapsto> status_of (g row))) j"
    using assms(2,3) unfolding outbox_view_def set_row_at [OF assms(1)]
    by (cases "j = i") (simp_all add: row_view_def outbox_view_def option.map_ident)
qed

lemma set_row_set:
  assumes "outbox_inv dead_id db" "outbox_at db i = Some row" "ob_tenant_id row = t"
  shows "set (db_outbox (set_row enforced t i g db)) = insert (g row) (set (db_outbox db) - {row})"
proof -
  have row: "row \<in> set (db_outbox db)" "ob_id row = i" using outbox_at_Some [OF assms(2)] by auto
  then have "ob_id r = i \<and> (enforced \<longrightarrow> ob_tenant_id r = t) \<longleftrightarrow> r = row" if "r \<in> set (db_outbox db)" for r
    using outbox_row_unique [OF assms(1) row(1) that] assms(3) by auto
  then have "update_where (\<lambda>r. ob_id r = i \<and> (enforced \<longrightarrow> ob_tenant_id r = t)) g (db_outbox db)
      = update_where (\<lambda>r. r = row) g (db_outbox db)"
    unfolding update_where_def by (intro map_cong) auto
  then show ?thesis using row(1) by (simp add: set_row_def set_update_where) blast
qed

lemma set_row_count:
  assumes "outbox_inv dead_id db" "outbox_at db i = Some row" "ob_tenant_id row = t"
  shows "published_rows (set_row enforced t i g db) = published_rows db +
    of_bool (ob_state (g row) = ''published'') - of_bool (ob_state row = ''published'')"
  using count_update_key [OF outbox_invD(1) [OF assms(1)] assms(2) [unfolded outbox_at_def],
      of "\<lambda>r. enforced \<longrightarrow> ob_tenant_id r = t"] assms(3)
  by (simp add: published_rows_def set_row_def)

lemma set_row_distinct:
  "frame g \<Longrightarrow> distinct (map ob_id (db_outbox db)) \<Longrightarrow> distinct (map ob_id (db_outbox (set_row enforced t i g db)))"
  by (simp add: set_row_def map_update_where frame_def)

lemma set_row_inv:
  assumes inv: "outbox_inv dead_id db" and row: "outbox_at db i = Some row" "ob_tenant_id row = t"
    and "frame g" "ob_state row = ''claimed''" "0 \<le> ob_attempt_count (g row)"
    and "ob_state (g row) \<in> {''pending'', ''claimed'', ''published''}"
  shows "outbox_inv dead_id (set_row enforced t i g db)"
proof -
  have "{r \<in> set (db_outbox (set_row enforced t i g db)). ob_state r = ''dead_letter''}
      = {r \<in> set (db_outbox db). ob_state r = ''dead_letter''}"
    unfolding set_row_set [OF inv row] using assms(5,7) by auto
  moreover have "db_dead (set_row enforced t i g db) = db_dead db" by (simp add: set_row_def)
  ultimately show ?thesis
    using inv set_row_distinct [OF assms(4)] assms(6,7)
    by (auto simp: outbox_inv_def list_all_iff set_row_set [OF inv row])
qed

lemma query_row:
  assumes "distinct (map ob_id (db_outbox db))" "outbox_at db i = Some row" "ob_tenant_id row = t"
  shows "filter (\<lambda>r. ob_id r = i) (rls_rows enforced ob_tenant_id t (db_outbox db)) = [row]"
proof -
  have "one_or_none (filter (\<lambda>r. ob_id r = i) (db_outbox db)) = Inr (Some row)"
    using one_or_none_key [OF assms(1), of i] assms(2) by (simp add: outbox_at_def)
  then have one: "filter (\<lambda>r. ob_id r = i) (db_outbox db) = [row]" by (simp add: one_or_none_Some)
  have "filter (\<lambda>r. ob_id r = i) (filter (\<lambda>r. ob_tenant_id r = t) (db_outbox db))
      = filter (\<lambda>r. ob_tenant_id r = t) (filter (\<lambda>r. ob_id r = i) (db_outbox db))"
    by (auto intro: filter_cong)
  then show ?thesis using one assms(3) by (simp add: rls_rows_def)
qed

lemma pg_dead_letter_eq:
  assumes inv: "outbox_inv dead_id db" and row: "outbox_at db i = Some row" "ob_tenant_id row = t"
    and "inj dead_id" "ob_state row \<noteq> ''dead_letter''"
  shows "pg_dead_letter enforced dead_id t now i e db =
    (Inr (), (set_row enforced t i (\<lambda>r. r\<lparr>ob_state := ''dead_letter'', ob_last_error := e\<rparr>) db)\<lparr>db_dead := db_dead db @
      [\<lparr>dl_id = dead_id i, dl_tenant_id = t, dl_event_id = ob_event_id row, dl_session_id = ob_session_id row,
        dl_payload = ob_payload row, dl_replay_status = ''pending_operator_review''\<rparr>]\<rparr>)"
proof -
  note mem = outbox_at_Some [OF row(1)]
  note query_row [OF outbox_invD(1) [OF inv] row, of enforced]
  moreover have "dead_id i \<notin> dl_id ` set (db_dead db)"
  proof
    assume "dead_id i \<in> dl_id ` set (db_dead db)"
    then obtain d where "d \<in> set (db_dead db)" "dl_id d = dead_id i" by auto
    then obtain r where "r \<in> set (db_outbox db)" "ob_state r = ''dead_letter''" "dead_id (ob_id r) = dead_id i"
      using inv unfolding outbox_inv_def by (smt (verit) Pair_inject image_iff mem_Collect_eq)
    then show False
      using \<open>inj dead_id\<close> outbox_row_unique [OF inv, of row r] mem assms(5) by (auto dest: injD)
  qed
  ultimately show ?thesis by (simp add: pg_dead_letter_def set_row_def)
qed

lemma dead_letter_inv:
  assumes inv: "outbox_inv dead_id db" and row: "outbox_at db i = Some row" "ob_tenant_id row = t"
    and "inj dead_id" "ob_state row = ''claimed''"
  shows "outbox_inv dead_id (snd (pg_dead_letter enforced dead_id t now i e db))"
proof -
  let ?g = "\<lambda>r. r\<lparr>ob_state := ''dead_letter'', ob_last_error := e\<rparr>"
  let ?key = "\<lambda>r. (dead_id (ob_id r), ob_tenant_id r, ob_event_id r, ob_session_id r, ob_payload r)"
  have fr: "frame ?g" by (simp add: frame_def)
  have mem: "row \<in> set (db_outbox db)" "ob_id row = i" using outbox_at_Some [OF row(1)] by auto
  have "{r \<in> set (db_outbox (set_row enforced t i ?g db)). ob_state r = ''dead_letter''}
      = insert (?g row) {r \<in> set (db_outbox db). ob_state r = ''dead_letter''}"
    unfolding set_row_set [OF inv row] using assms(5) by auto
  then have "?key ` {r \<in> set (db_outbox (set_row enforced t i ?g db)). ob_state r = ''dead_letter''}
      = insert (?key row) (?key ` {r \<in> set (db_outbox db). ob_state r = ''dead_letter''})"
    by simp
  moreover have "0 \<le> ob_attempt_count row" using inv mem by (simp add: outbox_invD(2))
  ultimately show ?thesis
    using inv set_row_distinct [OF fr] mem row(2) unfolding pg_dead_letter_eq [OF inv row assms(4)] 
    using assms(5) pg_dead_letter_eq [OF inv row assms(4)]
    by (simp add: outbox_inv_def list_all_iff set_row_set [OF inv row])
qed

section \<open>Claims\<close>

lemma claimable_rows:
  assumes "r \<in> set (claimable enforced t ttl locked now limit rows)"
  shows "r \<in> set rows" "ob_tenant_id r = t" "due now ttl r" "ob_id r \<notin> set locked"
proof -
  have "r \<in> set (filter (\<lambda>r. ob_tenant_id r = t \<and> due now ttl r \<and> ob_id r \<notin> set locked)
      (rls_rows enforced ob_tenant_id t rows))"
    using in_set_takeD [OF assms [unfolded claimable_def]] by simp
  then show "r \<in> set rows" "ob_tenant_id r = t" "due now ttl r" "ob_id r \<notin> set locked"
    by (auto simp: rls_rows_def split: if_splits)
qed

lemma claimable_distinct:
  assumes "distinct (map ob_id rows)"
  shows "distinct (map ob_id (claimable enforced t ttl locked now limit rows))"
proof -
  have "set (claimable enforced t ttl locked now limit rows) \<subseteq> set rows" using claimable_rows(1) by blast
  moreover have "distinct (claimable enforced t ttl locked now limit rows)"
    using assms by (auto simp: claimable_def rls_rows_def distinct_map)
  ultimately show ?thesis using assms by (auto simp: distinct_map intro: inj_on_subset)
qed

abbreviation claim_update :: "instant \<Rightarrow> string \<Rightarrow> outbox_row \<Rightarrow> outbox_row" where
  "claim_update now owner r \<equiv> r\<lparr>ob_state := ''claimed'', ob_claim_owner := owner, ob_claimed_at := Some now\<rparr>"

lemma pg_claim_eq:
  fixes enforced t ttl locked now limit owner
  assumes inv: "outbox_inv dead_id db"
  defines "rows \<equiv> claimable enforced t ttl locked now limit (db_outbox db)"
  shows "pg_claim enforced t ttl locked now owner limit db =
    (Inr (map record_of_outbox rows),
     db\<lparr>db_outbox := update_where (\<lambda>r. r \<in> set rows) (claim_update now owner) (db_outbox db)\<rparr>)"
proof -
  have "ob_id r \<in> ob_id ` set rows \<and> (enforced \<longrightarrow> ob_tenant_id r = t) \<longleftrightarrow> r \<in> set rows"
    if "r \<in> set (db_outbox db)" for r
  proof -
    have rows: "r' \<in> set (db_outbox db)" "ob_tenant_id r' = t" if "r' \<in> set rows" for r'
      using claimable_rows(1,2) [OF that [unfolded rows_def]] .
    then have "r' = r" if "r' \<in> set rows" "ob_id r' = ob_id r" for r'
      using outbox_row_unique [OF inv \<open>r \<in> set (db_outbox db)\<close>] that by blast
    then have "ob_id r \<in> ob_id ` set rows \<longleftrightarrow> r \<in> set rows" by (metis image_iff)
    then show ?thesis using rows(2) by blast
  qed
  then have "update_where (\<lambda>r. ob_id r \<in> ob_id ` set rows \<and> (enforced \<longrightarrow> ob_tenant_id r = t))
      (claim_update now owner) (db_outbox db) = update_where (\<lambda>r. r \<in> set rows) (claim_update now owner) (db_outbox db)"
    unfolding update_where_def by (intro map_cong) auto
  moreover have "\<not> (\<exists>r \<in> set rows. ob_attempt_count r < 0)"
    using outbox_invD(2) [OF inv] claimable_rows(1) [of _ enforced t ttl locked now limit "db_outbox db"]
    unfolding rows_def by fastforce
  ultimately show ?thesis by (simp add: pg_claim_def Let_def update_where_none flip: rows_def)
qed

lemma pg_claim_law:
  fixes enforced t ttl locked now limit owner
  assumes inv: "outbox_inv dead_id db"
  defines "rows \<equiv> claimable enforced t ttl locked now limit (db_outbox db)"
  defines "db' \<equiv> db\<lparr>db_outbox := update_where (\<lambda>r. r \<in> set rows) (claim_update now owner) (db_outbox db)\<rparr>"
  shows "outbox_inv dead_id db'" and "published_rows db' = published_rows db"
    and "outbox_view t db' = outbox_view t db ++
      map_of (map (\<lambda>r. (or_record_id r, Claimed (or_attempt_count r))) (map record_of_outbox rows))"
proof -
  have rows: "r \<in> set (db_outbox db)" "ob_tenant_id r = t" "ob_state r \<noteq> ''published''" "ob_state r \<noteq> ''dead_letter''"
    if "r \<in> set rows" for r
    using claimable_rows [OF that [unfolded rows_def]] by (auto simp: due_def)
  have "{r \<in> set (db_outbox db'). ob_state r = ''dead_letter''} = {r \<in> set (db_outbox db). ob_state r = ''dead_letter''}"
    using rows by (auto simp: db'_def set_update_where)
  moreover have "db_dead db' = db_dead db" by (simp add: db'_def)
  moreover have "distinct (map ob_id (db_outbox db'))"
    using outbox_invD(1) [OF inv] by (simp add: db'_def map_update_where)
  moreover have "list_all (\<lambda>r. 0 \<le> ob_attempt_count r \<and>
      ob_state r \<in> {''pending'', ''claimed'', ''published'', ''dead_letter''}) (db_outbox db')"
    using inv by (auto simp: outbox_inv_def list_all_iff db'_def set_update_where)
  ultimately show "outbox_inv dead_id db'" using inv by (simp add: outbox_inv_def)
  show "published_rows db' = published_rows db"
    using rows unfolding published_rows_def db'_def by (simp add: filter_update_irrelevant)
  show "outbox_view t db' = outbox_view t db ++
      map_of (map (\<lambda>r. (or_record_id r, Claimed (or_attempt_count r))) (map record_of_outbox rows))"
  proof
    fix j
    let ?m = "map_of (map (\<lambda>r. (or_record_id r, Claimed (or_attempt_count r))) (map record_of_outbox rows))"
    have at: "outbox_at db' j = map_option (\<lambda>r. if r \<in> set rows then claim_update now owner r else r) (outbox_at db j)"
      unfolding outbox_at_def db'_def by (simp add: find_update_where)
    show "outbox_view t db' j = (outbox_view t db ++ ?m) j"
    proof (cases "\<exists>r \<in> set rows. ob_id r = j")
      case True
      then obtain r where r: "r \<in> set rows" "ob_id r = j" by blast
      have "outbox_at db j = Some r"
        using find_key_unique [OF outbox_invD(1) [OF inv] rows(1) [OF r(1)]] r(2) by (simp add: outbox_at_def)
      moreover have "?m j = Some (Claimed (ob_attempt_count r))"
        using r claimable_distinct [OF outbox_invD(1) [OF inv], of enforced t ttl locked now limit]
        by (intro map_of_is_SomeI) (auto simp: record_of_outbox_def comp_def rows_def)
      ultimately show ?thesis using r rows(2)
        by (simp add: outbox_view_def at row_view_def status_of_def)
    next
      case False
      then have "?m j = None" by (auto simp: map_of_eq_None_iff record_of_outbox_def)
      moreover have "outbox_at db' j = outbox_at db j"
        using False outbox_at_Some [of db j] by (cases "outbox_at db j") (auto simp: at)
      ultimately show ?thesis by (simp add: outbox_view_def map_add_def)
    qed
  qed
qed

interpretation pg_outbox: outbox_repository "pg_outbox_repo enforced dead_id t ttl locked"
  "\<lambda>db. outbox_inv dead_id db \<and> inj dead_id" "outbox_view t" published_rows
  "\<lambda>now limit db. map record_of_outbox (claimable enforced t ttl locked now limit (db_outbox db))"
  for enforced dead_id t ttl locked
proof (unfold_locales, goal_cases)
  case (1 db now owner limit)
  then show ?case
    using pg_claim_eq [of dead_id db] pg_claim_law [of dead_id db] by (simp add: pg_outbox_repo_def)
next
  case (2 db now limit)
  then show ?case
    using claimable_distinct [OF outbox_invD(1), of dead_id db] claimable_rows(1) outbox_invD(2) [of dead_id db]
    by (auto simp: record_of_outbox_def comp_def)
next
  case (3 db i n now m)
  then obtain row where row: "outbox_at db i = Some row" "ob_tenant_id row = t" "ob_state row = ''claimed''"
    "0 \<le> ob_attempt_count row"
    by (metis view_Claimed outbox_invD(2))
  let ?g = "\<lambda>r. r\<lparr>ob_state := ''published'', ob_published_at := Some now, ob_claim_owner := ''''\<rparr>"
  have g: "frame ?g" by (simp add: frame_def)
  have "repo_published (pg_outbox_repo enforced dead_id t ttl locked) now i m db = (Inr (), set_row enforced t i ?g db)"
    by (simp add: pg_outbox_repo_def pg_mark_published_def pg_update_def set_row_def)
  then show ?case
    using 3 row set_row_inv [of dead_id db i row t ?g] set_row_view [OF g row(1,2)]
      set_row_count [of dead_id db i row t enforced ?g] g by (simp add: status_of_def)
next
  case (4 db i n a now d e)
  then obtain row where row: "outbox_at db i = Some row" "ob_tenant_id row = t" "ob_state row = ''claimed''"
    by (metis view_Claimed)
  let ?g = "\<lambda>r. r\<lparr>ob_state := ''pending'', ob_attempt_count := a, ob_available_at := now + seconds d,
    ob_claim_owner := '''', ob_claimed_at := None, ob_last_error := e\<rparr>"
  have g: "frame ?g" by (simp add: frame_def)
  have "repo_retry (pg_outbox_repo enforced dead_id t ttl locked) now i a d e db = (Inr (), set_row enforced t i ?g db)"
    by (simp add: pg_outbox_repo_def pg_mark_retry_def pg_update_def set_row_def)
  then show ?case
    using 4 row set_row_inv [of dead_id db i row t ?g] set_row_view [OF g row(1,2)]
      set_row_count [of dead_id db i row t enforced ?g] g by (simp add: status_of_def)
next
  case (5 db i n now e)
  then obtain row where row: "outbox_at db i = Some row" "ob_tenant_id row = t" "ob_state row = ''claimed''"
    by (metis view_Claimed)
  let ?g = "\<lambda>r. r\<lparr>ob_state := ''dead_letter'', ob_last_error := e\<rparr>"
  have g: "frame ?g" by (simp add: frame_def)
  have frames: "outbox_view t (x\<lparr>db_dead := d\<rparr>) = outbox_view t x" "published_rows (x\<lparr>db_dead := d\<rparr>) = published_rows x"
    for x d by (simp_all add: outbox_view_def outbox_at_def published_rows_def fun_eq_iff)
  show ?case
    using 5 row dead_letter_inv [of dead_id db i row t enforced now e] set_row_view [OF g row(1,2)]
      set_row_count [of dead_id db i row t enforced ?g] pg_dead_letter_eq [of dead_id db i row t enforced now e]
    by (simp add: status_of_def pg_outbox_repo_def frames)
qed

section \<open>What delivery leaves alone\<close>

definition repo_keeps :: "('s \<Rightarrow> bool) \<Rightarrow> 's outbox_repo \<Rightarrow> bool" where
  "repo_keeps P repo \<longleftrightarrow>
     (\<forall>now owner limit s. P s \<longrightarrow> P (snd (repo_claim repo now owner limit s))) \<and>
     (\<forall>now i m s. P s \<longrightarrow> P (snd (repo_published repo now i m s))) \<and>
     (\<forall>now i a d e s. P s \<longrightarrow> P (snd (repo_retry repo now i a d e s))) \<and>
     (\<forall>now i e s. P s \<longrightarrow> P (snd (repo_dead_letter repo now i e s)))"

lemma on_failure_keeps: "repo_keeps P repo \<Longrightarrow> P s \<Longrightarrow> P (snd (on_failure repo tr m now r e s))"
  by (auto simp: on_failure_def repo_keeps_def Let_def split: sum.splits)

lemma deliver_loop_keeps:
  assumes "repo_keeps P repo" "P s"
  shows "P (fst (snd (deliver_loop repo tr m clk rs i d (s, w))))"
  using assms(2)
proof (induction rs arbitrary: s w i d)
  case (Cons r rs)
  have "P (snd (on_failure repo tr m (clk i) r e s))" for e by (rule on_failure_keeps [OF assms(1) Cons.prems])
  moreover have "P (snd (repo_published repo (clk i) (or_record_id r) msg s))" for msg
    using assms(1) Cons.prems by (simp add: repo_keeps_def)
  ultimately show ?case
    using Cons.IH by (auto split: prod.splits sum.splits) (metis snd_conv)+
qed simp

lemma deliver_keeps:
  assumes "repo_keeps P repo" "P (fst sw)"
  shows "P (fst (snd (deliver repo tr m clk owner limit sw)))"
proof -
  have "P (snd (repo_claim repo (clk 0) owner limit (fst sw)))"
    using assms by (simp add: repo_keeps_def)
  then show ?thesis
    using assms deliver_loop_keeps [OF assms(1)]
    by (auto simp: deliver_def split: prod.splits sum.splits)
qed

lemma dispatch_tenants_keeps:
  assumes "\<And>t. repo_keeps P (repo t)" "P (fst sw)"
  shows "P (fst (snd (dispatch_tenants repo tr m clk owner batch ts d f sw)))"
  using assms(2)
proof (induction ts arbitrary: d f sw)
  case (Cons t ts)
  have "P (fst (snd (deliver (repo t) tr m (clk t) owner batch sw)))"
    by (rule deliver_keeps [OF assms(1) Cons.prems])
  then show ?case
    using Cons by (auto simp: new_delivery_def split: prod.splits sum.splits)
qed simp

lemma dispatch_once_keeps:
  assumes "\<And>t locked. repo_keeps P (pg_outbox_repo enforced dead_id t ttl locked)" "P (fst sw)"
  shows "P (fst (snd (dispatch_once enforced dead_id ttl locked pub m now clk owner batch n sw)))"
proof (cases pub)
  case (Some tr)
  let ?run = "dispatch_tenants (\<lambda>t. pg_outbox_repo enforced dead_id t ttl (locked t)) tr m clk owner batch
    (tenants_with_due_outbox now ttl n (fst sw)) 0 0 sw"
  have "P (fst (snd ?run))" by (rule dispatch_tenants_keeps) (use assms in auto)
  then show ?thesis
    using Some by (auto simp: dispatch_once_def Let_def split: prod.splits sum.splits)
qed (use assms(2) in \<open>simp add: dispatch_once_def\<close>)

text \<open>Delivery touches neither the sessions nor the events, nor which outbox row carries which event.\<close>

definition same_log :: "coord_db \<Rightarrow> coord_db \<Rightarrow> bool" where
  "same_log db db' \<longleftrightarrow> db_sessions db' = db_sessions db \<and> db_events db' = db_events db \<and>
     map ob_id (db_outbox db') = map ob_id (db_outbox db) \<and>
     map ob_event_id (db_outbox db') = map ob_event_id (db_outbox db)"

lemma pg_repo_keeps_log: "repo_keeps (same_log db) (pg_outbox_repo enforced dead_id t ttl locked)"
  by (auto simp: repo_keeps_def same_log_def pg_outbox_repo_def pg_claim_def pg_mark_published_def pg_update_def
      pg_mark_retry_def pg_dead_letter_def Let_def map_update_where split: sum.splits)

section \<open>Properties\<close>

text \<open>
  C10: one delivery pass accounts for every record.  The due rows of the tenant are claimed in order
  and offered to the transport once each; each accepted one is published, each refused one goes back
  to pending with its attempt count raised and its backoff added, or to the dead-letter table when
  its attempts are used up; no other row of the tenant changes; and the number returned is the
  number of accepted publishes, which is also the number of rows newly in state \<open>published\<close>.
\<close>

theorem outbox_deliver_accounts:
  assumes "outbox_inv dead_id db" "inj dead_id" "owner \<noteq> []" "0 < limit"
    and "recs = map record_of_outbox (claimable enforced t ttl locked (clk 0) limit (db_outbox db))"
    and "publish_all tr recs w = (outs, w')"
  shows "\<exists>db'. deliver (pg_outbox_repo enforced dead_id t ttl locked) tr m clk owner limit (db, w)
      = (Inr (accepted_count outs), (db', w')) \<and>
    outbox_view t db' = outbox_view t db ++ map_of (settle_all tr m clk 1 recs outs) \<and>
    published_rows db' = published_rows db + accepted_count outs \<and> outbox_inv dead_id db'"
  using pg_outbox.deliver_law [of dead_id db owner limit tr enforced t ttl locked clk w outs w' m] assms by auto

text \<open>A transport that refuses every second envelope, for concrete runs; \<open>uuid5\<close> is the name itself.\<close>

definition demo_transport :: "nat transport" where
  "demo_transport = \<lparr>publish = (\<lambda>t s e w. (if even w then Inr ''1-0'' else Inl (RuntimeError ''down''), Suc w)),
     digest8 = (\<lambda>e a. 5), describe = (\<lambda>e. ''error'')\<rparr>"

definition demo_db :: coord_db where
  "demo_db = run_ops (pg_step True demo_uuid5) empty_db demo_run"

definition demo_dead :: "string \<Rightarrow> string" where
  "demo_dead i = ''dead:'' @ i"

lemma inj_demo_dead: "inj demo_dead"
  by (simp add: inj_def demo_dead_def)

lemma demo_db_inv: "outbox_inv demo_dead demo_db"
  by code_simp

theorem outbox_deliver_accounts_witness:
  "fst (deliver (pg_outbox_repo True demo_dead ''t'' 60 []) demo_transport 1 (\<lambda>i. 20) ''w'' 10 (demo_db, 0)) = Inr 1"
proof -
  have "publish_all demo_transport
      (map record_of_outbox (claimable True ''t'' 60 [] ((\<lambda>i. 20) 0) 10 (db_outbox demo_db))) 0
      = ([Inr ''1-0'', Inl (RuntimeError ''down'')], 2)"
    by code_simp
  from outbox_deliver_accounts [where owner = "''w''" and limit = 10 and m = 1 and clk = "\<lambda>i. 20",
      OF demo_db_inv inj_demo_dead _ _ refl this]
  show ?thesis by auto
qed



text \<open>
  The backoff lies between one and two times the exponential delay, is capped, and never
  decreases from one attempt to the next, for every digest.
\<close>

theorem retry_delay_bounds:
  assumes "\<And>e a. 0 \<le> dig e a \<and> dig e a \<le> 2 ^ 64 - 1"
    and "0 < attempt" "0 < base" "0 < max_s"
  shows "\<exists>d d'. retry_delay_seconds dig event attempt base max_s = Inr d \<and>
    retry_delay_seconds dig event (attempt + 1) base max_s = Inr d' \<and>
    min max_s (base * 2 ^ nat (attempt - 1)) \<le> d \<and> d \<le> min max_s (base * 2 ^ nat attempt) \<and> d \<le> d'"
proof -
  define fr where "fr a = (of_int (dig event a) / of_int (2 ^ 64 - 1) :: rat)" for a
  have fr: "0 \<le> fr a" "fr a \<le> 1" for a
  proof -
    have "(0 :: rat) \<le> of_int (dig event a)" "(of_int (dig event a) :: rat) \<le> of_int (2 ^ 64 - 1)"
      using assms(1) [of event a] by (simp_all only: of_int_0_le_iff of_int_le_iff)
    then show "0 \<le> fr a" "fr a \<le> 1" by (simp_all add: fr_def)
  qed
  let ?e = "base * 2 ^ nat (attempt - 1)"
  have e: "base * 2 ^ nat attempt = 2 * ?e" "0 < ?e"
    using assms(2,3) Suc_nat_eq_nat_zadd1 [of "attempt - 1"]
    by (metis add.commute diff_add_cancel zle_diff1_eq power_Suc mult.left_commute, simp)
  have "?e \<le> ?e * (1 + fr attempt)" "?e * (1 + fr attempt) \<le> 2 * ?e" "2 * ?e \<le> 2 * ?e * (1 + fr (attempt + 1))"
    using e(2) fr mult_left_mono [of "1 + fr attempt" 2 ?e] mult_left_mono [of 1 "1 + fr attempt" ?e]
      mult_left_mono [of 1 "1 + fr (attempt + 1)" "2 * ?e"] by (simp_all add: mult.commute)
  note mono = this [THEN min.mono [OF order_refl [of max_s]]]
  have "retry_delay_seconds dig event attempt base max_s = Inr (min max_s (?e * (1 + fr attempt)))"
    "retry_delay_seconds dig event (attempt + 1) base max_s = Inr (min max_s (2 * ?e * (1 + fr (attempt + 1))))"
    using assms(2-4) e(1) by (simp_all add: retry_delay_seconds_def Let_def fr_def mult.left_commute)
  then show ?thesis using mono order_trans [OF mono(2,3)] unfolding e(1) by blast
qed

theorem retry_delay_bounds_witness:
  "\<exists>d d'. retry_delay_seconds (\<lambda>e a. 2 ^ 63) ''e'' 4 1 300 = Inr d \<and>
    retry_delay_seconds (\<lambda>e a. 2 ^ 63) ''e'' 5 1 300 = Inr d' \<and> 8 \<le> d \<and> d \<le> 16 \<and> d \<le> d'"
  using retry_delay_bounds [of "\<lambda>e a. 2 ^ 63" 4 1 300 "''e''"] by (auto simp: min_def)

text \<open>
  A dispatcher tick never stalls on a tenant.  With a transport (whatever it answers) it reports
  every tenant delivered, none failed, and a count that is exactly the number of rows that became
  published; without a transport it changes nothing.
\<close>

theorem dispatch_reports_published:
  assumes "outbox_inv dead_id db" "inj dead_id" "owner \<noteq> []" "0 < batch" "0 < m"
  shows "\<exists>rep db' w'. dispatch_once enforced dead_id ttl locked (Some tr) m now clk owner batch n (db, w)
      = (Inr rep, (db', w')) \<and> dr_status rep = ''ok'' \<and> dr_failed_tenants rep = 0 \<and>
    published_rows db' = published_rows db + dr_delivered rep \<and> outbox_inv dead_id db' \<and>
    dispatch_once enforced dead_id ttl locked (None :: 'w transport option) m now clk owner batch n (db, w)
      = (Inr \<lparr>dr_status = ''skipped'', dr_reason = ''no_stream_transport'', dr_tenants = 0,
           dr_delivered = 0, dr_failed_tenants = 0\<rparr>, (db, w))"
proof -
  let ?repo = "\<lambda>t. pg_outbox_repo enforced dead_id t ttl (locked t)"
  have run: "\<exists>k db' w'. dispatch_tenants ?repo tr m clk owner batch ts d 0 (db, w) = (Inr (d + k, 0), (db', w')) \<and>
      published_rows db' = published_rows db + k \<and> outbox_inv dead_id db'"
    if "outbox_inv dead_id db" for ts d db w
    using that
  proof (induction ts arbitrary: d db w)
    case (Cons t ts)
    obtain outs w1 where "publish_all tr (map record_of_outbox
        (claimable enforced t ttl (locked t) (clk t 0) batch (db_outbox db))) w = (outs, w1)"
      by (metis surj_pair)
    from pg_outbox.deliver_law [where clk = "clk t" and m = m and dead_id = dead_id and s = db
          and owner = owner and limit = batch, OF _ assms(3,4) this] Cons.prems assms(2)
    obtain db1 where db1: "deliver (?repo t) tr m (clk t) owner batch (db, w) = (Inr (accepted_count outs), (db1, w1))"
        "outbox_inv dead_id db1" "published_rows db1 = published_rows db + accepted_count outs"
      by blast
    from Cons.IH [OF db1(2), of "d + accepted_count outs" w1] obtain k db' w' where
        "dispatch_tenants ?repo tr m clk owner batch ts (d + accepted_count outs) 0 (db1, w1)
          = (Inr (d + accepted_count outs + k, 0), (db', w'))"
        "published_rows db' = published_rows db1 + k" "outbox_inv dead_id db'"
      by blast
    with db1 assms(5) show ?case
      by (intro exI [of _ "accepted_count outs + k"]) (simp add: new_delivery_def add.assoc)
  qed simp
  from run [OF assms(1), of "tenants_with_due_outbox now ttl n db" 0 w] show ?thesis
    by (auto simp: dispatch_once_def)
qed

theorem dispatch_reports_published_witness:
  "\<exists>rep db' w'. dispatch_once True demo_dead 60 (\<lambda>t. []) (Some demo_transport) 8 20 (\<lambda>t i. 21 + int i) ''w'' 100 200
      (demo_db, 0) = (Inr rep, (db', w')) \<and> published_rows db' = published_rows demo_db + dr_delivered rep"
  using dispatch_reports_published [OF demo_db_inv inj_demo_dead, of "''w''" 100 8 True 60 "\<lambda>t. []" demo_transport 20
      "\<lambda>t i. 21 + int i" 200 0] by auto

section \<open>Outcome updates are not fenced\<close>

text \<open>
  \<open>mark_retry\<close> updates by primary key alone.  A worker whose claim went stale, and whose record
  another worker meanwhile dead-lettered, puts the record back to pending; every later attempt to
  dead-letter it then violates the primary key of the dead-letter table.
\<close>

theorem late_retry_blocks_dead_letter:
  fixes enforced now a d e
  assumes inv: "outbox_inv dead_id db" and dead: "outbox_view t db i = Some DeadLettered"
  defines "db1 \<equiv> snd (pg_mark_retry enforced t now i a d e db)"
  shows "\<exists>n q. outbox_view t db1 i = Some (Pending n q)"
    and "pg_dead_letter enforced dead_id t now' i e' db1
      = (Inl (IntegrityError ''coordination_dead_letters''), db1)"
proof -
  let ?g = "\<lambda>r. r\<lparr>ob_state := ''pending'', ob_attempt_count := a, ob_available_at := now + seconds d,
    ob_claim_owner := '''', ob_claimed_at := None, ob_last_error := e\<rparr>"
  have fr: "frame ?g" by (simp add: frame_def)
  have db1: "db1 = set_row enforced t i ?g db"
    by (simp add: db1_def pg_mark_retry_def pg_update_def set_row_def)
  obtain row where row: "outbox_at db i = Some row" "ob_tenant_id row = t" "row \<in> set (db_outbox db)" "ob_id row = i"
    using dead outbox_at_Some [of db i]
    by (auto simp: outbox_view_def row_view_def status_of_def split: option.splits if_splits)
  moreover have "ob_state row = ''dead_letter''"
    using dead row inv by (auto simp: outbox_view_def row_view_def status_of_def outbox_inv_def list_all_iff split: if_splits)
  ultimately have "(dead_id i, t, ob_event_id row, ob_session_id row, ob_payload row) \<in>
      (\<lambda>d. (dl_id d, dl_tenant_id d, dl_event_id d, dl_session_id d, dl_payload d)) ` set (db_dead db)"
    using inv unfolding outbox_inv_def by (auto intro!: image_eqI [of _ _ row])
  then have "dead_id i \<in> dl_id ` set (db_dead db)" by auto
  moreover have "filter (\<lambda>r. ob_id r = i) (rls_rows enforced ob_tenant_id t (db_outbox db1)) = [?g row]"
    by (rule query_row) (use row outbox_invD(1) [OF inv] set_row_distinct [OF fr] in \<open>simp_all add: db1 set_row_at [OF fr]\<close>)
  moreover have "db_dead db1 = db_dead db" by (simp add: db1 set_row_def)
  ultimately show "pg_dead_letter enforced dead_id t now' i e' db1
      = (Inl (IntegrityError ''coordination_dead_letters''), db1)"
    by (simp add: pg_dead_letter_def)
  show "\<exists>n q. outbox_view t db1 i = Some (Pending n q)"
    using set_row_view [OF fr row(1,2)] by (simp add: db1 status_of_def)
qed

end
