(* ===== verification/Replay.thy ===== *)
theory Replay
  imports Session_Log "HOL-Library.Sublist"
begin

text \<open>
  Sequence-cursor replay (\<open>app/coordination/replay.py\<close>) over the event log, and the PostgreSQL
  reader behind it (\<open>PostgresReplayRepository\<close> in \<open>store.py\<close>).  The log may grow between the pages of
  one replay, so the repository is indexed by the number of the page request.  The loop of \<open>all\<close> is
  a partial function: that it returns is a theorem.
\<close>

record replay_event =
  re_tenant_id :: string
  re_session_id :: string
  re_sequence :: int
  re_event_id :: string
  re_schema_version :: int
  re_event_type :: string
  re_occurred_at :: instant
  re_correlation_id :: string
  re_causation_id :: string
  re_classification :: string
  re_payload :: "event_payload option"

type_synonym upcasters = "int \<rightharpoonup> (event_payload \<Rightarrow> event_payload)"

section \<open>Pages\<close>

definition current_schema_version :: int where
  "current_schema_version = 1"

text \<open>The \<open>while version < current\<close> loop of \<open>_upcast\<close>.\<close>

function upcast_payload :: "upcasters \<Rightarrow> int \<Rightarrow> event_payload \<Rightarrow> event_payload result" where
  "upcast_payload ups version payload =
     (if version < current_schema_version
      then case ups version of
             None \<Rightarrow> Inl (UnsupportedSchemaVersionError version)
           | Some f \<Rightarrow> upcast_payload ups (version + 1) (f payload)
      else Inr payload)"
  by auto
termination by (relation "measure (\<lambda>(_, version, _). nat (current_schema_version - version))") auto

declare upcast_payload.simps [simp del]

definition upcast :: "upcasters \<Rightarrow> replay_event \<Rightarrow> replay_event result" where
  "upcast ups e =
     (if re_schema_version e = current_schema_version then Inr e
      else if re_schema_version e > current_schema_version
      then Inl (UnsupportedSchemaVersionError (re_schema_version e))
      else case upcast_payload ups (re_schema_version e)
                  (case re_payload e of None \<Rightarrow> JsonPayload (JObj []) | Some p \<Rightarrow> p) of
             Inl err \<Rightarrow> Inl err
           | Inr p \<Rightarrow> Inr (e\<lparr>re_schema_version := current_schema_version, re_payload := Some p\<rparr>))"

fun dedupe_upcast :: "upcasters \<Rightarrow> string set \<Rightarrow> replay_event list \<Rightarrow> replay_event list result" where
  "dedupe_upcast ups seen [] = Inr []"
| "dedupe_upcast ups seen (e # es) =
     (if re_event_id e \<in> seen then dedupe_upcast ups seen es
      else case upcast ups e of
             Inl err \<Rightarrow> Inl err
           | Inr e' \<Rightarrow> (case dedupe_upcast ups (insert (re_event_id e) seen) es of
               Inl err \<Rightarrow> Inl err | Inr es' \<Rightarrow> Inr (e' # es')))"

text \<open>\<open>SequenceReplay.page\<close>; \<open>ReplayEvent.model_validate\<close> refuses a sequence that is not positive.\<close>

definition sequence_page ::
  "int \<Rightarrow> upcasters \<Rightarrow> (int \<Rightarrow> int \<Rightarrow> replay_event list result) \<Rightarrow> int \<Rightarrow> int \<Rightarrow> replay_event list result" where
  "sequence_page max_page_size ups repo after limit =
     (if after < 0 then Inl (InvalidCursorError ''after_sequence cannot be negative'')
      else if limit \<le> 0 \<or> limit > max_page_size
      then Inl (InvalidCursorError ''page size exceeds the configured bound'')
      else case repo after limit of
             Inl e \<Rightarrow> Inl e
           | Inr rows \<Rightarrow>
               if \<exists>r \<in> set rows. re_sequence r \<le> 0 then Inl (ValueError ''sequence'')
               else dedupe_upcast ups {} (sort_key re_sequence rows))"

section \<open>The whole log\<close>

definition absorb :: "replay_event \<Rightarrow> int \<times> string set \<times> replay_event list \<Rightarrow> int \<times> string set \<times> replay_event list" where
  "absorb e = (\<lambda>(cursor, seen, events).
     (max cursor (re_sequence e),
      if re_event_id e \<in> seen then (seen, events) else (insert (re_event_id e) seen, events @ [e])))"

partial_function (option) replay_loop ::
  "(nat \<Rightarrow> int \<Rightarrow> replay_event list result) \<Rightarrow> nat \<Rightarrow> int \<times> string set \<times> replay_event list \<Rightarrow>
   replay_event list result option" where
  "replay_loop page i acc =
     (case page i (fst acc) of
        Inl e \<Rightarrow> Some (Inl e)
      | Inr p \<Rightarrow> if p = [] then Some (Inr (snd (snd acc)))
                 else replay_loop page (Suc i) (fold absorb p acc))"

definition replay_all ::
  "int \<Rightarrow> upcasters \<Rightarrow> (nat \<Rightarrow> int \<Rightarrow> int \<Rightarrow> replay_event list result) \<Rightarrow> int option \<Rightarrow> int \<Rightarrow>
   replay_event list result option" where
  "replay_all max_page_size ups repo page_size after =
     (let size = (case page_size of None \<Rightarrow> max_page_size | Some n \<Rightarrow> if n = 0 then max_page_size else n)
      in replay_loop (\<lambda>i cursor. sequence_page max_page_size ups (repo i) cursor size) 0 (after, {}, []))"

section \<open>The PostgreSQL reader\<close>

definition replay_row :: "event_row \<Rightarrow> replay_event" where
  "replay_row e = \<lparr>re_tenant_id = ev_tenant_id e, re_session_id = ev_session_id e,
     re_sequence = ev_sequence e, re_event_id = ev_id e, re_schema_version = ev_schema_version e,
     re_event_type = ev_event_type e, re_occurred_at = ev_occurred_at e,
     re_correlation_id = ev_correlation_id e, re_causation_id = ev_causation_id e,
     re_classification = ev_classification e, re_payload = Some (ev_payload e)\<rparr>"

definition pg_page :: "bool \<Rightarrow> coord_db \<Rightarrow> string \<Rightarrow> string \<Rightarrow> int \<Rightarrow> int \<Rightarrow> replay_event list result" where
  "pg_page enforced db tenant session after limit =
     Inr (map replay_row (take (nat limit) (sort_key ev_sequence
       (filter (\<lambda>e. ev_session_id e = session \<and> ev_sequence e > after)
         (rls_rows enforced ev_tenant_id tenant (db_events db))))))"

section \<open>The contract of a replay repository\<close>

text \<open>
  \<open>log i\<close> is the log at the time of the \<open>i\<close>-th page: gap-free, in the current schema, and only ever
  extended.  A page is the slice of it after the cursor.
\<close>

locale replay_repository =
  fixes page :: "nat \<Rightarrow> int \<Rightarrow> int \<Rightarrow> replay_event list result"
    and log :: "nat \<Rightarrow> replay_event list"
  assumes page_law: "0 \<le> c \<Longrightarrow> 0 < k \<Longrightarrow> page i c k = Inr (take (nat k) (drop (nat c) (log i)))"
    and gap_free: "map re_sequence (log i) = map int [1..<Suc (length (log i))]"
    and ids: "distinct (map re_event_id (log i))"
    and schema: "e \<in> set (log i) \<Longrightarrow> re_schema_version e = 1"
    and extended: "prefix (log i) (log (Suc i))"
begin

lemma log_mono: "i \<le> j \<Longrightarrow> prefix (log i) (log j)"
  by (induction j) (auto simp: le_Suc_eq intro: prefix_order.trans extended)

lemma dedupe_id:
  "distinct (map re_event_id es) \<Longrightarrow> \<forall>e \<in> set es. re_event_id e \<notin> seen \<and> re_schema_version e = 1 \<Longrightarrow>
   dedupe_upcast ups seen es = Inr es"
proof (induction es arbitrary: seen)
  case (Cons e es)
  have "\<forall>e' \<in> set es. re_event_id e' \<notin> insert (re_event_id e) seen \<and> re_schema_version e' = 1"
    using Cons.prems by (auto simp: image_iff)
  then show ?case using Cons by (simp add: upcast_def current_schema_version_def)
qed simp

lemma slice_sequences:
  "map re_sequence (take n (drop m (log i))) = map int (take n (drop m [1..<Suc (length (log i))]))"
  by (metis drop_map gap_free take_map)

lemma sequence_page_law:
  assumes "0 \<le> c" "0 < sz" "sz \<le> max_size"
  shows "sequence_page max_size ups (page i) c sz = Inr (take (nat sz) (drop (nat c) (log i)))"
proof -
  let ?p = "take (nat sz) (drop (nat c) (log i))"
  have sub: "set ?p \<subseteq> set (log i)" by (meson order_trans set_drop_subset set_take_subset)
  have "sorted (map re_sequence ?p)"
    unfolding take_map [symmetric] drop_map [symmetric] gap_free
    by (intro sorted_wrt_take sorted_wrt_drop) (simp add: sorted_map del: upt_Suc)
  then have "sort_key re_sequence ?p = ?p" by (simp add: sorted_sort_id sort_key_id_if_sorted)
  moreover have "0 < re_sequence r" if "r \<in> set ?p" for r
  proof -
    have "re_sequence r \<in> set (map re_sequence (log i))" using that sub by auto
    then show ?thesis unfolding gap_free by auto
  qed
  moreover have "distinct (map re_event_id ?p)"
    using ids [of i] by (simp add: drop_map [symmetric] take_map [symmetric])
  ultimately show ?thesis
    using assms page_law [OF assms(1,2)] dedupe_id [of ?p "{}" ups] schema sub
    by (fastforce simp: sequence_page_def not_le)
qed

lemma fold_absorb:
  assumes "map re_sequence p = map int [Suc c..<Suc c + length p]" "distinct (map re_event_id p)"
    and "re_event_id ` set p \<inter> seen = {}"
  shows "fold absorb p (int c, seen, events) = (int (c + length p), seen \<union> re_event_id ` set p, events @ p)"
  using assms
proof (induction p arbitrary: c seen events)
  case (Cons e p)
  have e: "re_sequence e = int (Suc c)" and p: "map re_sequence p = map int [Suc (Suc c)..<Suc (Suc c) + length p]"
    using Cons.prems(1) upt_conv_Cons [of "Suc c" "Suc c + length (e # p)"] by (simp_all del: upt_Suc)
  have "absorb e (int c, seen, events) = (int (Suc c), insert (re_event_id e) seen, events @ [e])"
    using Cons.prems(3) e by (simp add: absorb_def)
  moreover have "re_event_id ` set p \<inter> insert (re_event_id e) seen = {}" using Cons.prems(2,3) by auto
  ultimately show ?case using Cons.IH [OF p] Cons.prems(2) by simp
qed simp

lemma replay_loop_law:
  assumes bounded: "\<And>j. length (log j) \<le> N" and sz: "0 < sz" "sz \<le> max_size" and "a \<le> c"
  shows "\<exists>k \<ge> i. replay_loop (\<lambda>i cursor. sequence_page max_size ups (page i) cursor sz) i
      (int c, re_event_id ` set (drop a (take c (log i))), drop a (take c (log i))) = Some (Inr (drop a (log k)))"
  using \<open>a \<le> c\<close>
proof (induction "N - c" arbitrary: c i rule: less_induct)
  case less
  let ?p = "take (nat sz) (drop c (log i))"
  let ?es = "drop a (take c (log i))"
  note unfold = replay_loop.simps [of "\<lambda>i cursor. sequence_page max_size ups (page i) cursor sz" i]
  have page: "sequence_page max_size ups (page i) (int c) sz = Inr ?p"
    using sequence_page_law [of "int c" sz max_size ups i] sz by simp
  show ?case
  proof (cases "length (log i) \<le> c")
    case True
    then show ?thesis by (intro exI [of _ i]) (simp add: unfold page)
  next
    case False
    then have "?p \<noteq> []" using sz by (simp add: not_le)
    have seqs: "map re_sequence ?p = map int [Suc c..<Suc c + length ?p]"
      using False unfolding slice_sequences
      by (cases "nat sz \<le> length (log i) - c") (simp_all add: take_upt min_def del: upt_Suc)
    have split: "?es @ ?p = drop a (take (c + length ?p) (log i))"
    proof -
      have "take (length ?p) (drop c (log i)) = ?p" by (metis length_take take_all take_take nle_le min.commute)
      then have "take (c + length ?p) (log i) = take c (log i) @ ?p" by (simp only: take_add)
      then show ?thesis using less.prems False by simp
    qed
    have ids': "distinct (map re_event_id (?es @ ?p))"
      unfolding split using ids [of i] by (simp add: drop_map [symmetric] take_map [symmetric])
    have "fold absorb ?p (int c, re_event_id ` set ?es, ?es)
        = (int (c + length ?p), re_event_id ` set ?es \<union> re_event_id ` set ?p, ?es @ ?p)"
      by (rule fold_absorb [OF seqs]) (use ids' in auto)
    also have "\<dots> = (int (c + length ?p), re_event_id ` set (drop a (take (c + length ?p) (log i))),
        drop a (take (c + length ?p) (log i)))"
      unfolding split [symmetric] by (simp add: image_Un)
    also have "take (c + length ?p) (log i) = take (c + length ?p) (log (Suc i))"
      using extended [of i] False by (auto simp: prefix_def)
    finally have step: "replay_loop (\<lambda>i cursor. sequence_page max_size ups (page i) cursor sz) i
        (int c, re_event_id ` set ?es, ?es) =
      replay_loop (\<lambda>i cursor. sequence_page max_size ups (page i) cursor sz) (Suc i)
        (int (c + length ?p), re_event_id ` set (drop a (take (c + length ?p) (log (Suc i)))),
         drop a (take (c + length ?p) (log (Suc i))))"
      using \<open>?p \<noteq> []\<close> by (simp add: unfold page del: drop_take take_drop)
    have "N - (c + length ?p) < N - c"
      using bounded [of i] False \<open>?p \<noteq> []\<close> by (metis diff_less_mono2 length_greater_0_conv less_add_same_cancel1 not_le order_less_le_trans)
    from less.hyps [OF this, of "Suc i"] less.prems show ?thesis
      unfolding step by (meson Suc_leD le_add1 order_trans)
  qed
qed

theorem replay_all_law:
  assumes "\<And>j. length (log j) \<le> N" "0 < sz" "sz \<le> max_size"
  shows "\<exists>k. replay_all max_size ups page (Some sz) (int a) = Some (Inr (drop a (log k)))"
  using replay_loop_law [OF assms order_refl, where i = 0 and a = a and ups = ups] assms(2) by (auto simp: replay_all_def)

end

section \<open>The session log as a replay source\<close>

lemma session_sequences:
  assumes "pg_store_inv u db"
  shows "map ev_sequence (session_events db k) = map int [1..<Suc (length (session_events db k))]"
proof (cases "k \<in> session_key ` set (db_sessions db)")
  case True
  then obtain r where "r \<in> set (db_sessions db)" "session_key r = k" by auto
  then have seqs: "map ev_sequence (session_events db k) = map int [1..<nat (ss_next_sequence r)]"
    "1 \<le> ss_next_sequence r"
    using assms by (auto simp: pg_store_inv_def list_all_iff session_log_ok_def)
  then have "length (session_events db k) = nat (ss_next_sequence r) - 1"
    by (metis length_map length_upt)
  then show ?thesis using seqs by (simp add: nat_le_iff le_nat_iff del: upt_Suc)
next
  case False
  then have "session_events db k = []"
    using assms by (auto simp: session_events_def filter_empty_conv pg_store_inv_def list_all_iff event_ok_def)
  then show ?thesis by simp
qed

lemma filter_after:
  "map f xs = map int [m..<m + length xs] \<Longrightarrow> filter (\<lambda>x. f x > int c) xs = drop (Suc c - m) xs"
proof (induction xs arbitrary: m)
  case (Cons x xs)
  have x: "f x = int m" and xs: "map f xs = map int [Suc m..<Suc m + length xs]"
    using Cons.prems upt_conv_Cons [of m "m + length (x # xs)"] by (simp_all del: upt_Suc)
  show ?case
    using Cons.IH [OF xs] x by (cases "c < m") (auto simp: not_less Suc_diff_le)
qed simp

lemma pg_page_law:
  assumes inv: "pg_store_inv u db" and "0 \<le> c" "0 < k"
  shows "pg_page True db t s c k = Inr (take (nat k) (drop (nat c) (map replay_row (session_events db (t, s)))))"
proof -
  let ?L = "session_events db (t, s)"
  have "filter (\<lambda>e. ev_session_id e = s \<and> ev_sequence e > c) (filter (\<lambda>e. ev_tenant_id e = t) (db_events db))
      = filter (\<lambda>e. ev_sequence e > int (nat c)) ?L"
    using assms(2) by (auto simp: session_events_def event_key_def intro: filter_cong)
  also have "\<dots> = drop (nat c) ?L"
    using filter_after [of ev_sequence ?L 1 "nat c"] session_sequences [OF inv, of "(t, s)"] by simp
  moreover have "sorted (map ev_sequence (drop (nat c) ?L))"
    unfolding drop_map [symmetric] session_sequences [OF inv]
    by (intro sorted_wrt_drop) (simp add: sorted_map del: upt_Suc)
  ultimately show ?thesis by (simp add: pg_page_def sort_key_id_if_sorted take_map drop_map)
qed

lemma events_extended_step:
  assumes "pg_store_inv u db"
  shows "\<exists>es. db_events (snd (pg_step enforced u c db)) = db_events db @ es \<and> list_all (\<lambda>e. ev_schema_version e = 1) es"
proof (cases c)
  case (Transition t s v target k now rid)
  show ?thesis
    by (rule pg_transition_cases [OF pg_store_inv_ids [OF assms], where u = u and t = t and s = s and k = k and v = v and target = target
          and now = now and rid = rid and enforced = enforced])
      (use Transition in \<open>auto simp: appended_def transition_event_def Let_def\<close>)
qed (auto simp: pg_create_session_def Let_def)

lemma events_extended_run:
  "pg_store_inv u db \<Longrightarrow>
   \<exists>es. db_events (run_ops (pg_step enforced u) db cs) = db_events db @ es \<and> list_all (\<lambda>e. ev_schema_version e = 1) es"
proof (induction cs arbitrary: db)
  case (Cons c cs)
  obtain es where "db_events (snd (pg_step enforced u c db)) = db_events db @ es" "list_all (\<lambda>e. ev_schema_version e = 1) es"
    using events_extended_step [OF Cons.prems] by blast
  with Cons.IH [OF pg_store_inv_step [OF Cons.prems, of enforced c]] show ?case by auto
qed simp

text \<open>The database when the \<open>i\<close>-th page is read; \<open>css i\<close> is what was committed since the page before.\<close>

fun db_at_page :: "(string \<Rightarrow> string \<Rightarrow> string) \<Rightarrow> (nat \<Rightarrow> store_command list) \<Rightarrow> nat \<Rightarrow> coord_db" where
  "db_at_page u css 0 = run_ops (pg_step True u) empty_db (css 0)"
| "db_at_page u css (Suc i) = run_ops (pg_step True u) (db_at_page u css i) (css (Suc i))"

lemma db_at_page_inv: "pg_store_inv u (db_at_page u css i)"
  by (induction i) (auto intro: pg_store_inv_run pg_store_inv_empty)

lemma db_at_page_schema: "list_all (\<lambda>e. ev_schema_version e = 1) (db_events (db_at_page u css i))"
proof (induction i)
  case 0
  then show ?case using events_extended_run [OF pg_store_inv_empty, where cs = "css 0" and enforced = True and u = u] by (auto simp: empty_db_def)
next
  case (Suc i)
  then show ?case using events_extended_run [OF db_at_page_inv [of u css i], where cs = "css (Suc i)" and enforced = True] by auto
qed

interpretation pg_replay: replay_repository
  "\<lambda>i. pg_page True (db_at_page u css i) t s"
  "\<lambda>i. map replay_row (session_events (db_at_page u css i) (t, s))"
  for u css t s
proof (unfold_locales, goal_cases)
  case (1 c k i)
  then show ?case by (rule pg_page_law [OF db_at_page_inv])
next
  case (2 i)
  then show ?case
    using session_sequences [OF db_at_page_inv, of u css i "(t, s)"] by (simp add: replay_row_def comp_def del: upt_Suc)
next
  case (3 i)
  then show ?case
    using db_at_page_inv [of u css i] by (simp add: replay_row_def comp_def session_events_def pg_store_inv_def distinct_map_filter)
next
  case (4 e i)
  then show ?case
    using db_at_page_schema [of u css i] by (auto simp: session_events_def replay_row_def list_all_iff)
next
  case (5 i)
  then show ?case
    using events_extended_run [OF db_at_page_inv [of u css i], where cs = "css (Suc i)" and enforced = True]
    by (auto simp: session_events_def prefix_def)
qed

section \<open>Properties\<close>

text \<open>
  C14: a full replay returns, and it returns a snapshot.  While other transactions commit commands
  between its pages, as long as only finitely many do, \<open>all\<close> ends and yields exactly the events of
  the session after the cursor, in sequence order, as they stood at one of its page reads: no event
  is missed, repeated or reordered, whatever the page size within its bound.
\<close>

theorem replay_returns_snapshot:
  assumes "\<And>i. n < i \<Longrightarrow> css i = []" "0 < page_size" "page_size \<le> max_page_size"
  shows "\<exists>k. replay_all max_page_size ups (\<lambda>i. pg_page True (db_at_page u css i) t s) (Some page_size) (int after)
    = Some (Inr (map replay_row (drop after (session_events (db_at_page u css k) (t, s)))))"
proof -
  let ?len = "\<lambda>i. length (session_events (db_at_page u css i) (t, s))"
  have stable: "db_at_page u css i = db_at_page u css n" if "n \<le> i" for i
    using that assms(1) by (induction rule: dec_induct) auto
  have "db_at_page u css i = db_at_page u css (min i n)" for i
  proof (cases "n \<le> i")
    case True
    from stable [OF this] show ?thesis using True by (simp only: min.absorb2)
  qed (simp add: min_def)
  then have "?len i \<le> (\<Sum>j \<le> n. ?len j)" for i
    using member_le_sum [of "min i n" "{..n}" ?len] by (metis atMost_iff finite_atMost min.cobounded2 zero_le)
  from pg_replay.replay_all_law [where N = "\<Sum>j \<le> n. ?len j", OF _ assms(2,3)] this
  show ?thesis by (simp add: drop_map)
qed

theorem replay_returns_snapshot_witness:
  "\<exists>k. replay_all 500 (\<lambda>_. None) (\<lambda>i. pg_page True (db_at_page demo_uuid5
      (\<lambda>i. if i = 0 then take 2 demo_run else if i = 1 then drop 2 demo_run else []) i) ''t'' ''s'') (Some 1) (int 0)
    = Some (Inr (map replay_row (drop 0 (session_events (db_at_page demo_uuid5
      (\<lambda>i. if i = 0 then take 2 demo_run else if i = 1 then drop 2 demo_run else []) k) (''t'', ''s'')))))"
  by (rule replay_returns_snapshot [where n = 1]) simp_all

text \<open>
  The reader has no tenant predicate of its own: on a connection whose role bypasses row-level
  security, another tenant that names the session id reads its events.
\<close>

theorem replay_without_rls_crosses_tenants:
  "re_tenant_id ` set (projr (pg_page False (run_ops (pg_step True demo_uuid5) empty_db demo_run) ''other'' ''s'' 0 10))
    = {''t''}"
  by code_simp

end
