(* ===== verification/Auction_Lifecycle.thy ===== *)
theory Auction_Lifecycle
  imports Lifecycle
begin

text \<open>
  The auction's lifecycle (\<open>app/coordination/auction/state_machine.py\<close>), its fairness adjustment
  (\<open>fairness.py\<close>) and its identity checks (\<open>threat_detection.py\<close>).  The lifecycle is an instance of
  the contract that the session, execution and handoff lifecycles keep.
\<close>

section \<open>The auction lifecycle\<close>

record auction_state =
  as_auction_id :: string
  as_state :: string
  as_round_number :: int
  as_last_idempotency_key :: "string option"

definition AUCTION_TRANSITIONS :: transition_table where
  "AUCTION_TRANSITIONS =
    [(''announced'', [''bidding'', ''cancelled'']),
     (''bidding'', [''sealed'', ''cancelled'']),
     (''sealed'', [''scored'', ''failed'', ''cancelled'']),
     (''scored'', [''allocated'', ''rebid'', ''failed'', ''cancelled'']),
     (''allocated'', [''executing'', ''rebid'', ''cancelled'']),
     (''executing'', [''settled'', ''rebid'', ''failed'', ''cancelled'']),
     (''rebid'', [''bidding'', ''failed'', ''cancelled'']),
     (''settled'', []),
     (''failed'', []),
     (''cancelled'', [])]"

text \<open>The state is one of the table's, so the lookup \<open>_TRANSITIONS[state.state]\<close> finds it.\<close>

definition transition_auction :: "auction_state \<Rightarrow> string \<Rightarrow> string \<Rightarrow> auction_state result" where
  "transition_auction st target key =
     (if as_last_idempotency_key st = Some key then Inr st
      else case map_of AUCTION_TRANSITIONS (as_state st) of
             None \<Rightarrow> Inl (KeyError (as_state st))
           | Some ts \<Rightarrow>
               if target \<notin> set ts then Inl (InvalidTransitionError (as_state st) target)
               else Inr (st\<lparr>as_state := target,
                      as_round_number := as_round_number st +
                        (if target = ''bidding'' \<and> as_state st = ''rebid'' then 1 else 0),
                      as_last_idempotency_key := Some key\<rparr>))"

section \<open>Fairness and identity checks\<close>

definition bounded_fairness_adjustment :: "int \<Rightarrow> int \<Rightarrow> int \<Rightarrow> int result" where
  "bounded_fairness_adjustment opportunities exposures cap =
     (if min (min opportunities exposures) cap < 0
      then Inl (ValueError ''fairness inputs must be non-negative'')
      else if opportunities = exposures then Inr 0
      else let denominator = max 1 (opportunities + exposures);
               raw = (opportunities - exposures) * 10000 div denominator
           in Inr (max (- cap) (min cap raw)))"

record bid_identity =
  bi_bidder_id :: string
  bi_credential_id :: string
  bi_deployment_id :: string
  bi_signature :: string

definition repeated :: "string list \<Rightarrow> bool" where
  "repeated xs \<longleftrightarrow> (\<exists>x \<in> set xs. count_list xs x > 1)"

definition detect_threats :: "bid_identity list \<Rightarrow> string list" where
  "detect_threats ids = sort (
     (if repeated (map bi_bidder_id ids) then [''duplicate_bidder''] else []) @
     (if repeated (map bi_credential_id ids) then [''duplicate_credential''] else []) @
     (if repeated (map bi_deployment_id ids) then [''duplicate_deployment''] else []) @
     (if repeated (map bi_signature ids) then [''replayed_signature''] else []))"

section \<open>Lifecycle runs\<close>

interpretation auction_lc: lifecycle "\<lambda>s t. transition_in s t AUCTION_TRANSITIONS" "map fst AUCTION_TRANSITIONS"
    "[''settled'', ''failed'', ''cancelled'']" "''cancelled''"
  by (rule lifecycle_of_table) code_simp

definition auction_advance :: "auction_state \<Rightarrow> string \<times> string \<Rightarrow> auction_state" where
  "auction_advance st req = (case transition_auction st (fst req) (snd req) of Inl _ \<Rightarrow> st | Inr st' \<Rightarrow> st')"

fun auction_run :: "auction_state \<Rightarrow> (string \<times> string) list \<Rightarrow> auction_state" where
  "auction_run st [] = st"
| "auction_run st (r # rs) = auction_run (auction_advance st r) rs"

lemma auction_run_append [simp]: "auction_run st (rs @ ss) = auction_run (auction_run st rs) ss"
  by (induction rs arbitrary: st) auto

lemma auction_advance_state:
  assumes "as_state st \<in> set (map fst AUCTION_TRANSITIONS)"
  shows "as_state (auction_advance st (t, k)) = (if as_last_idempotency_key st = Some k then as_state st
      else advance (\<lambda>s t. transition_in s t AUCTION_TRANSITIONS) (as_state st) t)"
proof -
  obtain ts where "map_of AUCTION_TRANSITIONS (as_state st) = Some ts"
    using assms by (cases "map_of AUCTION_TRANSITIONS (as_state st)") (auto simp: map_of_eq_None_iff)
  then show ?thesis
    by (auto simp: auction_advance_def transition_auction_def transition_in_def advance_def)
qed

lemma auction_run_closed:
  "as_state st \<in> set (map fst AUCTION_TRANSITIONS) \<Longrightarrow> as_state (auction_run st rs) \<in> set (map fst AUCTION_TRANSITIONS)"
proof (induction rs arbitrary: st)
  case (Cons r rs)
  have "as_state (auction_advance st r) \<in> set (map fst AUCTION_TRANSITIONS)"
    using auction_advance_state [OF Cons.prems, of "fst r" "snd r"] auction_lc.advance_closed [OF Cons.prems]
      Cons.prems by (cases "as_last_idempotency_key st = Some (snd r)") simp_all
  then show ?case using Cons.IH by simp
qed simp

lemma auction_round_step:
  "as_round_number (auction_advance st r) - as_round_number st \<in> {0, 1} \<and>
   (as_round_number (auction_advance st r) \<noteq> as_round_number st \<longrightarrow>
      as_state st = ''rebid'' \<and> as_state (auction_advance st r) = ''bidding'')"
  by (auto simp: auction_advance_def transition_auction_def split: option.splits)

lemma auction_round_mono: "as_round_number st \<le> as_round_number (auction_run st rs)"
proof (induction rs arbitrary: st)
  case (Cons r rs)
  have "as_round_number st \<le> as_round_number (auction_advance st r)" using auction_round_step [of st r] by auto
  also have "\<dots> \<le> as_round_number (auction_run (auction_advance st r) rs)" by (rule Cons.IH)
  finally show ?case by simp
qed simp

lemma auction_terminal_advance:
  "as_state st \<in> {''settled'', ''failed'', ''cancelled''} \<Longrightarrow> auction_advance st r = st"
proof -
  assume "as_state st \<in> {''settled'', ''failed'', ''cancelled''}"
  moreover have "map_of AUCTION_TRANSITIONS ''settled'' = Some []" "map_of AUCTION_TRANSITIONS ''failed'' = Some []"
    "map_of AUCTION_TRANSITIONS ''cancelled'' = Some []" by code_simp+
  ultimately have "map_of AUCTION_TRANSITIONS (as_state st) = Some []" by auto
  then show ?thesis by (simp add: auction_advance_def transition_auction_def)
qed

text \<open>
  The auction lifecycle.  Under any sequence of requests an auction stays within its table; a
  settled, failed or cancelled auction never changes again; it can always be cancelled (with a key
  other than the last one); the round number never decreases and rises only when a rebid reopens the
  bidding; and repeating the last request is a no-op.
\<close>

theorem auction_lifecycle:
  assumes "as_state st \<in> set (map fst AUCTION_TRANSITIONS)"
  shows "let c = auction_run st rs; fin = {''settled'', ''failed'', ''cancelled''} in
    as_state c \<in> set (map fst AUCTION_TRANSITIONS) \<and>
    (as_state c \<in> fin \<longrightarrow> auction_run c ss = c) \<and>
    (as_last_idempotency_key c \<noteq> Some k \<longrightarrow> as_state (auction_advance c (''cancelled'', k)) \<in> fin) \<and>
    as_round_number st \<le> as_round_number c \<and>
    (\<forall>c'. transition_auction c t k = Inr c' \<longrightarrow> transition_auction c' t k = Inr c')"
proof -
  let ?c = "auction_run st rs"
  note closed = auction_run_closed [OF assms, of rs]
  have absorb: "auction_run c ss = c" if "as_state c \<in> {''settled'', ''failed'', ''cancelled''}" for c
    using that by (induction ss) (simp_all add: auction_terminal_advance)
  have cancel: "as_state (auction_advance ?c (''cancelled'', k)) \<in> {''settled'', ''failed'', ''cancelled''}"
    if "as_last_idempotency_key ?c \<noteq> Some k"
    using auction_lc.always_abortable [OF closed, of "[]"] that
    unfolding auction_advance_state [OF closed] by simp
  have replay: "transition_auction c' t k = Inr c'" if "transition_auction ?c t k = Inr c'" for c'
    using that by (auto simp: transition_auction_def split: if_splits option.splits)
  show ?thesis unfolding Let_def using closed absorb cancel auction_round_mono [of st rs] replay by blast
qed

theorem auction_lifecycle_witness:
  "as_state (auction_run \<lparr>as_auction_id = ''a'', as_state = ''announced'', as_round_number = 0,
     as_last_idempotency_key = None\<rparr> [(''bidding'', ''k1''), (''cancelled'', ''k2''), (''bidding'', ''k3'')]) = ''cancelled''"
proof -
  let ?st = "\<lparr>as_auction_id = ''a'', as_state = ''announced'', as_round_number = 0, as_last_idempotency_key = None\<rparr>"
  let ?c = "auction_run ?st [(''bidding'', ''k1''), (''cancelled'', ''k2'')]"
  have "as_state ?st \<in> set (map fst AUCTION_TRANSITIONS)" "as_state ?c \<in> {''settled'', ''failed'', ''cancelled''}"
    by code_simp+
  then have "auction_run ?c [(''bidding'', ''k3'')] = ?c"
    using auction_lifecycle [of ?st "[(''bidding'', ''k1''), (''cancelled'', ''k2'')]" "[(''bidding'', ''k3'')]"]
    unfolding Let_def by blast
  moreover have "as_state ?c = ''cancelled''" by code_simp
  ultimately show ?thesis by simp
qed

section \<open>Fairness\<close>

text \<open>
  The fairness adjustment is defined exactly for non-negative inputs, never exceeds its cap nor
  10000 basis points in either direction, and favours the side with fewer exposures than
  opportunities.
\<close>

theorem fairness_bounded:
  "if 0 \<le> opportunities \<and> 0 \<le> exposures \<and> 0 \<le> cap
   then \<exists>adj. bounded_fairness_adjustment opportunities exposures cap = Inr adj \<and> \<bar>adj\<bar> \<le> cap \<and> \<bar>adj\<bar> \<le> 10000 \<and>
     (exposures < opportunities \<longrightarrow> 0 \<le> adj) \<and> (opportunities < exposures \<longrightarrow> adj \<le> 0)
   else raised (bounded_fairness_adjustment opportunities exposures cap)"
proof (cases "0 \<le> opportunities \<and> 0 \<le> exposures \<and> 0 \<le> cap")
  case True
  define d where "d = max 1 (opportunities + exposures)"
  define raw where "raw = (opportunities - exposures) * 10000 div d"
  have d: "0 < d" "- d \<le> opportunities - exposures" "opportunities - exposures \<le> d" using True by (auto simp: d_def)
  have "- 10000 \<le> raw"
    using zdiv_mono1 [of "- d * 10000" "(opportunities - exposures) * 10000" d] d
      nonzero_mult_div_cancel_left [of d "- 10000"] by (simp add: raw_def)
  moreover have "raw \<le> 10000"
    using zdiv_mono1 [of "(opportunities - exposures) * 10000" "10000 * d" d] d by (simp add: raw_def)
  moreover have "exposures < opportunities \<Longrightarrow> 0 \<le> raw" "opportunities < exposures \<Longrightarrow> raw \<le> 0"
    using d(1) by (auto simp: raw_def pos_imp_zdiv_nonneg_iff div_nonpos_pos_le0)
  moreover have "bounded_fairness_adjustment opportunities exposures cap =
      Inr (if opportunities = exposures then 0 else max (- cap) (min cap raw))"
    using True unfolding bounded_fairness_adjustment_def Let_def raw_def d_def by (simp only: if_False not_less min_less_iff_disj) simp
  ultimately show ?thesis using True by auto
qed (auto simp: bounded_fairness_adjustment_def)

section \<open>Identity checks\<close>

lemma repeated_iff: "repeated xs \<longleftrightarrow> \<not> distinct xs"
proof -
  have "distinct xs \<longleftrightarrow> (\<forall>x \<in> set xs. count_list xs x \<le> 1)"
    by (induction xs) (auto simp: count_list_0_iff le_Suc_eq)
  then show ?thesis by (auto simp: repeated_def not_le)
qed

text \<open>
  The threat detector reports a reason exactly when a bidder, a credential, a deployment or a
  signature occurs twice among the identities, in a fixed order.
\<close>

theorem detect_threats_exact:
  "(detect_threats ids = [] \<longleftrightarrow> distinct (map bi_bidder_id ids) \<and> distinct (map bi_credential_id ids) \<and>
      distinct (map bi_deployment_id ids) \<and> distinct (map bi_signature ids)) \<and>
   (''duplicate_bidder'' \<in> set (detect_threats ids) \<longleftrightarrow> \<not> distinct (map bi_bidder_id ids)) \<and>
   (''duplicate_credential'' \<in> set (detect_threats ids) \<longleftrightarrow> \<not> distinct (map bi_credential_id ids)) \<and>
   (''duplicate_deployment'' \<in> set (detect_threats ids) \<longleftrightarrow> \<not> distinct (map bi_deployment_id ids)) \<and>
   (''replayed_signature'' \<in> set (detect_threats ids) \<longleftrightarrow> \<not> distinct (map bi_signature ids)) \<and>
   sorted (detect_threats ids)"
proof -
  have "detect_threats ids = [] \<longleftrightarrow> set (detect_threats ids) = {}" by simp
  then show ?thesis unfolding detect_threats_def by (simp add: repeated_iff)
qed

end
