(* ===== verification/Decimal_Arith.thy ===== *)
theory Decimal_Arith
  imports Prelude
begin

text \<open>
  Python's \<open>decimal\<close> arithmetic in its default context: results are rounded to 28 significant
  digits, ties to even.  Decimals are rationals; the exponent limits of the context are not
  modelled.
\<close>

text \<open>The decimal exponent of a positive number: \<open>10 ^ e \<le> x < 10 ^ (e + 1)\<close>.\<close>

function dec_exp :: "rat \<Rightarrow> int" where
  "dec_exp x = (if x \<le> 0 then 0 else if x \<ge> 10 then dec_exp (x / 10) + 1
     else if x < 1 then dec_exp (x * 10) - 1 else 0)"
  by auto
termination
proof (relation "measure (\<lambda>x::rat. if x \<ge> 1 then nat \<lfloor>x\<rfloor> else nat \<lfloor>1 / x\<rfloor> + 10)", goal_cases)
  case (2 x)
  have "\<lfloor>x / 10\<rfloor> < \<lfloor>x\<rfloor>"
  proof -
    have "x / 10 + 1 \<le> x" using 2 by (simp add: field_simps)
    then have "\<lfloor>x / 10\<rfloor> + 1 \<le> \<lfloor>x\<rfloor>" by linarith
    then show ?thesis by simp
  qed
  then show ?case using 2 by (auto simp: zless_nat_conj nat_less_eq_zless)
next
  case (3 x)
  show ?case
  proof (cases "x * 10 < 1")
    case True
    have "1 / (x * 10) + 1 \<le> 1 / x" using 3 True by (simp add: field_simps)
    then have "\<lfloor>1 / (x * 10)\<rfloor> + 1 \<le> \<lfloor>1 / x\<rfloor>" by linarith
    moreover have "0 \<le> \<lfloor>1 / (x * 10)\<rfloor>" using 3 by simp
    ultimately have "nat \<lfloor>1 / (x * 10)\<rfloor> < nat \<lfloor>1 / x\<rfloor>" by linarith
    then show ?thesis using 3 True by simp
  next
    case False
    then have "\<lfloor>x * 10\<rfloor> < 10" using 3 by (simp add: floor_less_iff)
    then have "nat \<lfloor>x * 10\<rfloor> < 10" by linarith
    then show ?thesis using 3 False by simp
  qed
qed simp

declare dec_exp.simps [simp del]

lemma dec_exp_bounds: "0 < x \<Longrightarrow> 10 powi dec_exp x \<le> x \<and> x < 10 powi (dec_exp x + 1)"
proof (induction x rule: dec_exp.induct)
  case (1 x)
  consider "x \<ge> 10" | "x < 1" | "1 \<le> x" "x < 10" by linarith
  then show ?case
  proof cases
    case 1
    then have e: "dec_exp x = dec_exp (x / 10) + 1" by (simp add: dec_exp.simps [of x])
    have "10 powi dec_exp (x / 10) \<le> x / 10 \<and> x / 10 < 10 powi (dec_exp (x / 10) + 1)"
      using "1.IH"(1) "1.prems" 1 by simp
    then show ?thesis unfolding e by (simp add: power_int_add field_simps)
  next
    case 2
    then have e: "dec_exp x = dec_exp (x * 10) - 1" using "1.prems" by (simp add: dec_exp.simps [of x])
    have "10 powi dec_exp (x * 10) \<le> x * 10 \<and> x * 10 < 10 powi (dec_exp (x * 10) + 1)"
      using "1.IH"(2) "1.prems" 2 by simp
    then show ?thesis unfolding e by (simp add: power_int_add power_int_diff field_simps)
  next
    case 3
    then show ?thesis by (simp add: dec_exp.simps [of x])
  qed
qed

definition dec_round :: "rat \<Rightarrow> rat" where
  "dec_round x = (if x = 0 then 0
     else let q = 10 powi (dec_exp \<bar>x\<bar> - 27) in of_int (round_half_even (x / q)) * q)"

definition dec_sub :: "rat \<Rightarrow> rat \<Rightarrow> rat" where "dec_sub a b = dec_round (a - b)"
definition dec_div :: "rat \<Rightarrow> rat \<Rightarrow> rat" where "dec_div a b = dec_round (a / b)"
definition dec_mul :: "rat \<Rightarrow> rat \<Rightarrow> rat" where "dec_mul a b = dec_round (a * b)"

lemma dec_round_0 [simp]: "dec_round 0 = 0"
  by (simp add: dec_round_def)

text \<open>Rounding stays within the decade of its argument, so it is monotone.\<close>

lemma dec_round_decade:
  assumes "0 < x"
  shows "10 powi dec_exp x \<le> dec_round x \<and> dec_round x \<le> 10 powi (dec_exp x + 1)"
proof -
  define q where "q = (10 :: rat) powi (dec_exp x - 27)"
  have q: "0 < q" "10 powi dec_exp x = of_int (10 ^ 27) * q" "10 powi (dec_exp x + 1) = of_int (10 ^ 28) * q"
    by (simp_all add: q_def power_int_add power_int_diff)
  have "of_int (10 ^ 27) \<le> x / q" "x / q \<le> of_int (10 ^ 28)"
    using dec_exp_bounds [OF assms] q by (simp_all add: field_simps)
  then have "10 ^ 27 \<le> round_half_even (x / q)" "round_half_even (x / q) \<le> 10 ^ 28"
    using round_half_even_mono round_half_even_int by metis+
  then have "of_int (10 ^ 27) \<le> (of_int (round_half_even (x / q)) :: rat)"
    "(of_int (round_half_even (x / q)) :: rat) \<le> of_int (10 ^ 28)"
    by (simp_all only: of_int_le_iff)
  then show ?thesis
    using assms q mult_right_mono [OF _ less_imp_le [OF q(1)]]
    by (simp add: dec_round_def Let_def flip: q_def)
qed

lemma dec_round_nonneg: "0 \<le> x \<Longrightarrow> 0 \<le> dec_round x"
proof (cases "x = 0")
  case False
  assume "0 \<le> x"
  then have "10 powi dec_exp x \<le> dec_round x" using dec_round_decade [of x] False by simp
  then show ?thesis by (rule order_trans [rotated]) simp
qed simp

lemma dec_round_mono:
  assumes "0 \<le> x" "x \<le> y"
  shows "dec_round x \<le> dec_round y"
proof (cases "x = 0")
  case True
  then show ?thesis using assms dec_round_nonneg [of y] by simp
next
  case False
  then have x: "0 < x" "0 < y" using assms by auto
  have "10 powi dec_exp x < (10::rat) powi (dec_exp y + 1)"
    using dec_exp_bounds [OF x(1)] dec_exp_bounds [OF x(2)] assms(2) by linarith
  then have "dec_exp x \<le> dec_exp y"
    using power_int_increasing [of "dec_exp y + 1" "dec_exp x" "10::rat"] by force
  then consider "dec_exp x = dec_exp y" | "dec_exp x + 1 \<le> dec_exp y" by linarith
  then show ?thesis
  proof cases
    case 1
    then have "round_half_even (x / 10 powi (dec_exp x - 27)) \<le> round_half_even (y / 10 powi (dec_exp y - 27))"
      using assms(2) by (intro round_half_even_mono) (simp add: divide_right_mono)
    then show ?thesis using x 1 by (simp add: dec_round_def Let_def mult_right_mono)
  next
    case 2
    then have "(10::rat) powi (dec_exp x + 1) \<le> 10 powi dec_exp y" by (intro power_int_increasing) auto
    then show ?thesis using dec_round_decade [OF x(1)] dec_round_decade [OF x(2)] by linarith
  qed
qed

lemma dec_round_power: "dec_round (10 ^ n) = 10 ^ n"
proof -
  have e: "dec_exp (10 ^ n) = int n"
  proof (induction n)
    case (Suc n)
    then show ?case using one_le_power [of "10::rat" n] zero_less_power [of "10::rat" n]
      by (simp add: dec_exp.simps [of "10 * 10 ^ n"] not_le del: zero_less_power)
  qed (simp add: dec_exp.simps)
  have "(10 ^ n :: rat) / 10 powi (int n - 27) = of_int (10 ^ 27)" by (simp add: power_int_diff)
  then have "round_half_even (10 ^ n / 10 powi (int n - 27)) = 10 ^ 27" by (simp only: round_half_even_int)
  then show ?thesis by (simp add: dec_round_def e Let_def power_int_diff)
qed

lemma dec_round_le_power: "0 \<le> x \<Longrightarrow> x \<le> 10 ^ n \<Longrightarrow> dec_round x \<le> 10 ^ n"
  using dec_round_mono [of x "10 ^ n"] by (simp add: dec_round_power)

text \<open>The relative error of one rounding.\<close>

lemma dec_round_error: "0 \<le> x \<Longrightarrow> dec_round x \<le> x * (1 + 1 / 10 ^ 27)"
proof (cases "x = 0")
  case False
  assume "0 \<le> x"
  then have x: "0 < x" using False by simp
  define q where "q = (10 :: rat) powi (dec_exp x - 27)"
  have q: "0 < q" by (simp add: q_def)
  have "dec_round x = of_int (round_half_even (x / q)) * q"
    using x by (simp add: dec_round_def Let_def flip: q_def)
  also have "\<dots> \<le> (x / q + 1 / 2) * q"
    using round_half_even_bounds(2) [of "x / q"] q by (intro mult_right_mono) auto
  also have "\<dots> = x + q / 2" using q by (simp add: field_simps)
  also have "q / 2 \<le> x * (1 / 10 ^ 27)"
    using dec_exp_bounds [OF x] x by (simp add: q_def power_int_diff)
  finally show ?thesis by (simp add: distrib_left)
qed simp

end
