(* ===== verification/Auction_Scoring.thy ===== *)
theory Auction_Scoring
  imports Decimal_Arith "HOL-Library.Product_Lexorder" "HOL-Library.Multiset"
begin

text \<open>
  The market auction of \<open>app/coordination/auction\<close>: contracts (\<open>models.py\<close>), fixed-point ranking
  (\<open>scoring.py\<close>).  Costs are decimals, computed in the 28-digit context.
  A frozenset of strings is a list; only membership is used.
\<close>

section \<open>Contracts\<close>

record score_weights =
  sw_quality :: int
  sw_cost :: int
  sw_latency :: int
  sw_confidence :: int
  sw_fairness :: int
  sw_load :: int

text \<open>The field bounds and the \<open>total_is_basis_points\<close> validator.\<close>

definition weights_ok :: "score_weights \<Rightarrow> bool" where
  "weights_ok w \<longleftrightarrow> 0 \<le> sw_quality w \<and> 0 \<le> sw_cost w \<and> 0 \<le> sw_latency w \<and> 0 \<le> sw_confidence w \<and>
     0 \<le> sw_fairness w \<and> 0 \<le> sw_load w \<and>
     sw_quality w + sw_cost w + sw_latency w + sw_confidence w + sw_fairness w + sw_load w = 10000"

record auction_announcement =
  aa_auction_id :: string
  aa_tenant_id :: string
  aa_work_item_id :: string
  aa_deadline :: instant
  aa_eligible_bidder_ids :: "string list"
  aa_required_capabilities :: "string list"
  aa_maximum_cost :: rat
  aa_weights :: score_weights
  aa_scoring_policy_version :: string

definition announcement_ok :: "auction_announcement \<Rightarrow> bool" where
  "announcement_ok a \<longleftrightarrow> 0 < aa_maximum_cost a \<and> weights_ok (aa_weights a)"

record bid_payload =
  bp_quality :: int
  bp_cost :: rat
  bp_latency_ms :: int
  bp_confidence :: int
  bp_fairness :: int
  bp_load :: int
  bp_capabilities :: "string list"
  bp_commitment :: string

definition payload_ok :: "bid_payload \<Rightarrow> bool" where
  "payload_ok p \<longleftrightarrow> 0 \<le> bp_quality p \<and> bp_quality p \<le> 10000 \<and> 0 \<le> bp_cost p \<and> 0 \<le> bp_latency_ms p \<and>
     0 \<le> bp_confidence p \<and> bp_confidence p \<le> 10000 \<and> -1000 \<le> bp_fairness p \<and> bp_fairness p \<le> 1000 \<and>
     0 \<le> bp_load p \<and> bp_load p \<le> 10000"

record revealed_bid =
  rb_bidder_id :: string
  rb_version :: int
  rb_submitted_at :: instant
  rb_payload :: bid_payload

record ranked_bid =
  rk_bidder_id :: string
  rk_total_score :: int
  rk_quality_score :: int
  rk_cost :: rat
  rk_submitted_at :: instant
  rk_explanation :: "(string \<times> int) list"

section \<open>Scoring\<close>

definition cost_score :: "rat \<Rightarrow> rat \<Rightarrow> int" where
  "cost_score cost ceil =
     round_half_even (dec_mul (dec_div (dec_sub ceil (min cost ceil)) ceil) 10000)"

definition latency_score :: "int \<Rightarrow> int" where
  "latency_score latency_ms = max 0 (10000 - min latency_ms 10000)"

definition components :: "auction_announcement \<Rightarrow> bid_payload \<Rightarrow> (string \<times> int) list" where
  "components a p =
     [(''quality'', bp_quality p), (''cost'', cost_score (bp_cost p) (aa_maximum_cost a)),
      (''latency'', latency_score (bp_latency_ms p)), (''confidence'', bp_confidence p),
      (''fairness'', max 0 (min 10000 (5000 + bp_fairness p))), (''load'', 10000 - bp_load p)]"

text \<open>\<open>getattr(weights, name)\<close>.\<close>

definition weight_of :: "score_weights \<Rightarrow> string \<Rightarrow> int" where
  "weight_of w name = the (map_of [(''quality'', sw_quality w), (''cost'', sw_cost w),
     (''latency'', sw_latency w), (''confidence'', sw_confidence w), (''fairness'', sw_fairness w),
     (''load'', sw_load w)] name)"

definition total_score :: "auction_announcement \<Rightarrow> bid_payload \<Rightarrow> int" where
  "total_score a p = sum_list (map (\<lambda>(name, v). v * weight_of (aa_weights a) name) (components a p)) div 10000"

definition rank_bid :: "auction_announcement \<Rightarrow> revealed_bid \<Rightarrow> ranked_bid" where
  "rank_bid a b = \<lparr>rk_bidder_id = rb_bidder_id b, rk_total_score = total_score a (rb_payload b),
     rk_quality_score = bp_quality (rb_payload b), rk_cost = bp_cost (rb_payload b),
     rk_submitted_at = rb_submitted_at b, rk_explanation = sort_key fst (components a (rb_payload b))\<rparr>"

definition rank_key :: "ranked_bid \<Rightarrow> int \<times> int \<times> rat \<times> int \<times> string" where
  "rank_key r = (- rk_total_score r, - rk_quality_score r, rk_cost r, rk_submitted_at r, rk_bidder_id r)"

definition score_bids :: "auction_announcement \<Rightarrow> revealed_bid list \<Rightarrow> ranked_bid list" where
  "score_bids a bids = sort_key rank_key (map (rank_bid a) bids)"

section \<open>Scores\<close>

lemma cost_score_bounds:
  assumes "0 \<le> cost" "0 < ceil"
  shows "0 \<le> cost_score cost ceil" "cost_score cost ceil \<le> 10000"
proof -
  let ?eps = "1 + 1 / 10 ^ 27 :: rat"
  have eps: "0 \<le> ?eps" by simp
  define d where "d = ceil - min cost ceil"
  define a where "a = dec_round d"
  define b where "b = dec_round (a / ceil)"
  define m where "m = dec_round (b * 10000)"
  have d: "0 \<le> d" "d \<le> ceil" using assms by (auto simp: d_def min_def)
  have a: "0 \<le> a" "a \<le> ceil * ?eps"
    using dec_round_nonneg [OF d(1)] dec_round_error [OF d(1)] mult_right_mono [OF d(2) eps]
    unfolding a_def by linarith+
  have r: "0 \<le> a / ceil" "a / ceil \<le> ?eps" using a assms(2) by (simp_all add: divide_le_eq mult.commute)
  have b: "0 \<le> b" "b \<le> ?eps * ?eps"
    using dec_round_nonneg [OF r(1)] dec_round_error [OF r(1)] mult_right_mono [OF r(2) eps]
    unfolding b_def by linarith+
  have m: "0 \<le> m" "m \<le> ?eps * ?eps * 10000 * ?eps"
    using dec_round_nonneg [of "b * 10000"] dec_round_error [of "b * 10000"] b
      mult_right_mono [of "b * 10000" "?eps * ?eps * 10000", OF _ eps]
    unfolding m_def by linarith+
  have score: "cost_score cost ceil = round_half_even m"
    by (simp add: cost_score_def dec_mul_def dec_div_def dec_sub_def m_def b_def a_def d_def)
  show "0 \<le> cost_score cost ceil"
    using round_half_even_mono [OF m(1)] round_half_even_int [of 0] by (simp add: score)
  have "m \<le> 10000 + 1 / 4" using m(2) by simp
  then have "(of_int (round_half_even m) :: rat) < of_int 10001"
    using round_half_even_bounds(2) [of m] by simp
  then show "cost_score cost ceil \<le> 10000" unfolding score of_int_less_iff by simp
qed

lemma cost_score_antimono:
  assumes "0 < ceil" "cost \<le> cost'"
  shows "cost_score cost' ceil \<le> cost_score cost ceil"
proof -
  have d: "0 \<le> ceil - min cost' ceil" "ceil - min cost' ceil \<le> ceil - min cost ceil"
    using assms(2) by (auto simp: min_def)
  have "dec_round (ceil - min cost' ceil) / ceil \<le> dec_round (ceil - min cost ceil) / ceil"
    using dec_round_mono [OF d] assms(1) by (simp add: divide_right_mono)
  moreover have "0 \<le> dec_round (ceil - min cost' ceil) / ceil"
    using dec_round_nonneg [OF d(1)] assms(1) by simp
  ultimately show ?thesis
    unfolding cost_score_def dec_mul_def dec_div_def dec_sub_def
    by (intro round_half_even_mono dec_round_mono mult_right_mono mult_nonneg_nonneg dec_round_nonneg) auto
qed

lemma total_score_eq:
  "total_score a p = (bp_quality p * sw_quality (aa_weights a) +
     cost_score (bp_cost p) (aa_maximum_cost a) * sw_cost (aa_weights a) +
     latency_score (bp_latency_ms p) * sw_latency (aa_weights a) + bp_confidence p * sw_confidence (aa_weights a) +
     max 0 (min 10000 (5000 + bp_fairness p)) * sw_fairness (aa_weights a) +
     (10000 - bp_load p) * sw_load (aa_weights a)) div 10000"
  by (simp add: total_score_def components_def weight_of_def)

lemma weighted_bounds: "0 \<le> v \<Longrightarrow> v \<le> 10000 \<Longrightarrow> 0 \<le> w \<Longrightarrow> 0 \<le> v * w \<and> v * w \<le> 10000 * (w :: int)"
  by (simp add: mult_right_mono)

lemma total_score_bounds:
  assumes "announcement_ok a" "payload_ok p"
  shows "0 \<le> total_score a p" "total_score a p \<le> 10000"
proof -
  let ?w = "aa_weights a"
  have w: "0 \<le> sw_quality ?w" "0 \<le> sw_cost ?w" "0 \<le> sw_latency ?w" "0 \<le> sw_confidence ?w" "0 \<le> sw_fairness ?w"
      "0 \<le> sw_load ?w"
    and total: "sw_quality ?w + sw_cost ?w + sw_latency ?w + sw_confidence ?w + sw_fairness ?w + sw_load ?w = 10000"
    using assms(1) by (auto simp: announcement_ok_def weights_ok_def)
  have c: "0 \<le> cost_score (bp_cost p) (aa_maximum_cost a)" "cost_score (bp_cost p) (aa_maximum_cost a) \<le> 10000"
    using assms by (auto intro!: cost_score_bounds simp: announcement_ok_def payload_ok_def)
  have l: "0 \<le> latency_score (bp_latency_ms p)" "latency_score (bp_latency_ms p) \<le> 10000"
    using assms(2) by (auto simp: latency_score_def payload_ok_def)
  note b = weighted_bounds [OF _ _ w(1), of "bp_quality p"] weighted_bounds [OF c w(2)] weighted_bounds [OF l w(3)]
    weighted_bounds [OF _ _ w(4), of "bp_confidence p"]
    weighted_bounds [OF _ _ w(5), of "max 0 (min 10000 (5000 + bp_fairness p))"]
    weighted_bounds [OF _ _ w(6), of "10000 - bp_load p"]
  have ranges: "0 \<le> bp_quality p" "bp_quality p \<le> 10000" "0 \<le> bp_confidence p" "bp_confidence p \<le> 10000"
    "0 \<le> 10000 - bp_load p" "10000 - bp_load p \<le> 10000"
    using assms(2) by (auto simp: payload_ok_def)
  show "0 \<le> total_score a p"
    unfolding total_score_eq using b ranges by (intro div_int_pos_iff [THEN iffD2]) (auto intro!: add_nonneg_nonneg)
  have "x1 + x2 + x3 + x4 + x5 + x6 \<le> 10000 * 10000"
    if "x1 \<le> 10000 * sw_quality ?w" "x2 \<le> 10000 * sw_cost ?w" "x3 \<le> 10000 * sw_latency ?w"
      "x4 \<le> 10000 * sw_confidence ?w" "x5 \<le> 10000 * sw_fairness ?w" "x6 \<le> 10000 * sw_load ?w" for x1 x2 x3 x4 x5 x6
    using that total by linarith
  from zdiv_mono1 [OF this [OF b(1,2,3,4,5,6) [THEN conjunct2]], of 10000] ranges
  show "total_score a p \<le> 10000" unfolding total_score_eq by simp
qed

section \<open>Ranking\<close>

lemma rank_key_pointwise:
  "t2 \<le> t1 \<Longrightarrow> q2 \<le> q1 \<Longrightarrow> c1 \<le> c2 \<Longrightarrow> s1 \<le> s2 \<Longrightarrow>
   (- t1, - q1, c1, s1, i) \<le> (- t2, - q2, c2, s2, i)" for t1 t2 q1 q2 s1 s2 :: int and c1 c2 :: rat and i :: string
  by (auto simp: less_eq_prod_def less_prod_def)

lemma rank_key_inj:
  assumes "distinct (map rb_bidder_id bids)"
  shows "inj_on rank_key (set (map (rank_bid a) bids))"
proof (rule inj_onI)
  fix x y
  assume xy: "x \<in> set (map (rank_bid a) bids)" "y \<in> set (map (rank_bid a) bids)" "rank_key x = rank_key y"
  then obtain b c where bc: "x = rank_bid a b" "y = rank_bid a c" "b \<in> set bids" "c \<in> set bids" by auto
  then have "rb_bidder_id b = rb_bidder_id c" using xy(3) by (simp add: rank_key_def rank_bid_def)
  then have "b = c" using assms bc(3,4) by (auto simp: distinct_map inj_on_def)
  then show "x = y" using bc by simp
qed

text \<open>The winner: the unique minimum of the ranking key.\<close>

lemma score_bids_hd:
  assumes "score_bids a bids = w # rest" "b \<in> set bids"
  shows "rank_key w \<le> rank_key (rank_bid a b)"
  using sort_key_hd_le [OF assms(1) [unfolded score_bids_def], of "rank_bid a b"] assms(2) by simp

lemma score_bids_set: "set (score_bids a bids) = rank_bid a ` set bids"
  by (simp add: score_bids_def)

lemma score_bids_winner:
  assumes "distinct (map rb_bidder_id bids)" "b \<in> set bids"
    and "\<And>c. c \<in> set bids \<Longrightarrow> rank_key (rank_bid a b) \<le> rank_key (rank_bid a c)"
  shows "hd (score_bids a bids) = rank_bid a b"
proof -
  obtain w rest where w: "score_bids a bids = w # rest"
    using assms(2) by (cases "score_bids a bids") (auto simp: score_bids_def simp flip: length_0_conv)
  then have "w \<in> rank_bid a ` set bids" using score_bids_set [of a bids] by auto
  then have "rank_key (rank_bid a b) \<le> rank_key w" using assms(3) by auto
  then have "rank_key w = rank_key (rank_bid a b)"
    using score_bids_hd [OF w assms(2)] by simp
  then show ?thesis
    using rank_key_inj [OF assms(1), of a] \<open>w \<in> rank_bid a ` set bids\<close> assms(2) w by (auto simp: inj_on_def)
qed

text \<open>One bid is at least as good as another in every component.\<close>

definition improves :: "bid_payload \<Rightarrow> bid_payload \<Rightarrow> bool" where
  "improves p' p \<longleftrightarrow> bp_quality p \<le> bp_quality p' \<and> bp_cost p' \<le> bp_cost p \<and> bp_latency_ms p' \<le> bp_latency_ms p \<and>
     bp_confidence p \<le> bp_confidence p' \<and> bp_fairness p \<le> bp_fairness p' \<and> bp_load p' \<le> bp_load p"

lemma total_score_mono:
  assumes "announcement_ok a" "improves p' p"
  shows "total_score a p \<le> total_score a p'"
proof -
  have "cost_score (bp_cost p) (aa_maximum_cost a) \<le> cost_score (bp_cost p') (aa_maximum_cost a)"
    using assms by (intro cost_score_antimono) (auto simp: announcement_ok_def improves_def)
  moreover have "latency_score (bp_latency_ms p) \<le> latency_score (bp_latency_ms p')"
    "max 0 (min 10000 (5000 + bp_fairness p)) \<le> max 0 (min 10000 (5000 + bp_fairness p'))"
    using assms(2) by (auto simp: latency_score_def improves_def)
  ultimately show ?thesis
    using assms unfolding total_score_eq announcement_ok_def weights_ok_def improves_def
    by (intro zdiv_mono1 add_mono mult_right_mono) auto
qed

text \<open>
  Ranking is byte-stable and fair.  For a valid announcement and valid bids from distinct
  bidders, in whatever order the bids arrive the ranking is the same list; every total lies between
  0 and 10000; and the bid ranked first has the greatest total.
\<close>

theorem auction_ranking_stable:
  assumes "announcement_ok a" "\<And>b. b \<in> set bids \<Longrightarrow> payload_ok (rb_payload b)"
    and "distinct (map rb_bidder_id bids)" "mset bids' = mset bids"
  shows "score_bids a bids' = score_bids a bids \<and>
    (\<forall>r \<in> set (score_bids a bids). 0 \<le> rk_total_score r \<and> rk_total_score r \<le> 10000) \<and>
    (\<forall>r \<in> set (score_bids a bids). rk_total_score r \<le> rk_total_score (hd (score_bids a bids)))"
proof (intro conjI ballI)
  have "mset (map (rank_bid a) bids') = mset (map (rank_bid a) bids)" using assms(4) by simp
  moreover have "set bids' = set bids" using assms(4) by (rule mset_eq_setD)
  ultimately show "score_bids a bids' = score_bids a bids"
    using rank_key_inj [OF assms(3), of a] sort_key_inj_key_eq [of "map (rank_bid a) bids'" "sort_key rank_key (map (rank_bid a) bids)" rank_key]
    by (simp add: score_bids_def)
next
  fix r assume "r \<in> set (score_bids a bids)"
  then obtain b where b: "b \<in> set bids" "r = rank_bid a b" by (auto simp: score_bids_set)
  show "0 \<le> rk_total_score r" "rk_total_score r \<le> 10000"
    using total_score_bounds [OF assms(1) assms(2) [OF b(1)]] by (auto simp: b(2) rank_bid_def)
  obtain w rest where w: "score_bids a bids = w # rest" using \<open>r \<in> set (score_bids a bids)\<close> by (cases "score_bids a bids") auto
  from score_bids_hd [OF w b(1)] have "- rk_total_score w \<le> - rk_total_score r"
    unfolding rank_key_def b(2) [symmetric] by (auto simp: less_eq_prod_def less_prod_def)
  then show "rk_total_score r \<le> rk_total_score (hd (score_bids a bids))" using w by simp
qed

definition demo_announcement :: auction_announcement where
  "demo_announcement = \<lparr>aa_auction_id = ''a'', aa_tenant_id = ''t'', aa_work_item_id = ''w'', aa_deadline = 100,
     aa_eligible_bidder_ids = [''b1'', ''b2''], aa_required_capabilities = [''x''], aa_maximum_cost = 3,
     aa_weights = \<lparr>sw_quality = 9000, sw_cost = 0, sw_latency = 0, sw_confidence = 500, sw_fairness = 0,
       sw_load = 500\<rparr>, aa_scoring_policy_version = ''fixed-point-v1''\<rparr>"

definition demo_payload :: "int \<Rightarrow> rat \<Rightarrow> bid_payload" where
  "demo_payload q c = \<lparr>bp_quality = q, bp_cost = c, bp_latency_ms = 100, bp_confidence = 8000, bp_fairness = 0,
     bp_load = 1000, bp_capabilities = [''x''], bp_commitment = ''c''\<rparr>"

definition demo_bid :: "string \<Rightarrow> int \<Rightarrow> rat \<Rightarrow> revealed_bid" where
  "demo_bid i q c = \<lparr>rb_bidder_id = i, rb_version = 1, rb_submitted_at = 50, rb_payload = demo_payload q c\<rparr>"

theorem auction_ranking_stable_witness:
  "score_bids demo_announcement [demo_bid ''b2'' 7000 1, demo_bid ''b1'' 9000 2]
   = score_bids demo_announcement [demo_bid ''b1'' 9000 2, demo_bid ''b2'' 7000 1]"
proof -
  have "announcement_ok demo_announcement" by (simp add: announcement_ok_def weights_ok_def demo_announcement_def)
  moreover have "payload_ok (rb_payload b)" if "b \<in> set [demo_bid ''b1'' 9000 2, demo_bid ''b2'' 7000 1]" for b
    using that by (auto simp: payload_ok_def demo_bid_def demo_payload_def)
  moreover have "distinct (map rb_bidder_id [demo_bid ''b1'' 9000 2, demo_bid ''b2'' 7000 1])"
    by (simp add: demo_bid_def)
  ultimately show ?thesis
    using auction_ranking_stable [of demo_announcement "[demo_bid ''b1'' 9000 2, demo_bid ''b2'' 7000 1]"
        "[demo_bid ''b2'' 7000 1, demo_bid ''b1'' 9000 2]"] by (simp add: add_mset_commute)
qed

text \<open>
  Improving a winning bid keeps it winning.  A bid that wins against given rivals, resubmitted at
  least as good in every component and no later, wins against the same rivals.
\<close>

theorem auction_improved_winner_wins:
  assumes "announcement_ok a" "distinct (map rb_bidder_id (b # rivals))"
    and "rk_bidder_id (hd (score_bids a (b # rivals))) = rb_bidder_id b"
    and "rb_bidder_id b' = rb_bidder_id b" "rb_submitted_at b' \<le> rb_submitted_at b"
    and "improves (rb_payload b') (rb_payload b)"
  shows "hd (score_bids a (b' # rivals)) = rank_bid a b'"
proof -
  obtain w rest where w: "score_bids a (b # rivals) = w # rest"
    by (cases "score_bids a (b # rivals)") (auto simp: score_bids_def simp flip: length_0_conv)
  then have "w \<in> rank_bid a ` set (b # rivals)" using score_bids_set [of a "b # rivals"] by auto
  then obtain c where "c \<in> set (b # rivals)" "w = rank_bid a c" by auto
  moreover from this have "rb_bidder_id c = rb_bidder_id b" using assms(3) w by (simp add: rank_bid_def)
  ultimately have "w = rank_bid a b" using assms(2) by (auto simp: image_iff)
  moreover have "rank_key (rank_bid a b') \<le> rank_key (rank_bid a b)"
    using total_score_mono [OF assms(1,6)] assms(4-6)
    by (auto simp: rank_key_def rank_bid_def improves_def intro: rank_key_pointwise)
  ultimately have "rank_key (rank_bid a b') \<le> rank_key (rank_bid a c)" if "c \<in> set (b' # rivals)" for c
    using that score_bids_hd [OF w, of c] by auto
  then show ?thesis using assms(2,4) by (intro score_bids_winner) auto
qed

theorem auction_improved_winner_wins_witness:
  "hd (score_bids demo_announcement [demo_bid ''b1'' 9500 1, demo_bid ''b2'' 7000 1])
   = rank_bid demo_announcement (demo_bid ''b1'' 9500 1)"
proof -
  have "announcement_ok demo_announcement" by (simp add: announcement_ok_def weights_ok_def demo_announcement_def)
  moreover have "rk_bidder_id (hd (score_bids demo_announcement [demo_bid ''b1'' 9000 2, demo_bid ''b2'' 7000 1])) = ''b1''"
    by (simp add: score_bids_def rank_bid_def rank_key_def total_score_eq demo_announcement_def demo_bid_def demo_payload_def)
  ultimately show ?thesis
    by (intro auction_improved_winner_wins [of demo_announcement "demo_bid ''b1'' 9000 2"])
      (auto simp: demo_bid_def demo_payload_def improves_def)
qed

end
