(* ===== verification/Pattern_State.thy ===== *)
theory Pattern_State
  imports Prelude "HOL-Library.Product_Lexorder"
begin

text \<open>
  The optimistic state repository of the coordination patterns
  (\<open>app/coordination/state_repository.py\<close>), in memory and over the table \<open>strategy_checkpoints\<close>.  The
  JSON text of \<open>state_reference\<close> is represented by the pair it encodes, the idempotency key and the
  state.  A \<open>PatternRecord\<close> has a positive version.
\<close>

record pattern_record =
  pr_tenant_id :: string
  pr_session_id :: string
  pr_execution_id :: string
  pr_state :: json
  pr_version :: int
  pr_idempotency_key :: string

section \<open>In memory\<close>

record mem_patterns =
  pm_records :: "((string \<times> string \<times> string) \<times> pattern_record) list"
  pm_commands :: "string \<times> string \<rightharpoonup> pattern_record"

definition mem_pattern_save :: "pattern_record \<Rightarrow> int \<Rightarrow> (mem_patterns, pattern_record) op" where
  "mem_pattern_save rec expected m =
     (let command = (pr_tenant_id rec, pr_idempotency_key rec) in
      case pm_commands m command of
        Some r \<Rightarrow> (Inr r, m)
      | None \<Rightarrow>
          let key = (pr_tenant_id rec, pr_session_id rec, pr_execution_id rec);
              current = (case map_of (pm_records m) key of None \<Rightarrow> 0 | Some prior \<Rightarrow> pr_version prior)
          in if current \<noteq> expected \<or> pr_version rec \<noteq> current + 1
             then (Inl (OptimisticConflictError expected current), m)
             else (Inr rec, m\<lparr>pm_records := AList.update key rec (pm_records m),
                     pm_commands := (pm_commands m)(command \<mapsto> rec)\<rparr>))"

definition mem_pattern_get :: "string \<Rightarrow> string \<Rightarrow> string \<Rightarrow> mem_patterns \<Rightarrow> pattern_record option" where
  "mem_pattern_get t s e m = map_of (pm_records m) (t, s, e)"

definition mem_list_session :: "string \<Rightarrow> string \<Rightarrow> mem_patterns \<Rightarrow> pattern_record list" where
  "mem_list_session t s m = sort_key pr_execution_id
     (filter (\<lambda>r. pr_tenant_id r = t \<and> pr_session_id r = s) (map snd (pm_records m)))"

section \<open>Over PostgreSQL\<close>

record checkpoint_row =
  ck_id :: string
  ck_tenant_id :: string
  ck_session_id :: string
  ck_execution_id :: string
  ck_sequence :: int
  ck_pattern :: string
  ck_state_reference :: "string \<times> json"
  ck_version :: int

type_synonym checkpoint_table = "checkpoint_row list"

definition command_id :: "(string \<Rightarrow> string \<Rightarrow> string) \<Rightarrow> string \<Rightarrow> string \<Rightarrow> string \<Rightarrow> string" where
  "command_id uuid5 pattern tenant key = uuid5 ''NAMESPACE_URL'' (tenant @ '':'' @ pattern @ '':'' @ key)"

definition decode_checkpoint :: "checkpoint_row \<Rightarrow> pattern_record" where
  "decode_checkpoint r = \<lparr>pr_tenant_id = ck_tenant_id r, pr_session_id = ck_session_id r,
     pr_execution_id = ck_execution_id r, pr_state = snd (ck_state_reference r),
     pr_version = ck_sequence r, pr_idempotency_key = fst (ck_state_reference r)\<rparr>"

text \<open>Primary key, and the unique key of a checkpoint within its execution.\<close>

definition checkpoint_insert_ok :: "checkpoint_row \<Rightarrow> checkpoint_table \<Rightarrow> bool" where
  "checkpoint_insert_ok r rows \<longleftrightarrow> ck_id r \<notin> ck_id ` set rows \<and>
     (ck_tenant_id r, ck_session_id r, ck_pattern r, ck_execution_id r, ck_sequence r)
       \<notin> (\<lambda>r. (ck_tenant_id r, ck_session_id r, ck_pattern r, ck_execution_id r, ck_sequence r)) ` set rows"

definition pg_pattern_save ::
  "bool \<Rightarrow> (string \<Rightarrow> string \<Rightarrow> string) \<Rightarrow> string \<Rightarrow> pattern_record \<Rightarrow> int \<Rightarrow> (checkpoint_table, pattern_record) op" where
  "pg_pattern_save enforced uuid5 pattern rec expected rows =
     (let cid = command_id uuid5 pattern (pr_tenant_id rec) (pr_idempotency_key rec);
          visible = rls_rows enforced ck_tenant_id (pr_tenant_id rec) rows
      in case one_or_none (filter (\<lambda>r. ck_id r = cid) visible) of
           Inl e \<Rightarrow> (Inl e, rows)
         | Inr (Some replay) \<Rightarrow> (Inr (decode_checkpoint replay), rows)
         | Inr None \<Rightarrow>
             let latest = take 1 (sort_key (\<lambda>r. - ck_sequence r)
                   (filter (\<lambda>r. ck_tenant_id r = pr_tenant_id rec \<and> ck_pattern r = pattern \<and>
                      ck_session_id r = pr_session_id rec \<and> ck_execution_id r = pr_execution_id rec) visible));
                 current = (case latest of [] \<Rightarrow> 0 | r # _ \<Rightarrow> ck_sequence r);
                 row = \<lparr>ck_id = cid, ck_tenant_id = pr_tenant_id rec, ck_session_id = pr_session_id rec,
                   ck_execution_id = pr_execution_id rec, ck_sequence = pr_version rec, ck_pattern = pattern,
                   ck_state_reference = (pr_idempotency_key rec, pr_state rec), ck_version = pr_version rec\<rparr>
             in if current \<noteq> expected \<or> pr_version rec \<noteq> current + 1
                then (Inl (OptimisticConflictError expected current), rows)
                else if \<not> checkpoint_insert_ok row rows
                then (Inl (IntegrityError ''strategy_checkpoints''), rows)
                else (Inr rec, rows @ [row]))"

definition pg_pattern_list ::
  "bool \<Rightarrow> string \<Rightarrow> string \<Rightarrow> string \<Rightarrow> string option \<Rightarrow> checkpoint_table \<Rightarrow> pattern_record list" where
  "pg_pattern_list enforced pattern t s e rows = map decode_checkpoint
     (sort_key (\<lambda>r. (ck_execution_id r, - ck_sequence r))
       (filter (\<lambda>r. ck_tenant_id r = t \<and> ck_pattern r = pattern \<and> ck_session_id r = s \<and>
           (case e of None \<Rightarrow> True | Some e \<Rightarrow> ck_execution_id r = e))
         (rls_rows enforced ck_tenant_id t rows)))"

definition pg_pattern_get ::
  "bool \<Rightarrow> string \<Rightarrow> string \<Rightarrow> string \<Rightarrow> string \<Rightarrow> checkpoint_table \<Rightarrow> pattern_record option" where
  "pg_pattern_get enforced pattern t s e rows =
     (case pg_pattern_list enforced pattern t s (Some e) rows of [] \<Rightarrow> None | r # _ \<Rightarrow> Some r)"

text \<open>\<open>latest.setdefault(record.execution_id, record)\<close> over the records in order.\<close>

fun setdefault_all :: "pattern_record list \<Rightarrow> (string \<times> pattern_record) list \<Rightarrow> (string \<times> pattern_record) list" where
  "setdefault_all [] d = d"
| "setdefault_all (r # rs) d =
     setdefault_all rs (if pr_execution_id r \<in> fst ` set d then d else d @ [(pr_execution_id r, r)])"

definition pg_list_session ::
  "bool \<Rightarrow> string \<Rightarrow> string \<Rightarrow> string \<Rightarrow> checkpoint_table \<Rightarrow> pattern_record list" where
  "pg_list_session enforced pattern t s rows =
     (let latest = setdefault_all (pg_pattern_list enforced pattern t s None rows) []
      in map (\<lambda>k. the (map_of latest k)) (sort (map fst latest)))"

section \<open>Commands\<close>

datatype pattern_command = Save pattern_record int | Get string string string | ListSession string string

datatype pattern_reply = Saved "pattern_record result" | Got "pattern_record option" | Listed "pattern_record list"

fun mem_pattern_step :: "pattern_command \<Rightarrow> mem_patterns \<Rightarrow> pattern_reply \<times> mem_patterns" where
  "mem_pattern_step (Save r v) m = map_prod Saved id (mem_pattern_save r v m)"
| "mem_pattern_step (Get t s e) m = (Got (mem_pattern_get t s e m), m)"
| "mem_pattern_step (ListSession t s) m = (Listed (mem_list_session t s m), m)"

fun pg_pattern_step :: "bool \<Rightarrow> (string \<Rightarrow> string \<Rightarrow> string) \<Rightarrow> string \<Rightarrow> pattern_command \<Rightarrow>
    checkpoint_table \<Rightarrow> pattern_reply \<times> checkpoint_table" where
  "pg_pattern_step b u p (Save r v) rows = map_prod Saved id (pg_pattern_save b u p r v rows)"
| "pg_pattern_step b u p (Get t s e) rows = (Got (pg_pattern_get b p t s e rows), rows)"
| "pg_pattern_step b u p (ListSession t s) rows = (Listed (pg_list_session b p t s rows), rows)"

text \<open>The table is shared by the patterns; each pattern has an in-memory repository of its own.\<close>

definition mem_family_step :: "string \<times> pattern_command \<Rightarrow> (string \<Rightarrow> mem_patterns) \<Rightarrow>
    pattern_reply \<times> (string \<Rightarrow> mem_patterns)" where
  "mem_family_step c m = map_prod id (\<lambda>x. m(fst c := x)) (mem_pattern_step (snd c) (m (fst c)))"

definition pg_family_step :: "bool \<Rightarrow> (string \<Rightarrow> string \<Rightarrow> string) \<Rightarrow> string \<times> pattern_command \<Rightarrow>
    checkpoint_table \<Rightarrow> pattern_reply \<times> checkpoint_table" where
  "pg_family_step b u c rows = pg_pattern_step b u (fst c) (snd c) rows"

definition no_patterns :: mem_patterns where
  "no_patterns = \<lparr>pm_records = [], pm_commands = (\<lambda>_. None)\<rparr>"

section \<open>Lookups\<close>

definition exec_rows :: "string \<Rightarrow> string \<times> string \<times> string \<Rightarrow> checkpoint_table \<Rightarrow> checkpoint_table" where
  "exec_rows p k rows = filter (\<lambda>r. ck_tenant_id r = fst k \<and> ck_pattern r = p \<and>
     ck_session_id r = fst (snd k) \<and> ck_execution_id r = snd (snd k)) rows"

definition latest_row :: "string \<Rightarrow> string \<times> string \<times> string \<Rightarrow> checkpoint_table \<Rightarrow> checkpoint_row option" where
  "latest_row p k rows = (case sort_key (\<lambda>r. - ck_sequence r) (exec_rows p k rows) of [] \<Rightarrow> None | r # _ \<Rightarrow> Some r)"

definition row_at :: "string \<Rightarrow> checkpoint_table \<Rightarrow> checkpoint_row option" where
  "row_at i rows = find (\<lambda>r. ck_id r = i) rows"

lemma latest_row_Some:
  assumes "latest_row p k rows = Some r"
  shows "r \<in> set (exec_rows p k rows)" "\<And>r'. r' \<in> set (exec_rows p k rows) \<Longrightarrow> ck_sequence r' \<le> ck_sequence r"
proof -
  obtain rs where s: "sort_key (\<lambda>r. - ck_sequence r) (exec_rows p k rows) = r # rs"
    using assms by (auto simp: latest_row_def split: list.splits)
  then show "r \<in> set (exec_rows p k rows)" by (metis list.set_intros(1) set_sort)
  show "\<And>r'. r' \<in> set (exec_rows p k rows) \<Longrightarrow> ck_sequence r' \<le> ck_sequence r"
    using sort_key_hd_le [OF s] by fastforce
qed

lemma latest_row_None: "latest_row p k rows = None \<longleftrightarrow> exec_rows p k rows = []"
  by (auto simp: latest_row_def split: list.splits dest: arg_cong [of _ _ set] arg_cong [of _ _ length])

lemma latest_row_append:
  assumes "\<And>r'. r' \<in> set (exec_rows p k rows) \<Longrightarrow> ck_sequence r' < ck_sequence r"
  shows "latest_row p k (rows @ [r]) = (if exec_rows p k [r] = [r] then Some r else latest_row p k rows)"
  using assms sort_key_snoc_least [of "exec_rows p k rows" "\<lambda>r. - ck_sequence r" r]
  by (auto simp: latest_row_def exec_rows_def)

lemma exec_rows_key: "r \<in> set (exec_rows p k rows) \<Longrightarrow>
    r \<in> set rows \<and> k = (ck_tenant_id r, ck_session_id r, ck_execution_id r) \<and> ck_pattern r = p"
  by (cases k) (auto simp: exec_rows_def)

section \<open>The simulation\<close>

definition plain :: "string \<Rightarrow> bool" where
  "plain s \<longleftrightarrow> CHR '':'' \<notin> set s"

fun pattern_command_ok :: "string \<times> pattern_command \<Rightarrow> bool" where
  "pattern_command_ok (p, Save r v) = (plain p \<and> plain (pr_tenant_id r) \<and> 0 < pr_version r)"
| "pattern_command_ok (p, _) = True"

definition checkpoints_ok :: "(string \<Rightarrow> string \<Rightarrow> string) \<Rightarrow> checkpoint_table \<Rightarrow> bool" where
  "checkpoints_ok u rows \<longleftrightarrow> distinct (map ck_id rows) \<and>
     (\<forall>r \<in> set rows. ck_id r = command_id u (ck_pattern r) (ck_tenant_id r) (fst (ck_state_reference r)) \<and>
        plain (ck_pattern r) \<and> plain (ck_tenant_id r))"

definition simulates :: "(string \<Rightarrow> string \<Rightarrow> string) \<Rightarrow> checkpoint_table \<Rightarrow> (string \<Rightarrow> mem_patterns) \<Rightarrow> bool" where
  "simulates u rows m \<longleftrightarrow> checkpoints_ok u rows \<and>
     (\<forall>p k. map_of (pm_records (m p)) k = map_option decode_checkpoint (latest_row p k rows)) \<and>
     (\<forall>p t i. plain p \<longrightarrow> plain t \<longrightarrow>
        pm_commands (m p) (t, i) = map_option decode_checkpoint (row_at (command_id u p t i) rows)) \<and>
     (\<forall>p. distinct (map fst (pm_records (m p))))"

lemma command_id_inj:
  assumes "inj (u ''NAMESPACE_URL'')" "plain p" "plain t" "plain p'" "plain t'"
  shows "command_id u p t i = command_id u p' t' i' \<longleftrightarrow> p = p' \<and> t = t' \<and> i = i'"
  using assms separator_split [of "CHR '':''"] by (auto simp: command_id_def inj_eq plain_def)

lemma replay_query:
  assumes inj: "inj (u ''NAMESPACE_URL'')" and ok: "checkpoints_ok u rows" and plain: "plain p" "plain t"
  shows "one_or_none (filter (\<lambda>r. ck_id r = command_id u p t i) (rls_rows b ck_tenant_id t rows))
    = Inr (row_at (command_id u p t i) rows)"
proof -
  have "ck_tenant_id r = t" if "r \<in> set rows" "ck_id r = command_id u p t i" for r
    using command_id_inj [of u "ck_pattern r" "ck_tenant_id r" p t, OF inj] ok plain that
    by (auto simp: checkpoints_ok_def)
  then have "filter (\<lambda>r. ck_id r = command_id u p t i) (rls_rows b ck_tenant_id t rows)
      = filter (\<lambda>r. ck_id r = command_id u p t i) rows"
    by (auto simp: rls_rows_def intro: filter_cong)
  then show ?thesis
    using one_or_none_key [of ck_id rows] ok by (simp add: row_at_def checkpoints_ok_def)
qed

lemma save_simulates:
  assumes inj: "inj (u ''NAMESPACE_URL'')" and sim: "simulates u rows m"
    and ok: "plain p" "plain (pr_tenant_id r)"
  shows "fst (pg_pattern_save b u p r v rows) = fst (mem_pattern_save r v (m p)) \<and>
    simulates u (snd (pg_pattern_save b u p r v rows)) (m(p := snd (mem_pattern_save r v (m p))))"
proof -
  let ?t = "pr_tenant_id r" and ?i = "pr_idempotency_key r"
  let ?k = "(pr_tenant_id r, pr_session_id r, pr_execution_id r)"
  let ?cid = "command_id u p ?t ?i"
  define current where "current = (case latest_row p ?k rows of None \<Rightarrow> 0 | Some r \<Rightarrow> ck_sequence r)"
  define row where "row = \<lparr>ck_id = ?cid, ck_tenant_id = ?t, ck_session_id = pr_session_id r,
    ck_execution_id = pr_execution_id r, ck_sequence = pr_version r, ck_pattern = p,
    ck_state_reference = (?i, pr_state r), ck_version = pr_version r\<rparr>"
  have cok: "checkpoints_ok u rows" using sim by (simp add: simulates_def)
  note query = replay_query [OF inj cok ok, of ?i b]
  have cmd: "pm_commands (m p) (?t, ?i) = map_option decode_checkpoint (row_at ?cid rows)"
    using sim ok by (simp add: simulates_def)
  have mem_current: "(case map_of (pm_records (m p)) ?k of None \<Rightarrow> 0 | Some q \<Rightarrow> pr_version q) = current"
    using sim by (auto simp: simulates_def current_def decode_checkpoint_def split: option.splits)
  have pg_current: "(case take 1 (sort_key (\<lambda>r. - ck_sequence r) (filter (\<lambda>x. ck_tenant_id x = ?t \<and> ck_pattern x = p \<and>
      ck_session_id x = pr_session_id r \<and> ck_execution_id x = pr_execution_id r) (rls_rows b ck_tenant_id ?t rows)))
      of [] \<Rightarrow> 0 | r # _ \<Rightarrow> ck_sequence r) = current"
    by (simp add: current_def latest_row_def exec_rows_def split: list.splits)
  have pg: "pg_pattern_save b u p r v rows = (case row_at ?cid rows of
      Some q \<Rightarrow> (Inr (decode_checkpoint q), rows)
    | None \<Rightarrow> if current \<noteq> v \<or> pr_version r \<noteq> current + 1 then (Inl (OptimisticConflictError v current), rows)
        else if \<not> checkpoint_insert_ok row rows then (Inl (IntegrityError ''strategy_checkpoints''), rows)
        else (Inr r, rows @ [row]))"
    unfolding pg_pattern_save_def Let_def pg_current query row_def by (simp split: option.splits)
  have mem: "mem_pattern_save r v (m p) = (case row_at ?cid rows of
      Some q \<Rightarrow> (Inr (decode_checkpoint q), m p)
    | None \<Rightarrow> if current \<noteq> v \<or> pr_version r \<noteq> current + 1 then (Inl (OptimisticConflictError v current), m p)
        else (Inr r, (m p)\<lparr>pm_records := AList.update ?k r (pm_records (m p)),
               pm_commands := (pm_commands (m p))((?t, ?i) \<mapsto> r)\<rparr>))"
    unfolding mem_pattern_save_def Let_def mem_current cmd by (simp split: option.splits)
  show ?thesis
  proof (cases "row_at ?cid rows = None \<and> current = v \<and> pr_version r = current + 1")
    case False
    then show ?thesis using sim by (auto simp: pg mem split: option.splits)
  next
    case True
    have above: "ck_sequence r' < ck_sequence row" if "r' \<in> set (exec_rows p ?k rows)" for r'
      using that True latest_row_Some(2) [of p ?k rows _ r'] latest_row_None [of p ?k rows]
      by (cases "latest_row p ?k rows") (auto simp: current_def row_def)
    have fresh: "?cid \<notin> ck_id ` set rows" using True by (auto simp: row_at_def find_None_iff)
    have "checkpoint_insert_ok row rows"
      using fresh above by (force simp: checkpoint_insert_ok_def row_def exec_rows_def)
    then have pgr: "pg_pattern_save b u p r v rows = (Inr r, rows @ [row])" using True by (simp add: pg)
    have memr: "mem_pattern_save r v (m p) = (Inr r, (m p)\<lparr>pm_records := AList.update ?k r (pm_records (m p)),
        pm_commands := (pm_commands (m p))((?t, ?i) \<mapsto> r)\<rparr>)" using True by (simp add: mem)
    have dec: "decode_checkpoint row = r" by (simp add: decode_checkpoint_def row_def)
    have ok': "checkpoints_ok u (rows @ [row])"
      using cok fresh ok by (auto simp: checkpoints_ok_def row_def)
    have lat: "latest_row q k (rows @ [row]) = (if q = p \<and> k = ?k then Some row else latest_row q k rows)" for q k
    proof (cases "q = p \<and> k = ?k")
      case True
      then show ?thesis using latest_row_append [OF above] by (simp add: exec_rows_def row_def)
    next
      case False
      then have "exec_rows q k [row] = []" by (cases k) (auto simp: exec_rows_def row_def)
      then show ?thesis using False by (auto simp: latest_row_def exec_rows_def)
    qed
    have at: "row_at (command_id u q t i) (rows @ [row]) =
        (if q = p \<and> t = ?t \<and> i = ?i then Some row else row_at (command_id u q t i) rows)"
      if "plain q" "plain t" for q t i
      using True fresh command_id_inj [where u = u, OF inj ok that]
      by (auto simp: row_at_def find_append row_def split: option.splits)
    have "simulates u (rows @ [row]) (m(p := (m p)\<lparr>pm_records := AList.update ?k r (pm_records (m p)),
        pm_commands := (pm_commands (m p))((?t, ?i) \<mapsto> r)\<rparr>))"
      using sim ok' unfolding simulates_def by (auto simp: lat at dec)
    then show ?thesis by (simp add: pgr memr)
  qed
qed

section \<open>Reads\<close>

lemma setdefault_all_lookup:
  "map_of (setdefault_all rs d) k = (case map_of d k of Some r \<Rightarrow> Some r | None \<Rightarrow> find (\<lambda>r. pr_execution_id r = k) rs)"
proof (induction rs arbitrary: d)
  case (Cons r rs)
  show ?case
  proof (cases "pr_execution_id r \<in> fst ` set d")
    case True
    then have "map_of d (pr_execution_id r) \<noteq> None" by (simp add: map_of_eq_None_iff)
    with True show ?thesis using Cons.IH [of d] by (auto split: option.splits)
  next
    case False
    then have "map_of d (pr_execution_id r) = None" by (simp add: map_of_eq_None_iff)
    with False show ?thesis
      using Cons.IH [of "d @ [(pr_execution_id r, r)]"] by (auto simp: map_add_def split: option.splits)
  qed
qed (simp split: option.splits)

lemma setdefault_all_distinct: "distinct (map fst d) \<Longrightarrow> distinct (map fst (setdefault_all rs d))"
  by (induction rs arbitrary: d) auto

text \<open>The first record of an execution in the ordered listing is its latest checkpoint.\<close>

lemma list_first:
  "find (\<lambda>r. pr_execution_id r = e) (pg_pattern_list b p t s None rows)
    = map_option decode_checkpoint (latest_row p (t, s, e) rows)"
proof -
  let ?f = "\<lambda>r. (ck_execution_id r, - ck_sequence r)"
  let ?rows = "filter (\<lambda>r. ck_tenant_id r = t \<and> ck_pattern r = p \<and> ck_session_id r = s) rows"
  have find: "find P xs = (case filter P xs of [] \<Rightarrow> None | x # _ \<Rightarrow> Some x)" for P and xs :: "'b list"
    by (induction xs) auto
  have "find (\<lambda>r. pr_execution_id r = e) (pg_pattern_list b p t s None rows)
      = map_option decode_checkpoint (find (\<lambda>r. ck_execution_id r = e) (sort_key ?f ?rows))"
  proof -
    have "find (\<lambda>r. pr_execution_id r = e) (map decode_checkpoint xs)
        = map_option decode_checkpoint (find (\<lambda>r. ck_execution_id r = e) xs)" for xs
      by (induction xs) (auto simp: decode_checkpoint_def)
    then show ?thesis by (simp add: pg_pattern_list_def)
  qed
  moreover have "filter (\<lambda>r. ck_execution_id r = e) (sort_key ?f ?rows) = sort_key ?f (exec_rows p (t, s, e) rows)"
    by (simp add: filter_sort exec_rows_def conj_commute conj_left_commute)
  moreover have "sort_key ?f (exec_rows p (t, s, e) rows) = sort_key (\<lambda>r. - ck_sequence r) (exec_rows p (t, s, e) rows)"
    by (rule sort_key_cong_order) (auto simp: exec_rows_def less_eq_prod_def)
  ultimately show ?thesis by (simp add: find latest_row_def split: list.splits)
qed

lemma pg_get_latest: "pg_pattern_get b p t s e rows = map_option decode_checkpoint (latest_row p (t, s, e) rows)"
proof -
  have "sort_key (\<lambda>r. (ck_execution_id r, - ck_sequence r)) (exec_rows p (t, s, e) rows)
      = sort_key (\<lambda>r. - ck_sequence r) (exec_rows p (t, s, e) rows)"
    by (rule sort_key_cong_order) (auto simp: exec_rows_def less_eq_prod_def)
  then show ?thesis
    by (simp add: pg_pattern_get_def pg_pattern_list_def latest_row_def exec_rows_def split: list.splits)
qed

lemma list_simulates:
  assumes sim: "simulates u rows m"
  shows "pg_list_session b p t s rows = mem_list_session t s (m p)"
proof -
  let ?d = "setdefault_all (pg_pattern_list b p t s None rows) []"
  let ?look = "\<lambda>e. map_option decode_checkpoint (latest_row p (t, s, e) rows)"
  let ?xs = "filter (\<lambda>r. pr_tenant_id r = t \<and> pr_session_id r = s) (map snd (pm_records (m p)))"
  have records: "map_of (pm_records (m p)) k = map_option decode_checkpoint (latest_row p k rows)" for k
    using sim unfolding simulates_def by blast
  have keys: "k = (pr_tenant_id r, pr_session_id r, pr_execution_id r)" if "(k, r) \<in> set (pm_records (m p))" for k r
  proof -
    have "map_of (pm_records (m p)) k = Some r"
      using that sim by (simp add: simulates_def)
    then obtain q where "latest_row p k rows = Some q" "r = decode_checkpoint q" using records [of k] by auto
    then show ?thesis using exec_rows_key [OF latest_row_Some(1)] by (auto simp: decode_checkpoint_def)
  qed
  have look: "?look (pr_execution_id r) = Some r" if "r \<in> set ?xs" for r
  proof -
    from that obtain k where k: "(k, r) \<in> set (pm_records (m p))" "pr_tenant_id r = t" "pr_session_id r = s"
      by (auto simp del: split_paired_Ex)
    have "map_of (pm_records (m p)) k = Some r" using k(1) sim by (simp add: simulates_def)
    then show ?thesis using keys [OF k(1)] k(2,3) records [of k] by simp
  qed
  have dist: "distinct (map pr_execution_id ?xs)"
  proof -
    have "inj_on snd (set (pm_records (m p)))"
      by (rule inj_onI) (metis keys prod.collapse)
    then have "distinct (map snd (pm_records (m p)))"
      using sim by (simp add: distinct_map simulates_def)
    moreover have "inj_on pr_execution_id (set ?xs)"
    proof (rule inj_onI)
      fix x y assume xy: "x \<in> set ?xs" "y \<in> set ?xs" "pr_execution_id x = pr_execution_id y"
      have "Some x = ?look (pr_execution_id x)" by (rule look [OF xy(1), symmetric])
      also have "\<dots> = ?look (pr_execution_id y)" by (simp only: xy(3))
      also have "\<dots> = Some y" by (rule look [OF xy(2)])
      finally show "x = y" by (rule option.inject [THEN iffD1])
    qed
    ultimately show ?thesis by (simp add: distinct_map distinct_map_filter)
  qed
  have mem_set: "pr_execution_id ` set ?xs = {e. ?look e \<noteq> None}"
  proof (intro set_eqI iffI)
    fix e assume "e \<in> {e. ?look e \<noteq> None}"
    then obtain r where "map_of (pm_records (m p)) (t, s, e) = Some r" using records by auto
    then show "e \<in> pr_execution_id ` set ?xs" using keys [of "(t, s, e)" r] by (force dest: map_of_SomeD)
  qed (use look in auto)
  have d_look: "map_of ?d e = ?look e" for e by (simp add: setdefault_all_lookup list_first)
  have "fst ` set ?d = {e. ?look e \<noteq> None}"
    unfolding dom_map_of_conv_image_fst [symmetric] dom_def d_look by (rule refl)
  moreover have "sort (map fst ?d) = sorted_list_of_set (fst ` set ?d)"
    using setdefault_all_distinct [of "[]"] sorted_list_of_set_sort_remdups [of "map fst ?d"]
    by (simp add: distinct_remdups_id)
  ultimately have "pg_list_session b p t s rows = map (\<lambda>e. the (?look e)) (sorted_list_of_set {e. ?look e \<noteq> None})"
    by (simp add: pg_list_session_def Let_def d_look)
  moreover have "mem_list_session t s (m p) = map (\<lambda>e. the (?look e)) (sorted_list_of_set {e. ?look e \<noteq> None})"
    using sorted_by_lookup [of pr_execution_id "sort_key pr_execution_id ?xs" ?look] dist look mem_set
    by (simp add: mem_list_session_def distinct_map)
  ultimately show ?thesis by simp
qed

text \<open>
  C20: the checkpoint table implements one in-memory repository per pattern.  For every interleaving of
  saves, reads and listings of any number of patterns over the one table (with row-level security
  enforced or bypassed), starting empty, each command returns what it returns on its pattern's own
  in-memory repository: versions advance by one, a repeated idempotency key returns the recorded
  state, and no pattern sees another's executions.
\<close>

theorem patterns_refine_memory:
  assumes "inj (u ''NAMESPACE_URL'')" "list_all pattern_command_ok cs"
  shows "trace_ops (pg_family_step enforced u) [] cs = trace_ops mem_family_step (\<lambda>_. no_patterns) cs"
proof -
  have start: "simulates u [] (\<lambda>_. no_patterns)"
    by (simp add: simulates_def checkpoints_ok_def no_patterns_def latest_row_def exec_rows_def row_at_def)
  have step: "fst (pg_family_step enforced u c rows) = fst (mem_family_step c m) \<and>
      simulates u (snd (pg_family_step enforced u c rows)) (snd (mem_family_step c m))"
    if "simulates u rows m" "pattern_command_ok c" for c rows m
  proof (cases c)
    case (Pair p cmd)
    show ?thesis
    proof (cases cmd)
      case (Save r v)
      with Pair that save_simulates [OF assms(1) that(1), of p r enforced v] show ?thesis
        by (simp add: pg_family_step_def mem_family_step_def)
    next
      case (Get t s e)
      with Pair that(1) show ?thesis
        by (simp add: pg_family_step_def mem_family_step_def pg_get_latest mem_pattern_get_def simulates_def)
    next
      case (ListSession t s)
      with Pair that(1) list_simulates [OF that(1), of enforced p t s] show ?thesis
        by (simp add: pg_family_step_def mem_family_step_def)
    qed
  qed
  from related_runs [where R = "simulates u" and f = "pg_family_step enforced u" and g = mem_family_step
      and ok = pattern_command_ok, OF step start assms(2)]
  show ?thesis by simp
qed

definition demo_record :: "string \<Rightarrow> int \<Rightarrow> string \<Rightarrow> pattern_record" where
  "demo_record e v k = \<lparr>pr_tenant_id = ''t'', pr_session_id = ''s'', pr_execution_id = e, pr_state = JInt v,
     pr_version = v, pr_idempotency_key = k\<rparr>"

theorem patterns_refine_memory_witness:
  "trace_ops (pg_family_step False (\<lambda>ns n. n)) []
     [(''swarm'', Save (demo_record ''e'' 1 ''k1'') 0), (''moa'', Save (demo_record ''e'' 1 ''k1'') 0),
      (''swarm'', Save (demo_record ''e'' 2 ''k2'') 1), (''swarm'', ListSession ''t'' ''s'')]
   = trace_ops mem_family_step (\<lambda>_. no_patterns)
     [(''swarm'', Save (demo_record ''e'' 1 ''k1'') 0), (''moa'', Save (demo_record ''e'' 1 ''k1'') 0),
      (''swarm'', Save (demo_record ''e'' 2 ''k2'') 1), (''swarm'', ListSession ''t'' ''s'')]"
  by (rule patterns_refine_memory) (auto simp: demo_record_def plain_def inj_def)

end
