(* ===== verification/Auction_Intake.thy ===== *)
theory Auction_Intake
  imports Auction_Scoring Pattern_State
begin

text \<open>
  Stores of the sealed-bid auction: the allocator (\<open>allocator.py\<close>), the sealed-bid inbox
  (\<open>repository.py\<close>) and the auction registry (\<open>registry.py\<close>), in memory and over PostgreSQL.  The
  digest (\<open>sha256\<close>) and \<open>uuid5\<close> are parameters; clock readings are arguments.
\<close>

section \<open>The allocator\<close>

record allocation =
  al_tenant_id :: string
  al_auction_id :: string
  al_work_item_id :: string
  al_winner_agent_id :: string
  al_fencing_token :: int
  al_lease_expires_at :: instant
  al_fairness_adjustment :: rat
  al_explanation :: "(string \<times> int) list \<times> int"
  al_state :: string
  al_outcome_reference :: "string option"

record allocator =
  ac_allocations :: "string \<times> string \<rightharpoonup> allocation"
  ac_commands :: "string \<times> string \<rightharpoonup> allocation"

definition new_allocator :: allocator where
  "new_allocator = \<lparr>ac_allocations = (\<lambda>_. None), ac_commands = (\<lambda>_. None)\<rparr>"

definition allocate ::
  "string \<Rightarrow> string \<Rightarrow> string \<Rightarrow> string \<Rightarrow> rat \<Rightarrow> (string \<times> int) list \<times> int \<Rightarrow> instant \<Rightarrow> string \<Rightarrow>
   (allocator, allocation) op" where
  "allocate tenant auction work winner fairness explanation lease_expires_at key a =
     (case ac_commands a (tenant, key) of
        Some al \<Rightarrow> (Inr al, a)
      | None \<Rightarrow>
          (case ac_allocations a (tenant, auction) of
             Some _ \<Rightarrow> (Inl (ValueError ''auction is already allocated''), a)
           | None \<Rightarrow>
               let al = \<lparr>al_tenant_id = tenant, al_auction_id = auction, al_work_item_id = work,
                     al_winner_agent_id = winner, al_fencing_token = 1, al_lease_expires_at = lease_expires_at,
                     al_fairness_adjustment = fairness, al_explanation = explanation,
                     al_state = ''allocated'', al_outcome_reference = None\<rparr>
               in (Inr al, a\<lparr>ac_allocations := (ac_allocations a)((tenant, auction) \<mapsto> al),
                     ac_commands := (ac_commands a)((tenant, key) \<mapsto> al)\<rparr>)))"

definition settle ::
  "string \<Rightarrow> string \<Rightarrow> string \<Rightarrow> int \<Rightarrow> string \<Rightarrow> string \<Rightarrow> (allocator, allocation) op" where
  "settle tenant auction winner token outcome key a =
     (case ac_commands a (tenant, key) of
        Some al \<Rightarrow> (Inr al, a)
      | None \<Rightarrow>
          (case ac_allocations a (tenant, auction) of
             None \<Rightarrow> (Inl (StaleWinnerError ''stale auction winner''), a)
           | Some current \<Rightarrow>
               if al_winner_agent_id current \<noteq> winner \<or> al_fencing_token current \<noteq> token
               then (Inl (StaleWinnerError ''stale auction winner''), a)
               else if al_state current = ''settled'' then (Inl (ValueError ''allocation already settled''), a)
               else let al = current\<lparr>al_state := ''settled'', al_outcome_reference := Some outcome\<rparr>
                    in (Inr al, a\<lparr>ac_allocations := (ac_allocations a)((tenant, auction) \<mapsto> al),
                          ac_commands := (ac_commands a)((tenant, key) \<mapsto> al)\<rparr>)))"

datatype allocator_command =
    Allocate string string string string rat "(string \<times> int) list \<times> int" instant string
  | Settle string string string int string string

fun allocator_step :: "allocator_command \<Rightarrow> (allocator, allocation) op" where
  "allocator_step (Allocate t a w ag f ex lx k) = allocate t a w ag f ex lx k"
| "allocator_step (Settle t a ag tok out k) = settle t a ag tok out k"

section \<open>The sealed-bid inbox\<close>

record sealed_receipt =
  sb_tenant_id :: string
  sb_session_id :: string
  sb_bidder_id :: string
  sb_bid_version :: int
  sb_envelope_digest :: string
  sb_submitted_at :: instant
  sb_idempotency_key :: string

record sealed_envelope =
  se_bidder_digest :: string
  se_bid_version :: int
  se_ciphertext :: string
  se_nonce :: string
  se_signature :: string
  se_submitted_at :: instant

record bid_submission =
  bs_tenant_id :: string
  bs_session_id :: string
  bs_bidder_id :: string
  bs_bid_version :: int
  bs_ciphertext :: string
  bs_nonce :: string
  bs_signature :: string
  bs_idempotency_key :: string
  bs_auction_id :: "string option"

definition bid_auction :: "bid_submission \<Rightarrow> string" where
  "bid_auction b = str_or (bs_auction_id b) (bs_session_id b)"

definition envelope_digest :: "(string \<Rightarrow> string) \<Rightarrow> bid_submission \<Rightarrow> string" where
  "envelope_digest sha256 b = sha256 (bs_ciphertext b @ '':'' @ bs_nonce b @ '':'' @ bs_signature b)"

definition receipt_of :: "(string \<Rightarrow> string) \<Rightarrow> instant \<Rightarrow> bid_submission \<Rightarrow> sealed_receipt" where
  "receipt_of sha256 now b = \<lparr>sb_tenant_id = bs_tenant_id b, sb_session_id = bs_session_id b,
     sb_bidder_id = bs_bidder_id b, sb_bid_version = bs_bid_version b,
     sb_envelope_digest = envelope_digest sha256 b, sb_submitted_at = now,
     sb_idempotency_key = bs_idempotency_key b\<rparr>"

definition envelope_of :: "(string \<Rightarrow> string) \<Rightarrow> instant \<Rightarrow> bid_submission \<Rightarrow> sealed_envelope" where
  "envelope_of sha256 now b = \<lparr>se_bidder_digest = sha256 (bs_bidder_id b), se_bid_version = bs_bid_version b,
     se_ciphertext = bs_ciphertext b, se_nonce = bs_nonce b, se_signature = bs_signature b,
     se_submitted_at = now\<rparr>"

record mem_inbox =
  ib_receipts :: "((string \<times> string) \<times> sealed_receipt) list"
  ib_versions :: "string \<times> string \<times> string \<rightharpoonup> int"
  ib_envelopes :: "string \<times> string \<Rightarrow> sealed_envelope list"

text \<open>\<open>SealedBidReceipt\<close> refuses a version that is not positive.\<close>

definition mem_submit :: "(string \<Rightarrow> string) \<Rightarrow> instant \<Rightarrow> bid_submission \<Rightarrow> (mem_inbox, sealed_receipt) op" where
  "mem_submit sha256 now b ib =
     (let command = (bs_tenant_id b, bs_idempotency_key b); auction = bid_auction b;
          bidder = (bs_tenant_id b, auction, bs_bidder_id b)
      in case map_of (ib_receipts ib) command of
           Some r \<Rightarrow> (Inr r, ib)
         | None \<Rightarrow>
             if bs_bid_version b \<le> (case ib_versions ib bidder of None \<Rightarrow> 0 | Some v \<Rightarrow> v)
             then (Inl (ValueError ''bid version must increase''), ib)
             else let receipt = receipt_of sha256 now b
                  in (Inr receipt, ib\<lparr>ib_versions := (ib_versions ib)(bidder \<mapsto> bs_bid_version b),
                        ib_receipts := ib_receipts ib @ [(command, receipt)],
                        ib_envelopes := (ib_envelopes ib)((bs_tenant_id b, auction) :=
                          ib_envelopes ib (bs_tenant_id b, auction) @ [envelope_of sha256 now b])\<rparr>))"

definition mem_envelopes :: "string \<Rightarrow> string \<Rightarrow> mem_inbox \<Rightarrow> sealed_envelope list" where
  "mem_envelopes t a ib = ib_envelopes ib (t, a)"

definition mem_bid_count :: "string \<Rightarrow> string \<Rightarrow> mem_inbox \<Rightarrow> nat" where
  "mem_bid_count t s ib =
     length (filter (\<lambda>r. sb_tenant_id r = t \<and> sb_session_id r = s) (map snd (ib_receipts ib)))"

record bid_row =
  bd_id :: string
  bd_tenant_id :: string
  bd_work_item_id :: string
  bd_bidder_agent_id :: string
  bd_auction_id :: string
  bd_bid_version :: int
  bd_sealed_payload :: string
  bd_nonce :: string
  bd_signature :: string
  bd_commitment :: string
  bd_created_at :: instant

definition bid_command_id :: "(string \<Rightarrow> string \<Rightarrow> string) \<Rightarrow> string \<Rightarrow> string \<Rightarrow> string" where
  "bid_command_id uuid5 tenant key = uuid5 ''NAMESPACE_URL'' (''sealed-bid:'' @ tenant @ '':'' @ key)"

definition receipt_of_row :: "bid_row \<Rightarrow> string \<Rightarrow> string \<Rightarrow> sealed_receipt" where
  "receipt_of_row r bidder key = \<lparr>sb_tenant_id = bd_tenant_id r, sb_session_id = bd_work_item_id r,
     sb_bidder_id = bidder, sb_bid_version = bd_bid_version r, sb_envelope_digest = bd_commitment r,
     sb_submitted_at = bd_created_at r, sb_idempotency_key = key\<rparr>"

definition max_version :: "bid_row list \<Rightarrow> int option" where
  "max_version rows = (case map bd_bid_version rows of [] \<Rightarrow> None | v # vs \<Rightarrow> Some (fold max vs v))"

definition pg_submit ::
  "bool \<Rightarrow> (string \<Rightarrow> string \<Rightarrow> string) \<Rightarrow> (string \<Rightarrow> string) \<Rightarrow> instant \<Rightarrow> bid_submission \<Rightarrow>
   (bid_row list, sealed_receipt) op" where
  "pg_submit enforced uuid5 sha256 now b rows =
     (let cid = bid_command_id uuid5 (bs_tenant_id b) (bs_idempotency_key b);
          visible = rls_rows enforced bd_tenant_id (bs_tenant_id b) rows
      in case one_or_none (filter (\<lambda>r. bd_id r = cid) visible) of
           Inl e \<Rightarrow> (Inl e, rows)
         | Inr (Some prior) \<Rightarrow> (Inr (receipt_of_row prior (bs_bidder_id b) (bs_idempotency_key b)), rows)
         | Inr None \<Rightarrow>
             let latest = max_version (filter (\<lambda>r. bd_tenant_id r = bs_tenant_id b \<and>
                   bd_auction_id r = bid_auction b \<and> bd_bidder_agent_id r = sha256 (bs_bidder_id b)) visible);
                 row = \<lparr>bd_id = cid, bd_tenant_id = bs_tenant_id b, bd_work_item_id = bs_session_id b,
                   bd_bidder_agent_id = sha256 (bs_bidder_id b), bd_auction_id = bid_auction b,
                   bd_bid_version = bs_bid_version b, bd_sealed_payload = bs_ciphertext b,
                   bd_nonce = bs_nonce b, bd_signature = bs_signature b,
                   bd_commitment = envelope_digest sha256 b, bd_created_at = now\<rparr>
             in if (case latest of None \<Rightarrow> False | Some v \<Rightarrow> bs_bid_version b \<le> v)
                then (Inl (ValueError ''bid version must increase''), rows)
                else if cid \<in> bd_id ` set rows then (Inl (IntegrityError ''agent_bids''), rows)
                else if bs_bid_version b \<le> 0 then (Inl (ValueError ''bid_version''), rows @ [row])
                else (Inr (receipt_of sha256 now b), rows @ [row]))"

definition pg_envelopes :: "bool \<Rightarrow> string \<Rightarrow> string \<Rightarrow> bid_row list \<Rightarrow> sealed_envelope list" where
  "pg_envelopes enforced t a rows =
     map (\<lambda>r. \<lparr>se_bidder_digest = bd_bidder_agent_id r, se_bid_version = bd_bid_version r,
            se_ciphertext = bd_sealed_payload r, se_nonce = bd_nonce r, se_signature = bd_signature r,
            se_submitted_at = bd_created_at r\<rparr>)
       (sort_key bd_created_at (filter (\<lambda>r. bd_tenant_id r = t \<and> bd_auction_id r = a)
          (rls_rows enforced bd_tenant_id t rows)))"

definition pg_bid_count :: "bool \<Rightarrow> string \<Rightarrow> string \<Rightarrow> bid_row list \<Rightarrow> nat" where
  "pg_bid_count enforced t s rows = length (filter (\<lambda>r. bd_tenant_id r = t \<and> bd_work_item_id r = s)
     (rls_rows enforced bd_tenant_id t rows))"

section \<open>The auction registry\<close>

record registry_announcement =
  an_objective :: string
  an_work_item_id :: string
  an_eligible_bidder_ids :: "string list"
  an_required_capabilities :: "string list"
  an_maximum_cost :: rat
  an_weights :: score_weights
  an_scoring_policy_version :: string
  an_envelope :: string
  an_signature :: string

datatype rejection = RejectedDigest string string | RejectedBidder string string

record allocation_summary =
  as_allocation_id :: string
  as_winner_id :: string
  as_score :: int
  as_fairness_adjustment :: rat
  as_fencing_token :: int
  as_allocation_state :: string

record bid_summary =
  bsu_bidder_id :: string
  bsu_total_score :: int
  bsu_cost :: rat
  bsu_explanation :: "(string \<times> int) list"

record auction_result =
  re_phase :: string
  re_terminal_reason :: "string option"
  re_bids :: "bid_summary list"
  re_rejected :: "rejection list"
  re_allocation :: "allocation_summary option"
  re_sealed_bid_count :: nat

record auction_record =
  ar_auction_id :: string
  ar_tenant_id :: string
  ar_session_id :: string
  ar_state :: string
  ar_deadline :: instant
  ar_announcement :: registry_announcement
  ar_public_key :: string
  ar_sealed_keys :: string
  ar_result :: "auction_result option"
  ar_closed_at :: "instant option"
  ar_idempotency_key :: string

type_synonym mem_registry = "((string \<times> string) \<times> auction_record) list"

definition same_command :: "auction_record \<Rightarrow> auction_record \<Rightarrow> bool" where
  "same_command r q \<longleftrightarrow> ar_tenant_id q = ar_tenant_id r \<and> ar_session_id q = ar_session_id r \<and>
     ar_idempotency_key q = ar_idempotency_key r"

definition close_record :: "auction_result \<Rightarrow> instant \<Rightarrow> auction_record \<Rightarrow> auction_record" where
  "close_record result closed_at r =
     r\<lparr>ar_state := ''closed'', ar_result := Some result, ar_closed_at := Some closed_at\<rparr>"

definition mem_registry_create :: "auction_record \<Rightarrow> (mem_registry, auction_record \<times> bool) op" where
  "mem_registry_create r reg =
     (case find (same_command r) (map snd reg) of
        Some existing \<Rightarrow> (Inr (existing, True), reg)
      | None \<Rightarrow> (Inr (r, False), AList.update (ar_tenant_id r, ar_auction_id r) r reg))"

definition mem_registry_get :: "string \<Rightarrow> string \<Rightarrow> mem_registry \<Rightarrow> auction_record option" where
  "mem_registry_get t a reg = map_of reg (t, a)"

definition mem_list_open :: "string \<Rightarrow> string \<Rightarrow> mem_registry \<Rightarrow> auction_record list" where
  "mem_list_open t s reg =
     filter (\<lambda>r. ar_tenant_id r = t \<and> ar_session_id r = s \<and> ar_state r = ''open'') (map snd reg)"

definition mem_registry_close ::
  "string \<Rightarrow> string \<Rightarrow> auction_result \<Rightarrow> instant \<Rightarrow> (mem_registry, auction_record) op" where
  "mem_registry_close t a result closed_at reg =
     (case map_of reg (t, a) of
        None \<Rightarrow> (Inl (KeyError a), reg)
      | Some current \<Rightarrow>
          if ar_state current = ''closed'' then (Inr current, reg)
          else let closed = close_record result closed_at current
               in (Inr closed, AList.update (t, a) closed reg))"

text \<open>A row is the record (its \<open>id\<close> is the auction id) with a version.\<close>

record registry_row =
  rr_record :: auction_record
  rr_version :: int

abbreviation rr_tenant :: "registry_row \<Rightarrow> string" where
  "rr_tenant r \<equiv> ar_tenant_id (rr_record r)"

definition pg_registry_create ::
  "bool \<Rightarrow> auction_record \<Rightarrow> (registry_row list, auction_record \<times> bool) op" where
  "pg_registry_create enforced r rows =
     (case one_or_none (filter (\<lambda>q. rr_tenant q = ar_tenant_id r \<and> ar_session_id (rr_record q) = ar_session_id r \<and>
             ar_idempotency_key (rr_record q) = ar_idempotency_key r)
             (rls_rows enforced rr_tenant (ar_tenant_id r) rows)) of
        Inl e \<Rightarrow> (Inl e, rows)
      | Inr (Some prior) \<Rightarrow> (Inr (rr_record prior, True), rows)
      | Inr None \<Rightarrow>
          if ar_auction_id r \<in> (\<lambda>q. ar_auction_id (rr_record q)) ` set rows
          then (Inl (IntegrityError ''auction_registry''), rows)
          else (Inr (r, False), rows @ [\<lparr>rr_record = r\<lparr>ar_result := None, ar_closed_at := None\<rparr>, rr_version = 1\<rparr>]))"

definition pg_registry_get :: "bool \<Rightarrow> string \<Rightarrow> string \<Rightarrow> registry_row list \<Rightarrow> auction_record option result" where
  "pg_registry_get enforced t a rows =
     (case one_or_none (filter (\<lambda>q. rr_tenant q = t \<and> ar_auction_id (rr_record q) = a)
             (rls_rows enforced rr_tenant t rows)) of
        Inl e \<Rightarrow> Inl e
      | Inr q \<Rightarrow> Inr (map_option rr_record q))"

definition pg_list_open :: "bool \<Rightarrow> string \<Rightarrow> string \<Rightarrow> registry_row list \<Rightarrow> auction_record list" where
  "pg_list_open enforced t s rows = map rr_record (filter (\<lambda>q. rr_tenant q = t \<and>
     ar_session_id (rr_record q) = s \<and> ar_state (rr_record q) = ''open'') (rls_rows enforced rr_tenant t rows))"

definition pg_registry_close ::
  "bool \<Rightarrow> string \<Rightarrow> string \<Rightarrow> auction_result \<Rightarrow> instant \<Rightarrow> (registry_row list, auction_record) op" where
  "pg_registry_close enforced t a result closed_at rows =
     (case exactly_one (filter (\<lambda>q. rr_tenant q = t \<and> ar_auction_id (rr_record q) = a)
             (rls_rows enforced rr_tenant t rows)) of
        Inl e \<Rightarrow> (Inl e, rows)
      | Inr row \<Rightarrow>
          if ar_state (rr_record row) = ''closed'' then (Inr (rr_record row), rows)
          else (Inr (close_record result closed_at (rr_record row)),
                update_where (\<lambda>q. rr_tenant q = t \<and> ar_auction_id (rr_record q) = a)
                  (\<lambda>q. q\<lparr>rr_record := close_record result closed_at (rr_record q), rr_version := rr_version q + 1\<rparr>)
                  rows))"

section \<open>Allocation is exclusive and fenced\<close>

text \<open>What an allocator keeps of an allocation: its identity, winner and token, and settlement is final.\<close>

definition kept :: "allocation \<Rightarrow> allocation \<Rightarrow> bool" where
  "kept al al' \<longleftrightarrow> al_winner_agent_id al' = al_winner_agent_id al \<and> al_fencing_token al' = al_fencing_token al \<and>
     (al_state al = ''settled'' \<longrightarrow> al' = al)"

lemma kept_refl [simp]: "kept al al"
  by (simp add: kept_def)

lemma kept_trans: "kept x y \<Longrightarrow> kept y z \<Longrightarrow> kept x z"
  by (auto simp: kept_def)

definition alloc_le :: "allocator \<Rightarrow> allocator \<Rightarrow> bool" where
  "alloc_le a b \<longleftrightarrow>
     (\<forall>k al. ac_allocations a k = Some al \<longrightarrow> (\<exists>al'. ac_allocations b k = Some al' \<and> kept al al')) \<and>
     ac_commands a \<subseteq>\<^sub>m ac_commands b"

lemma alloc_le_step: "alloc_le a (snd (allocator_step c a))"
  by (cases c) (auto simp: alloc_le_def allocate_def settle_def Let_def kept_def map_le_def split: option.splits)

lemma alloc_le_trans: "alloc_le a b \<Longrightarrow> alloc_le b c \<Longrightarrow> alloc_le a c"
  unfolding alloc_le_def by (blast intro: kept_trans map_le_trans)

lemma alloc_le_run: "alloc_le a (run_ops allocator_step a cs)"
  by (rule run_ops_mono [where I = "\<lambda>_. True"])
    (auto simp: alloc_le_step intro: alloc_le_trans, simp add: alloc_le_def)

text \<open>
  C21: an auction has one winner.  Once an allocation is accepted, after any further commands:
  every other allocation of that auction raises; a settlement by another agent or under another
  token raises \<open>StaleWinnerError\<close>; and repeating a command under its idempotency key returns what it
  returned before.
\<close>

theorem auction_single_winner:
  assumes "allocate t a w winner f ex lx k al0 = (Inr al, al1)" "ac_commands al0 (t, k) = None"
    and "al2 = run_ops allocator_step al1 cs"
  shows "(ac_commands al2 (t, k') = None \<longrightarrow>
      allocate t a w' winner' f' ex' lx' k' al2 = (Inl (ValueError ''auction is already allocated''), al2)) \<and>
    (ac_commands al2 (t, k') = None \<and> (winner' \<noteq> winner \<or> tok \<noteq> 1) \<longrightarrow>
      settle t a winner' tok out k' al2 = (Inl (StaleWinnerError ''stale auction winner''), al2)) \<and>
    allocate t a w' winner' f' ex' lx' k al2 = (Inr al, al2)"
proof -
  have al: "ac_allocations al1 (t, a) = Some al" "al_winner_agent_id al = winner" "al_fencing_token al = 1"
    "ac_commands al1 (t, k) = Some al"
    using assms(1,2) by (auto simp: allocate_def Let_def split: option.splits)
  have le: "alloc_le al1 al2" using alloc_le_run assms(3) by simp
  then obtain al' where "ac_allocations al2 (t, a) = Some al'" "kept al al'"
    using al(1) unfolding alloc_le_def by blast
  moreover have "ac_commands al2 (t, k) = Some al"
    using le al(4) unfolding alloc_le_def map_le_def by (metis domI)
  ultimately show ?thesis using al(2,3) by (auto simp: allocate_def settle_def kept_def)
qed

theorem auction_single_winner_witness:
  "fst (settle ''t'' ''a'' ''loser'' 1 ''out'' ''k2'' (run_ops allocator_step
     (snd (allocate ''t'' ''a'' ''w'' ''winner'' 0 ([], 9) 100 ''k'' new_allocator)) [Settle ''t'' ''a'' ''x'' 2 ''o'' ''k3'']))
   = Inl (StaleWinnerError ''stale auction winner'')"
proof -
  let ?r = "allocate ''t'' ''a'' ''w'' ''winner'' 0 ([], 9) 100 ''k'' new_allocator"
  obtain al where al: "?r = (Inr al, snd ?r)" by (simp add: allocate_def new_allocator_def Let_def)
  have "ac_commands (run_ops allocator_step (snd ?r) [Settle ''t'' ''a'' ''x'' 2 ''o'' ''k3'']) (''t'', ''k2'') = None"
    by (simp add: allocate_def settle_def new_allocator_def Let_def)
  with auction_single_winner [OF al _ refl, of "[Settle ''t'' ''a'' ''x'' 2 ''o'' ''k3'']" "''k2''" _ "''loser''" _ _ _ 1 "''out''"]
  show ?thesis by (simp add: new_allocator_def)
qed

end
