(* ===== verification/Auction_Stores.thy ===== *)
theory Auction_Stores
  imports Auction_Intake
begin

text \<open>
  What the PostgreSQL stores of the auction keep: bid versions increase strictly per bidder, and the
  registry table implements the in-memory registry.
\<close>

section \<open>Bid versions\<close>

definition bidder_rows :: "string \<Rightarrow> string \<Rightarrow> string \<Rightarrow> bid_row list \<Rightarrow> bid_row list" where
  "bidder_rows t a d rows = filter (\<lambda>r. bd_tenant_id r = t \<and> bd_auction_id r = a \<and> bd_bidder_agent_id r = d) rows"

definition versions_increase :: "bid_row list \<Rightarrow> bool" where
  "versions_increase rows \<longleftrightarrow> distinct (map bd_id rows) \<and>
     (\<forall>t a d. sorted_wrt (<) (map bd_bid_version (bidder_rows t a d rows)))"

lemma fold_max_ge: "v \<le> fold max vs v \<and> (\<forall>x \<in> set vs. x \<le> fold max vs v)" for v :: int
proof (induction vs arbitrary: v)
  case (Cons x vs)
  from Cons [of "max x v"] show ?case by (simp add: max.boundedE)
qed simp

lemma max_version_ge:
  "max_version rows = Some v \<Longrightarrow> r \<in> set rows \<Longrightarrow> bd_bid_version r \<le> v"
  using fold_max_ge by (cases rows) (auto simp: max_version_def)

lemma max_version_None: "max_version rows = None \<longleftrightarrow> rows = []"
  by (cases rows) (auto simp: max_version_def)

lemma pg_submit_cases:
  obtains (unchanged) "snd (pg_submit enforced u h now b rows) = rows"
  | (added) row where "snd (pg_submit enforced u h now b rows) = rows @ [row]" "bd_id row \<notin> bd_id ` set rows"
      "bd_tenant_id row = bs_tenant_id b" "bd_auction_id row = bid_auction b"
      "bd_bidder_agent_id row = h (bs_bidder_id b)"
      "\<And>r. r \<in> set (bidder_rows (bs_tenant_id b) (bid_auction b) (h (bs_bidder_id b)) rows) \<Longrightarrow>
         bd_bid_version r < bd_bid_version row"
proof -
  let ?mine = "bidder_rows (bs_tenant_id b) (bid_auction b) (h (bs_bidder_id b)) rows"
  have vis: "filter (\<lambda>r. bd_tenant_id r = bs_tenant_id b \<and> bd_auction_id r = bid_auction b \<and>
      bd_bidder_agent_id r = h (bs_bidder_id b)) (rls_rows enforced bd_tenant_id (bs_tenant_id b) rows) = ?mine"
    by (simp add: bidder_rows_def)
  show ?thesis
  proof (cases "snd (pg_submit enforced u h now b rows) = rows")
    case True
    then show ?thesis by (rule unchanged)
  next
    case False
    define row where "row = last (snd (pg_submit enforced u h now b rows))"
    from False have new: "snd (pg_submit enforced u h now b rows) = rows @ [row]" "bd_id row \<notin> bd_id ` set rows"
        "bd_tenant_id row = bs_tenant_id b" "bd_auction_id row = bid_auction b"
        "bd_bidder_agent_id row = h (bs_bidder_id b)" "bd_bid_version row = bs_bid_version b"
      and fresh: "\<not> (case max_version ?mine of None \<Rightarrow> False | Some v \<Rightarrow> bs_bid_version b \<le> v)"
      unfolding row_def pg_submit_def Let_def vis by (auto split: sum.splits option.splits if_splits)
    have "bd_bid_version r < bd_bid_version row" if "r \<in> set ?mine" for r
    proof (cases "max_version ?mine")
      case None
      then show ?thesis using that by (simp add: max_version_None)
    next
      case (Some v)
      then show ?thesis using max_version_ge [OF Some that] fresh new(6) by simp
    qed
    then show ?thesis using new by (intro added) auto
  qed
qed

lemma versions_increase_step:
  "versions_increase rows \<Longrightarrow> versions_increase (snd (pg_submit enforced u h now b rows))"
proof (rule pg_submit_cases [of enforced u h now b rows], goal_cases)
  case (2 row)
  then show ?case
    by (auto simp: versions_increase_def bidder_rows_def sorted_wrt_append)
qed simp

text \<open>Submissions with the clock reading of each.\<close>

fun submit_all :: "bool \<Rightarrow> (string \<Rightarrow> string \<Rightarrow> string) \<Rightarrow> (string \<Rightarrow> string) \<Rightarrow> (instant \<times> bid_submission) list \<Rightarrow>
    bid_row list \<Rightarrow> bid_row list" where
  "submit_all enforced u h [] rows = rows"
| "submit_all enforced u h ((now, b) # bs) rows = submit_all enforced u h bs (snd (pg_submit enforced u h now b rows))"

lemma submit_all_increase: "versions_increase rows \<Longrightarrow> versions_increase (submit_all enforced u h bs rows)"
  by (induction bs arbitrary: rows) (auto simp: versions_increase_step)

lemma envelope_versions_unique:
  assumes "versions_increase rows" "e \<in> set (pg_envelopes enforced t a rows)" "e' \<in> set (pg_envelopes enforced t a rows)"
    and "se_bidder_digest e = se_bidder_digest e'" "se_bid_version e = se_bid_version e'"
  shows "e = e'"
proof -
  from assms(2,3) obtain r r' where
    r: "r \<in> set rows" "bd_tenant_id r = t" "bd_auction_id r = a" "se_bidder_digest e = bd_bidder_agent_id r"
      "se_bid_version e = bd_bid_version r"
    and r': "r' \<in> set rows" "bd_tenant_id r' = t" "bd_auction_id r' = a" "se_bidder_digest e' = bd_bidder_agent_id r'"
      "se_bid_version e' = bd_bid_version r'"
    and ee: "e = \<lparr>se_bidder_digest = bd_bidder_agent_id r, se_bid_version = bd_bid_version r,
            se_ciphertext = bd_sealed_payload r, se_nonce = bd_nonce r, se_signature = bd_signature r,
            se_submitted_at = bd_created_at r\<rparr>"
      "e' = \<lparr>se_bidder_digest = bd_bidder_agent_id r', se_bid_version = bd_bid_version r',
            se_ciphertext = bd_sealed_payload r', se_nonce = bd_nonce r', se_signature = bd_signature r',
            se_submitted_at = bd_created_at r'\<rparr>"
    by (auto simp: pg_envelopes_def rls_rows_def split: if_splits)
  let ?rows = "bidder_rows t a (bd_bidder_agent_id r) rows"
  have "sorted_wrt (<) (map bd_bid_version ?rows)" using assms(1) by (simp add: versions_increase_def)
  then have "distinct (map bd_bid_version ?rows)" by (simp add: strict_sorted_iff)
  moreover have "r \<in> set ?rows" "r' \<in> set ?rows" using r r' assms(4) by (auto simp: bidder_rows_def)
  ultimately have "r = r'" using assms(5) r(5) r'(5) by (auto simp: distinct_map inj_on_def)
  then show ?thesis using ee by simp
qed

text \<open>
  Bid versions only increase.  After any submissions, by any bidders and to any auctions (with
  row-level security enforced or bypassed), the stored versions of one bidder in one auction increase
  strictly in the order of submission, so the auctioneer never sees two envelopes of a bidder under
  one version.
\<close>

theorem bid_versions_increase:
  "let rows = submit_all enforced u h bs [] in
    sorted_wrt (<) (map bd_bid_version (bidder_rows t a d rows)) \<and>
    distinct (map (\<lambda>e. (se_bidder_digest e, se_bid_version e)) (remdups (pg_envelopes enforced t a rows)))"
proof -
  let ?rows = "submit_all enforced u h bs []"
  have inv: "versions_increase ?rows"
    by (rule submit_all_increase) (simp add: versions_increase_def bidder_rows_def)
  have "inj_on (\<lambda>e. (se_bidder_digest e, se_bid_version e)) (set (remdups (pg_envelopes enforced t a ?rows)))"
    by (rule inj_onI) (use envelope_versions_unique [OF inv] in auto)
  then show ?thesis using inv by (simp add: Let_def versions_increase_def distinct_map)
qed

section \<open>The registry\<close>

datatype registry_command =
    RegCreate auction_record | RegGet string string | RegListOpen string string
  | RegClose string string auction_result instant

datatype registry_reply =
    Created "(auction_record \<times> bool) result" | Found "auction_record option result"
  | Opened "auction_record list" | Closed "auction_record result"

fun mem_registry_step :: "registry_command \<Rightarrow> mem_registry \<Rightarrow> registry_reply \<times> mem_registry" where
  "mem_registry_step (RegCreate r) reg = map_prod Created id (mem_registry_create r reg)"
| "mem_registry_step (RegGet t a) reg = (Found (Inr (mem_registry_get t a reg)), reg)"
| "mem_registry_step (RegListOpen t s) reg = (Opened (mem_list_open t s reg), reg)"
| "mem_registry_step (RegClose t a res z) reg = map_prod Closed id (mem_registry_close t a res z reg)"

fun pg_registry_step :: "bool \<Rightarrow> registry_command \<Rightarrow> registry_row list \<Rightarrow> registry_reply \<times> registry_row list" where
  "pg_registry_step b (RegCreate r) rows = map_prod Created id (pg_registry_create b r rows)"
| "pg_registry_step b (RegGet t a) rows = (Found (pg_registry_get b t a rows), rows)"
| "pg_registry_step b (RegListOpen t s) rows = (Opened (pg_list_open b t s rows), rows)"
| "pg_registry_step b (RegClose t a res z) rows = map_prod Closed id (pg_registry_close b t a res z rows)"

definition row_key :: "registry_row \<Rightarrow> string \<times> string" where
  "row_key q = (rr_tenant q, ar_auction_id (rr_record q))"

definition abs_registry :: "registry_row list \<Rightarrow> mem_registry" where
  "abs_registry rows = map (\<lambda>q. (row_key q, rr_record q)) rows"

definition registry_inv :: "registry_row list \<Rightarrow> bool" where
  "registry_inv rows \<longleftrightarrow> distinct (map (\<lambda>q. ar_auction_id (rr_record q)) rows) \<and>
     distinct (map (\<lambda>q. (rr_tenant q, ar_session_id (rr_record q), ar_idempotency_key (rr_record q))) rows)"

text \<open>
  A new auction arrives open, under an id that no other command has; a close names an auction on
  record (the in-memory store raises \<open>KeyError\<close> for another, PostgreSQL \<open>NoResultFound\<close>).
\<close>

fun registry_command_ok :: "registry_row list \<Rightarrow> registry_command \<Rightarrow> bool" where
  "registry_command_ok rows (RegCreate r) \<longleftrightarrow> ar_result r = None \<and> ar_closed_at r = None \<and>
     list_all (\<lambda>q. ar_auction_id (rr_record q) = ar_auction_id r \<longrightarrow> same_command r (rr_record q)) rows"
| "registry_command_ok rows (RegClose t a res z) \<longleftrightarrow> (t, a) \<in> row_key ` set rows"
| "registry_command_ok rows _ \<longleftrightarrow> True"

lemma abs_lookup: "map_of (abs_registry rows) k = map_option rr_record (find (\<lambda>q. row_key q = k) rows)"
  by (induction rows) (auto simp: abs_registry_def)

lemma distinct_row_key: "registry_inv rows \<Longrightarrow> distinct (map row_key rows)"
  by (auto simp: registry_inv_def row_key_def distinct_map inj_on_def)

lemma registry_query:
  assumes "registry_inv rows"
  shows "one_or_none (filter (\<lambda>q. rr_tenant q = t \<and> ar_auction_id (rr_record q) = a) (rls_rows b rr_tenant t rows))
    = Inr (find (\<lambda>q. row_key q = (t, a)) rows)"
  using one_or_none_key [OF distinct_row_key [OF assms], of "(t, a)"] by (simp add: row_key_def)

lemma create_query:
  assumes "registry_inv rows"
  shows "one_or_none (filter (\<lambda>q. rr_tenant q = ar_tenant_id r \<and> ar_session_id (rr_record q) = ar_session_id r \<and>
      ar_idempotency_key (rr_record q) = ar_idempotency_key r) (rls_rows b rr_tenant (ar_tenant_id r) rows))
    = Inr (find (\<lambda>q. same_command r (rr_record q)) rows)"
proof -
  let ?k = "\<lambda>q. (rr_tenant q, ar_session_id (rr_record q), ar_idempotency_key (rr_record q))"
  have "distinct (map ?k rows)" using assms by (simp add: registry_inv_def)
  from one_or_none_key [OF this, of "(ar_tenant_id r, ar_session_id r, ar_idempotency_key r)"]
  show ?thesis by (simp add: same_command_def)
qed

lemma create_refines:
  assumes inv: "registry_inv rows" and ok: "registry_command_ok rows (RegCreate r)"
  shows "map_prod id abs_registry (pg_registry_create b r rows) = mem_registry_create r (abs_registry rows) \<and>
    registry_inv (snd (pg_registry_create b r rows))"
proof (cases "find (\<lambda>q. same_command r (rr_record q)) rows")
  case (Some q)
  then show ?thesis
    using create_query [OF inv, of r b] inv
    by (simp add: pg_registry_create_def mem_registry_create_def abs_registry_def find_map comp_def)
next
  case None
  then have none: "\<not> same_command r (rr_record q)" if "q \<in> set rows" for q using that by (auto simp: find_None_iff)
  then have fresh: "ar_auction_id r \<notin> (\<lambda>q. ar_auction_id (rr_record q)) ` set rows"
    using ok by (auto simp: list_all_iff)
  have eq: "r\<lparr>ar_result := None, ar_closed_at := None\<rparr> = r" using ok by simp
  have "(ar_tenant_id r, ar_auction_id r) \<notin> fst ` set (abs_registry rows)"
    using fresh by (auto simp: abs_registry_def row_key_def image_iff)
  then have "AList.update (ar_tenant_id r, ar_auction_id r) r (abs_registry rows)
      = abs_registry rows @ [((ar_tenant_id r, ar_auction_id r), r)]"
    by (rule alist_update_new)
  moreover have "(ar_tenant_id r, ar_session_id r, ar_idempotency_key r)
      \<notin> (\<lambda>q. (rr_tenant q, ar_session_id (rr_record q), ar_idempotency_key (rr_record q))) ` set rows"
    using none by (force simp: same_command_def)
  then have "registry_inv (rows @ [\<lparr>rr_record = r, rr_version = 1\<rparr>])"
    using inv fresh by (simp add: registry_inv_def)
  ultimately show ?thesis
    using create_query [OF inv, of r b] None fresh
    by (simp add: pg_registry_create_def mem_registry_create_def abs_registry_def find_map comp_def eq row_key_def)
qed

lemma close_refines:
  assumes inv: "registry_inv rows" and ok: "(t, a) \<in> row_key ` set rows"
  shows "map_prod id abs_registry (pg_registry_close b t a res z rows) = mem_registry_close t a res z (abs_registry rows) \<and>
    registry_inv (snd (pg_registry_close b t a res z rows))"
proof -
  from ok obtain row where row: "row \<in> set rows" "row_key row = (t, a)" by force
  have find: "find (\<lambda>q. row_key q = (t, a)) rows = Some row"
    using find_key_unique [OF distinct_row_key [OF inv] row(1)] row(2) by simp
  have one: "exactly_one (filter (\<lambda>q. rr_tenant q = t \<and> ar_auction_id (rr_record q) = a) (rls_rows b rr_tenant t rows)) = Inr row"
    using registry_query [OF inv, of t a b] find by (simp add: one_or_none_Some)
  let ?g = "\<lambda>q. q\<lparr>rr_record := close_record res z (rr_record q), rr_version := rr_version q + 1\<rparr>"
  let ?rows' = "update_where (\<lambda>q. rr_tenant q = t \<and> ar_auction_id (rr_record q) = a) ?g rows"
  have "AList.update (t, a) (close_record res z (rr_record row)) (abs_registry rows) = abs_registry ?rows'"
  proof -
    have "q = row" if "q \<in> set rows" "row_key q = row_key row" for q
      using distinct_row_key [OF inv] row(1) that by (auto simp: distinct_map inj_on_def)
    then show ?thesis
      using alist_update_map [OF distinct_row_key [OF inv] row(1), of "close_record res z (rr_record row)" rr_record] row(2)
      by (auto simp: abs_registry_def update_where_def row_key_def close_record_def)
  qed
  moreover have "registry_inv ?rows'"
    using inv by (simp add: registry_inv_def map_update_where close_record_def)
  ultimately show ?thesis
    using inv one by (simp add: pg_registry_close_def mem_registry_close_def abs_lookup find)
qed

text \<open>
  C23: the registry table implements the in-memory registry.  For every admissible sequence of
  creations, lookups, listings and closings the replies are equal: a repeated creation returns the
  auction on record, a second close returns the first result.
\<close>

theorem registry_refines_memory:
  assumes "admissible_run (pg_registry_step enforced) registry_command_ok [] cs"
  shows "trace_ops (pg_registry_step enforced) [] cs = trace_ops mem_registry_step [] cs"
proof -
  have step: "map_prod id abs_registry (pg_registry_step enforced c rows) = mem_registry_step c (abs_registry rows) \<and>
      registry_inv (snd (pg_registry_step enforced c rows))"
    if inv: "registry_inv rows" and ok: "registry_command_ok rows c" for c rows
  proof (cases c)
    case (RegCreate r)
    with create_refines [OF inv, of r enforced] ok show ?thesis 
      by (cases "pg_registry_create enforced r rows")
        (auto dest!: sym [of "(_, _)" "mem_registry_create r (abs_registry rows)"])
  next
    case (RegGet t a)
    with registry_query [OF inv, of t a enforced] inv show ?thesis
      by (simp add: pg_registry_get_def mem_registry_get_def abs_lookup)
  next
    case (RegListOpen t s)
    with inv show ?thesis
      by (simp add: pg_list_open_def mem_list_open_def abs_registry_def comp_def filter_map)
  next
    case (RegClose t a res z)
    with close_refines [OF inv, of t a enforced res z] ok show ?thesis
      by (cases "pg_registry_close enforced t a res z rows")
        (auto dest!: sym [of "(_, _)" "mem_registry_close t a res z (abs_registry rows)"])
  qed
  from admissible_simulation [where I = registry_inv, OF step _ assms] show ?thesis
    by (simp add: registry_inv_def abs_registry_def)
qed

definition demo_auction :: "string \<Rightarrow> auction_record" where
  "demo_auction k = \<lparr>ar_auction_id = ''a'' @ k, ar_tenant_id = ''t'', ar_session_id = ''s'', ar_state = ''open'',
     ar_deadline = 100, ar_announcement = \<lparr>an_objective = ''o'', an_work_item_id = ''w'',
       an_eligible_bidder_ids = [''b''], an_required_capabilities = [], an_maximum_cost = 3,
       an_weights = aa_weights demo_announcement, an_scoring_policy_version = ''fixed-point-v1'',
       an_envelope = ''e'', an_signature = ''h''\<rparr>, ar_public_key = ''p'', ar_sealed_keys = ''x'', ar_result = None,
     ar_closed_at = None, ar_idempotency_key = k\<rparr>"

definition demo_result :: auction_result where
  "demo_result = \<lparr>re_phase = ''failed'', re_terminal_reason = Some ''no_eligible_bids'', re_bids = [],
     re_rejected = [], re_allocation = None, re_sealed_bid_count = 0\<rparr>"

theorem registry_refines_memory_witness:
  "trace_ops (pg_registry_step True) []
     [RegCreate (demo_auction ''1''), RegCreate (demo_auction ''1''), RegClose ''t'' ''a1'' demo_result 50, RegListOpen ''t'' ''s'']
   = trace_ops mem_registry_step []
     [RegCreate (demo_auction ''1''), RegCreate (demo_auction ''1''), RegClose ''t'' ''a1'' demo_result 50, RegListOpen ''t'' ''s'']"
  by (rule registry_refines_memory)
    (simp add: pg_registry_create_def demo_auction_def same_command_def row_key_def pg_registry_close_def)

end
