(* ===== verification/Auction_Service.thy ===== *)
theory Auction_Service
  imports Auction_Stores
begin

text \<open>
  Sealed envelopes (\<open>bid_crypto.py\<close>) and the auction service (\<open>AuctionRegistryService\<close> of
  \<open>registry.py\<close>).  Cryptography, the vault, base64, JSON and the decimal printer are parameters; so
  are the generated keys and the clock.  The service runs over the operations of a backend: a
  registry, a bid inbox and an optional read model sharing one state.
\<close>

section \<open>Envelopes\<close>

record auction_keys =
  ky_tenant_id :: string
  ky_auction_id :: string
  ky_private_key :: string
  ky_signing_secrets :: "(string \<times> string) list"

text \<open>
  \<open>hmac secret message\<close> is the hex HMAC-SHA256 under the base64 secret; \<open>aead_open private peer\<close>
  and \<open>aead_seal ephemeral public\<close> stand for the key exchange, HKDF and AES-GCM together.
\<close>

record auction_crypto =
  uuid5 :: "string \<Rightarrow> string \<Rightarrow> string"
  sha256 :: "string \<Rightarrow> string"
  hmac :: "string \<Rightarrow> string \<Rightarrow> string"
  b64decode :: "string \<Rightarrow> string option"
  b64encode :: "string \<Rightarrow> string"
  aead_open :: "string \<Rightarrow> string \<Rightarrow> string \<Rightarrow> string \<Rightarrow> string \<Rightarrow> string option"
  aead_seal :: "string \<Rightarrow> string \<Rightarrow> string \<Rightarrow> string \<Rightarrow> string \<Rightarrow> string"
  ephemeral_public :: "string \<Rightarrow> string"
  parse_payload :: "string \<Rightarrow> bid_payload option"
  dump_payload :: "bid_payload \<Rightarrow> string"
  vault_encrypt :: "auction_keys \<Rightarrow> string"
  vault_decrypt :: "string \<Rightarrow> auction_keys result"
  decimal_str :: "rat \<Rightarrow> string"

definition envelope_context :: "string \<Rightarrow> string \<Rightarrow> int \<Rightarrow> string" where
  "envelope_context auction bidder version =
     ''auction-bid-v1:'' @ auction @ '':'' @ bidder @ '':'' @ str_int version"

definition sign_envelope ::
  "auction_crypto \<Rightarrow> string \<Rightarrow> string \<Rightarrow> string \<Rightarrow> int \<Rightarrow> string \<Rightarrow> string \<Rightarrow> string" where
  "sign_envelope cy secret auction bidder version nonce ciphertext = hmac cy secret
     (auction @ '':'' @ bidder @ '':'' @ str_int version @ '':'' @ nonce @ '':'' @ ciphertext)"

definition verify_signature ::
  "auction_crypto \<Rightarrow> string \<Rightarrow> string \<Rightarrow> string \<Rightarrow> int \<Rightarrow> string \<Rightarrow> string \<Rightarrow> string \<Rightarrow> bool" where
  "verify_signature cy secret auction bidder version nonce ciphertext signature \<longleftrightarrow>
     sign_envelope cy secret auction bidder version nonce ciphertext = signature"

definition seal_bid ::
  "auction_crypto \<Rightarrow> string \<Rightarrow> string \<Rightarrow> string \<Rightarrow> bid_payload \<Rightarrow> string \<Rightarrow> string \<Rightarrow> int \<Rightarrow> string \<Rightarrow>
   string \<times> string \<times> string" where
  "seal_bid cy ephemeral nonce_bytes public_key payload auction bidder version secret =
     (let context = envelope_context auction bidder version;
          sealed = aead_seal cy ephemeral public_key context nonce_bytes (dump_payload cy payload);
          ciphertext = b64encode cy (ephemeral_public cy ephemeral @ sealed);
          nonce = b64encode cy nonce_bytes
      in (ciphertext, nonce, sign_envelope cy secret auction bidder version nonce ciphertext))"

definition open_bid ::
  "auction_crypto \<Rightarrow> string \<Rightarrow> string \<Rightarrow> string \<Rightarrow> int \<Rightarrow> string \<Rightarrow> string \<Rightarrow> bid_payload result" where
  "open_bid cy private_key auction bidder version nonce ciphertext =
     (case (b64decode cy ciphertext, b64decode cy nonce) of
        (Some raw, Some nonce_bytes) \<Rightarrow>
          if length raw \<le> 32 \<or> length nonce_bytes \<noteq> 12
          then Inl (BidEnvelopeError ''malformed bid envelope'')
          else (case aead_open cy private_key (take 32 raw) (envelope_context auction bidder version)
                       nonce_bytes (drop 32 raw) of
                  None \<Rightarrow> Inl (BidEnvelopeError ''bid envelope cannot be opened'')
                | Some plaintext \<Rightarrow>
                    (case parse_payload cy plaintext of
                       None \<Rightarrow> Inl (BidEnvelopeError ''bid envelope cannot be opened'')
                     | Some payload \<Rightarrow>
                         if payload_ok payload then Inr payload
                         else Inl (BidEnvelopeError ''bid envelope cannot be opened'')))
      | _ \<Rightarrow> Inl (BidEnvelopeError ''bid envelope cannot be opened''))"

section \<open>Judging the bids\<close>

text \<open>The latest envelope of each bidder among those submitted by the time of closing.\<close>

fun latest_envelopes :: "instant \<Rightarrow> sealed_envelope list \<Rightarrow> (string \<times> sealed_envelope) list \<Rightarrow>
    (string \<times> sealed_envelope) list" where
  "latest_envelopes closed_at [] d = d"
| "latest_envelopes closed_at (e # es) d =
     (if se_submitted_at e > closed_at then latest_envelopes closed_at es d
      else latest_envelopes closed_at es
        (case map_of d (se_bidder_digest e) of
           Some prior \<Rightarrow> if se_bid_version e > se_bid_version prior then AList.update (se_bidder_digest e) e d else d
         | None \<Rightarrow> AList.update (se_bidder_digest e) e d))"

definition bidders_by_digest :: "auction_crypto \<Rightarrow> string list \<Rightarrow> string \<rightharpoonup> string" where
  "bidders_by_digest cy eligible = map_of (rev (map (\<lambda>b. (sha256 cy b, b)) eligible))"

definition judge ::
  "auction_crypto \<Rightarrow> auction_keys \<Rightarrow> auction_announcement \<Rightarrow> string list \<Rightarrow> string \<times> sealed_envelope \<Rightarrow>
   rejection + revealed_bid" where
  "judge cy keys ann eligible de =
     (let digest = fst de; e = snd de in
      case bidders_by_digest cy eligible digest of
        None \<Rightarrow> Inl (RejectedDigest digest ''ineligible_bidder'')
      | Some bidder \<Rightarrow>
          let secret = (case map_of (ky_signing_secrets keys) bidder of None \<Rightarrow> '''' | Some s \<Rightarrow> s) in
          if \<not> verify_signature cy secret (aa_auction_id ann) bidder (se_bid_version e) (se_nonce e)
                (se_ciphertext e) (se_signature e)
          then Inl (RejectedBidder bidder ''invalid_signature'')
          else (case open_bid cy (ky_private_key keys) (aa_auction_id ann) bidder (se_bid_version e)
                       (se_nonce e) (se_ciphertext e) of
                  Inl _ \<Rightarrow> Inl (RejectedBidder bidder ''undecryptable'')
                | Inr payload \<Rightarrow>
                    if \<not> set (aa_required_capabilities ann) \<subseteq> set (bp_capabilities payload)
                    then Inl (RejectedBidder bidder ''capability_mismatch'')
                    else if bp_cost payload > aa_maximum_cost ann
                    then Inl (RejectedBidder bidder ''over_cost_ceiling'')
                    else Inr \<lparr>rb_bidder_id = bidder, rb_version = se_bid_version e,
                           rb_submitted_at = se_submitted_at e, rb_payload = payload\<rparr>))"

definition rejections :: "('a + 'b) list \<Rightarrow> 'a list" where
  "rejections xs = concat (map (\<lambda>x. case x of Inl a \<Rightarrow> [a] | Inr _ \<Rightarrow> []) xs)"

definition acceptances :: "('a + 'b) list \<Rightarrow> 'b list" where
  "acceptances xs = concat (map (\<lambda>x. case x of Inl _ \<Rightarrow> [] | Inr b \<Rightarrow> [b]) xs)"

definition evaluate_bids ::
  "auction_crypto \<Rightarrow> auction_keys \<Rightarrow> auction_announcement \<Rightarrow> string list \<Rightarrow> instant \<Rightarrow> sealed_envelope list \<Rightarrow>
   auction_result" where
  "evaluate_bids cy keys ann eligible closed_at envelopes =
     (let latest = latest_envelopes closed_at envelopes [];
          verdicts = map (judge cy keys ann eligible) (sort_key fst latest);
          ranked = score_bids ann (acceptances verdicts);
          allocation = (case ranked of [] \<Rightarrow> None
            | winner # _ \<Rightarrow>
                (case fst (allocate (aa_tenant_id ann) (aa_auction_id ann) (aa_work_item_id ann)
                        (rk_bidder_id winner) 0 (rk_explanation winner, rk_total_score winner)
                        (closed_at + 3600000000) (aa_auction_id ann @ '':allocate'') new_allocator) of
                   Inl _ \<Rightarrow> None
                 | Inr allocated \<Rightarrow> Some \<lparr>as_allocation_id = aa_auction_id ann,
                     as_winner_id = rk_bidder_id winner, as_score = rk_total_score winner,
                     as_fairness_adjustment = al_fairness_adjustment allocated,
                     as_fencing_token = al_fencing_token allocated, as_allocation_state = al_state allocated\<rparr>))
      in \<lparr>re_phase = (if allocation \<noteq> None then ''allocated'' else ''failed''),
          re_terminal_reason = (if allocation \<noteq> None then None else Some ''no_eligible_bids''),
          re_bids = map (\<lambda>r. \<lparr>bsu_bidder_id = rk_bidder_id r, bsu_total_score = rk_total_score r,
            bsu_cost = rk_cost r, bsu_explanation = rk_explanation r\<rparr>) ranked,
          re_rejected = rejections verdicts, re_allocation = allocation, re_sealed_bid_count = length latest\<rparr>)"

section \<open>The service\<close>

record 's auction_backend =
  be_create :: "auction_record \<Rightarrow> ('s, auction_record \<times> bool) op"
  be_get :: "string \<Rightarrow> string \<Rightarrow> 's \<Rightarrow> auction_record option result"
  be_list_open :: "string \<Rightarrow> string \<Rightarrow> 's \<Rightarrow> auction_record list"
  be_close :: "string \<Rightarrow> string \<Rightarrow> auction_result \<Rightarrow> instant \<Rightarrow> ('s, auction_record) op"
  be_submit :: "instant \<Rightarrow> bid_submission \<Rightarrow> ('s, sealed_receipt) op"
  be_envelopes :: "string \<Rightarrow> string \<Rightarrow> 's \<Rightarrow> sealed_envelope list"
  be_read_model :: "((string \<Rightarrow> string \<Rightarrow> string \<Rightarrow> 's \<Rightarrow> pattern_record option) \<times>
                     (pattern_record \<Rightarrow> int \<Rightarrow> ('s, pattern_record) op)) option"

definition open_keys :: "auction_crypto \<Rightarrow> auction_record \<Rightarrow> auction_keys result" where
  "open_keys cy r =
     (case vault_decrypt cy (ar_sealed_keys r) of
        Inl e \<Rightarrow> Inl e
      | Inr keys \<Rightarrow>
          if ky_tenant_id keys \<noteq> ar_tenant_id r \<or> ky_auction_id keys \<noteq> ar_auction_id r
          then Inl (AuctionRegistryError ''auction key material is bound to another auction'')
          else Inr keys)"

definition signing_secrets :: "auction_crypto \<Rightarrow> auction_record \<Rightarrow> (string \<times> string) list result" where
  "signing_secrets cy r = map_sum id ky_signing_secrets (open_keys cy r)"

definition DEFAULT_WEIGHTS :: score_weights where
  "DEFAULT_WEIGHTS = \<lparr>sw_quality = 4000, sw_cost = 2000, sw_latency = 1000, sw_confidence = 2000,
     sw_fairness = 500, sw_load = 500\<rparr>"

definition new_record ::
  "auction_crypto \<Rightarrow> string \<times> string \<Rightarrow> (string \<times> string) list \<Rightarrow> instant \<Rightarrow> string \<Rightarrow> string \<Rightarrow> string \<Rightarrow> string list \<Rightarrow>
   rat \<Rightarrow> string list \<Rightarrow> string \<Rightarrow> auction_record" where
  "new_record cy key_pair secrets deadline tenant session objective bidders maximum_cost capabilities key =
     (let auction_id = uuid5 cy ''NAMESPACE_URL'' (''auction:'' @ tenant @ '':'' @ session @ '':'' @ key)
      in \<lparr>ar_auction_id = auction_id, ar_tenant_id = tenant, ar_session_id = session,
          ar_state = ''open'', ar_deadline = deadline,
          ar_announcement = \<lparr>an_objective = objective, an_work_item_id = auction_id @ '':task'',
            an_eligible_bidder_ids = sort bidders, an_required_capabilities = sort (remdups capabilities),
            an_maximum_cost = maximum_cost, an_weights = DEFAULT_WEIGHTS,
            an_scoring_policy_version = ''fixed-point-v1'',
            an_envelope = ''x25519-hkdf-sha256-aes256gcm-v1'',
            an_signature = ''hmac-sha256(auction:bidder:version:nonce:ciphertext)''\<rparr>,
          ar_public_key = snd key_pair,
          ar_sealed_keys = vault_encrypt cy \<lparr>ky_tenant_id = tenant, ky_auction_id = auction_id,
            ky_private_key = fst key_pair, ky_signing_secrets = secrets\<rparr>,
          ar_result = None, ar_closed_at = None, ar_idempotency_key = key\<rparr>)"

definition open_auction ::
  "auction_crypto \<Rightarrow> 's auction_backend \<Rightarrow> string \<times> string \<Rightarrow> (string \<Rightarrow> string) \<Rightarrow> instant \<Rightarrow> string \<Rightarrow> string \<Rightarrow>
   string \<Rightarrow> string list \<Rightarrow> rat \<Rightarrow> duration \<Rightarrow> string list \<Rightarrow> string \<Rightarrow>
   ('s, auction_record \<times> (string \<times> string) list) op" where
  "open_auction cy be key_pair new_secret now tenant session objective bidders maximum_cost window capabilities key s =
     (let secrets = map (\<lambda>b. (b, new_secret b)) (remdups bidders);
          record = new_record cy key_pair secrets (now + window) tenant session objective bidders maximum_cost
            capabilities key
      in case be_create be record s of
           (Inl e, s') \<Rightarrow> (Inl e, s')
         | (Inr (stored, replayed), s') \<Rightarrow>
             if replayed then (case signing_secrets cy stored of Inl e \<Rightarrow> (Inl e, s')
                               | Inr sec \<Rightarrow> (Inr (stored, sec), s'))
             else (Inr (stored, secrets), s'))"

definition service_get ::
  "'s auction_backend \<Rightarrow> string \<Rightarrow> string \<Rightarrow> string \<Rightarrow> 's \<Rightarrow> auction_record result" where
  "service_get be tenant session auction s =
     (case be_get be tenant auction s of
        Inl e \<Rightarrow> Inl e
      | Inr None \<Rightarrow> Inl (AuctionNotFoundError ''auction not found'')
      | Inr (Some r) \<Rightarrow> if ar_session_id r \<noteq> session then Inl (AuctionNotFoundError ''auction not found'') else Inr r)"

definition resolve_open_auction ::
  "'s auction_backend \<Rightarrow> string \<Rightarrow> string \<Rightarrow> string option \<Rightarrow> 's \<Rightarrow> auction_record option result" where
  "resolve_open_auction be tenant session auction s =
     (if auction \<noteq> None \<and> auction \<noteq> Some []
      then map_sum id Some (service_get be tenant session (the auction) s)
      else let opens = be_list_open be tenant session s
           in if length opens > 1 then Inl (AuctionRegistryError ''several auctions are open; name auction_id'')
              else Inr (case opens of [] \<Rightarrow> None | r # _ \<Rightarrow> Some r))"

definition accept_bid ::
  "auction_crypto \<Rightarrow> 's auction_backend \<Rightarrow> instant \<Rightarrow> auction_record \<Rightarrow> string \<Rightarrow> int \<Rightarrow> string \<Rightarrow> string \<Rightarrow> string \<Rightarrow>
   string \<Rightarrow> ('s, sealed_receipt) op" where
  "accept_bid cy be now r bidder version ciphertext nonce signature key s =
     (if ar_state r \<noteq> ''open'' \<or> now \<ge> ar_deadline r then (Inl (AuctionRegistryError ''auction is sealed''), s)
      else if bidder \<notin> set (an_eligible_bidder_ids (ar_announcement r))
      then (Inl (BidRejectedError ''bidder is not eligible for this auction''), s)
      else case signing_secrets cy r of
             Inl e \<Rightarrow> (Inl e, s)
           | Inr secrets \<Rightarrow>
               if (case map_of secrets bidder of None \<Rightarrow> True
                   | Some secret \<Rightarrow> \<not> verify_signature cy secret (ar_auction_id r) bidder version nonce ciphertext signature)
               then (Inl (BidRejectedError ''invalid bid signature''), s)
               else be_submit be now \<lparr>bs_tenant_id = ar_tenant_id r, bs_session_id = ar_session_id r,
                      bs_bidder_id = bidder, bs_bid_version = version, bs_ciphertext = ciphertext, bs_nonce = nonce,
                      bs_signature = signature, bs_idempotency_key = key, bs_auction_id = Some (ar_auction_id r)\<rparr> s)"

definition rejection_json :: "rejection \<Rightarrow> json" where
  "rejection_json r = (case r of
     RejectedDigest d reason \<Rightarrow> JObj [(''bidder_digest'', JStr d), (''reason'', JStr reason)]
   | RejectedBidder b reason \<Rightarrow> JObj [(''bidder_id'', JStr b), (''reason'', JStr reason)])"

definition result_json :: "auction_crypto \<Rightarrow> auction_result \<Rightarrow> (string \<times> json) list" where
  "result_json cy res =
     [(''phase'', JStr (re_phase res)),
      (''terminal_reason'', case re_terminal_reason res of None \<Rightarrow> JNull | Some r \<Rightarrow> JStr r),
      (''bids'', JList (map (\<lambda>b. JObj [(''bidder_id'', JStr (bsu_bidder_id b)),
         (''total_score'', JInt (bsu_total_score b)), (''cost'', JStr (decimal_str cy (bsu_cost b))),
         (''explanation'', JObj (map (\<lambda>(k, v). (k, JInt v)) (bsu_explanation b)))]) (re_bids res))),
      (''rejected'', JList (map rejection_json (re_rejected res))),
      (''allocation'', case re_allocation res of None \<Rightarrow> JNull
         | Some al \<Rightarrow> JObj [(''allocation_id'', JStr (as_allocation_id al)), (''winner_id'', JStr (as_winner_id al)),
             (''score'', JInt (as_score al)), (''fairness_adjustment'', JStr (decimal_str cy (as_fairness_adjustment al))),
             (''fencing_token'', JInt (as_fencing_token al)), (''state'', JStr (as_allocation_state al))]),
      (''sealed_bid_count'', JInt (int (re_sealed_bid_count res)))]"

definition project ::
  "auction_crypto \<Rightarrow> 's auction_backend \<Rightarrow> auction_record \<Rightarrow> auction_result \<Rightarrow> ('s, unit) op" where
  "project cy be r res s =
     (case be_read_model be of
        None \<Rightarrow> (Inr (), s)
      | Some (read, save) \<Rightarrow>
          (case read (ar_tenant_id r) (ar_session_id r) (ar_auction_id r) s of
             Some _ \<Rightarrow> (Inr (), s)
           | None \<Rightarrow>
               map_prod (map_sum id (\<lambda>_. ())) id (save \<lparr>pr_tenant_id = ar_tenant_id r,
                 pr_session_id = ar_session_id r, pr_execution_id = ar_auction_id r,
                 pr_state = JObj
                   [(''config'', JObj [(''pattern'', JStr ''market_auction''),
                       (''objective'', JStr (an_objective (ar_announcement r))),
                       (''participants'', JList (map JStr (an_eligible_bidder_ids (ar_announcement r)))),
                       (''source'', JStr ''public_sealed_bid_auction'')]),
                    (''checkpoint'', JNull),
                    (''view'', JObj ((''auction_id'', JStr (ar_auction_id r)) # result_json cy res))],
                 pr_version = 1, pr_idempotency_key = ar_session_id r @ '':'' @ ar_auction_id r @ '':v1''\<rparr> 0 s)))"

definition close_announcement :: "string \<Rightarrow> string \<Rightarrow> auction_record \<Rightarrow> instant \<Rightarrow> auction_announcement" where
  "close_announcement tenant auction r closed_at =
     (let an = ar_announcement r in
      \<lparr>aa_auction_id = auction, aa_tenant_id = tenant, aa_work_item_id = an_work_item_id an,
       aa_deadline = closed_at, aa_eligible_bidder_ids = an_eligible_bidder_ids an,
       aa_required_capabilities = an_required_capabilities an, aa_maximum_cost = an_maximum_cost an,
       aa_weights = an_weights an, aa_scoring_policy_version = an_scoring_policy_version an\<rparr>)"

definition close_result ::
  "auction_crypto \<Rightarrow> 's auction_backend \<Rightarrow> auction_keys \<Rightarrow> string \<Rightarrow> string \<Rightarrow> auction_record \<Rightarrow> instant \<Rightarrow> 's \<Rightarrow>
   auction_result" where
  "close_result cy be keys tenant auction r closed_at s =
     evaluate_bids cy keys (close_announcement tenant auction r closed_at)
       (an_eligible_bidder_ids (ar_announcement r)) closed_at (be_envelopes be tenant auction s)"

definition close_auction ::
  "auction_crypto \<Rightarrow> 's auction_backend \<Rightarrow> instant \<Rightarrow> string \<Rightarrow> string \<Rightarrow> string \<Rightarrow> ('s, auction_record) op" where
  "close_auction cy be now tenant session auction s =
     (case service_get be tenant session auction s of
        Inl e \<Rightarrow> (Inl e, s)
      | Inr r \<Rightarrow>
          if ar_state r = ''closed'' then (Inr r, s)
          else let closed_at = min now (ar_deadline r) in
            (case open_keys cy r of
               Inl e \<Rightarrow> (Inl e, s)
             | Inr keys \<Rightarrow>
                 if \<not> announcement_ok (close_announcement tenant auction r closed_at)
                 then (Inl (ValueError ''maximum_cost''), s)
                 else let res = close_result cy be keys tenant auction r closed_at s
                      in (case be_close be tenant auction res closed_at s of
                            (Inl e, s') \<Rightarrow> (Inl e, s')
                          | (Inr stored, s') \<Rightarrow>
                              (case project cy be stored res s' of
                                 (Inl e, s'') \<Rightarrow> (Inl e, s'')
                               | (Inr _, s'') \<Rightarrow> (Inr stored, s'')))))"

section \<open>Envelopes open to what was sealed\<close>


definition demo_crypto :: auction_crypto where
  "demo_crypto = \<lparr>uuid5 = (\<lambda>ns n. n), sha256 = id, hmac = (\<lambda>k m. k @ m), b64decode = Some, b64encode = id,
     aead_open = (\<lambda>k e c n x. Some (tl x)), aead_seal = (\<lambda>e k c n p. ''*'' @ p), ephemeral_public = (\<lambda>e. replicate 32 CHR ''0''),
     parse_payload = (\<lambda>s. if s = ''p'' then Some (demo_payload 9000 2) else None), dump_payload = (\<lambda>p. ''p''),
     vault_encrypt = ky_private_key, vault_decrypt = (\<lambda>s. Inr \<lparr>ky_tenant_id = ''t'', ky_auction_id = ''a1'',
       ky_private_key = s, ky_signing_secrets = [(''b'', ''sec'')]\<rparr>), decimal_str = (\<lambda>r. '''')\<rparr>"


section \<open>The best valid bid wins\<close>

text \<open>The dictionary read at one digest.\<close>

fun best :: "instant \<Rightarrow> string \<Rightarrow> sealed_envelope list \<Rightarrow> sealed_envelope option \<Rightarrow> sealed_envelope option" where
  "best z k [] m = m"
| "best z k (e # es) m = best z k es
     (if se_submitted_at e \<le> z \<and> se_bidder_digest e = k \<and>
         (case m of None \<Rightarrow> True | Some p \<Rightarrow> se_bid_version p < se_bid_version e) then Some e else m)"

lemma latest_envelopes_best: "map_of (latest_envelopes z es d) k = best z k es (map_of d k)"
proof (induction es arbitrary: d)
  case (Cons e es)
  then show ?case by (cases "map_of d (se_bidder_digest e)") auto
qed simp

lemma latest_envelopes_distinct: "distinct (map fst d) \<Longrightarrow> distinct (map fst (latest_envelopes z es d))"
  by (induction es arbitrary: d) (auto split: option.splits)

lemma best_ge: "best z k es (Some p) = Some e \<Longrightarrow> se_bid_version p \<le> se_bid_version e"
proof (induction es arbitrary: p)
  case (Cons x es)
  show ?case
  proof (cases "se_submitted_at x \<le> z \<and> se_bidder_digest x = k \<and> se_bid_version p < se_bid_version x")
    case True
    then show ?thesis using Cons.prems Cons.IH [of x] by simp
  next
    case False
    then have "best z k es (Some p) = Some e" using Cons.prems by (simp split: if_splits)
    then show ?thesis by (rule Cons.IH)
  qed
qed simp

lemma best_Some_total: "\<exists>e. best z k es (Some p) = Some e"
  by (induction es arbitrary: p) auto

lemma best_origin:
  "best z k es m = Some e \<Longrightarrow> m = Some e \<or> e \<in> set es \<and> se_bidder_digest e = k \<and> se_submitted_at e \<le> z"
proof (induction es arbitrary: m)
  case (Cons x es)
  from Cons.IH [of "if se_submitted_at x \<le> z \<and> se_bidder_digest x = k \<and>
      (case m of None \<Rightarrow> True | Some p \<Rightarrow> se_bid_version p < se_bid_version x) then Some x else m"] Cons.prems
  show ?case by (auto split: if_splits)
qed simp

lemma best_max:
  "best z k es m = Some e \<Longrightarrow> e' \<in> set es \<Longrightarrow> se_bidder_digest e' = k \<Longrightarrow> se_submitted_at e' \<le> z \<Longrightarrow>
   se_bid_version e' \<le> se_bid_version e"
proof (induction es arbitrary: m)
  case (Cons x es)
  show ?case
  proof (cases "e' = x")
    case True
    define m' where "m' = (if (case m of None \<Rightarrow> True | Some p \<Rightarrow> se_bid_version p < se_bid_version x) then Some x else m)"
    have m': "best z k es m' = Some e" using Cons.prems(1,3,4) True by (simp add: m'_def)
    have "\<exists>p. m' = Some p \<and> se_bid_version x \<le> se_bid_version p"
      by (cases m) (simp_all add: m'_def)
    then obtain p where "m' = Some p" "se_bid_version x \<le> se_bid_version p" by blast
    then show ?thesis using best_ge [of z k es p e] m' True by simp
  next
    case False
    then show ?thesis using Cons by (auto split: if_splits)
  qed
qed simp

lemma best_defined:
  "e \<in> set es \<Longrightarrow> se_bidder_digest e = k \<Longrightarrow> se_submitted_at e \<le> z \<Longrightarrow> \<exists>e'. best z k es m = Some e'"
proof (induction es arbitrary: m)
  case (Cons x es)
  then show ?case by (cases "e = x"; cases m) (auto simp: best_Some_total)
qed simp

lemma acceptances_set: "b \<in> set (acceptances xs) \<longleftrightarrow> Inr b \<in> set xs"
  by (induction xs) (auto simp: acceptances_def split: sum.splits)

text \<open>The bid of \<open>bidder\<close> that counts: its latest envelope on time, authentic, readable and within the terms.\<close>

definition valid_bid ::
  "auction_crypto \<Rightarrow> auction_keys \<Rightarrow> auction_announcement \<Rightarrow> string list \<Rightarrow> instant \<Rightarrow> sealed_envelope list \<Rightarrow>
   string \<Rightarrow> sealed_envelope \<Rightarrow> bid_payload \<Rightarrow> bool" where
  "valid_bid cy keys ann eligible z es bidder e p \<longleftrightarrow>
     bidder \<in> set eligible \<and> e \<in> set es \<and> se_bidder_digest e = sha256 cy bidder \<and> se_submitted_at e \<le> z \<and>
     (\<forall>e' \<in> set es. se_bidder_digest e' = sha256 cy bidder \<and> se_submitted_at e' \<le> z \<longrightarrow>
        se_bid_version e' \<le> se_bid_version e) \<and>
     verify_signature cy (case map_of (ky_signing_secrets keys) bidder of None \<Rightarrow> '''' | Some s \<Rightarrow> s)
       (aa_auction_id ann) bidder (se_bid_version e) (se_nonce e) (se_ciphertext e) (se_signature e) \<and>
     open_bid cy (ky_private_key keys) (aa_auction_id ann) bidder (se_bid_version e) (se_nonce e) (se_ciphertext e) = Inr p \<and>
     set (aa_required_capabilities ann) \<subseteq> set (bp_capabilities p) \<and> bp_cost p \<le> aa_maximum_cost ann"

lemma by_digest:
  assumes "inj_on (sha256 cy) (set eligible)"
  shows "bidders_by_digest cy eligible d = Some b \<longleftrightarrow> b \<in> set eligible \<and> sha256 cy b = d"
proof
  assume "bidders_by_digest cy eligible d = Some b"
  then show "b \<in> set eligible \<and> sha256 cy b = d" by (auto simp: bidders_by_digest_def dest: map_of_SomeD)
next
  assume b: "b \<in> set eligible \<and> sha256 cy b = d"
  then obtain c where c: "bidders_by_digest cy eligible d = Some c"
    by (cases "bidders_by_digest cy eligible d") (force simp: bidders_by_digest_def map_of_eq_None_iff)+
  then have "c \<in> set eligible" "sha256 cy c = d" by (auto simp: bidders_by_digest_def dest: map_of_SomeD)
  then show "bidders_by_digest cy eligible d = Some b" using b c assms by (auto simp: inj_on_def)
qed

lemma judge_Inr:
  assumes "inj_on (sha256 cy) (set eligible)"
  shows "judge cy keys ann eligible (d, e) = Inr r \<longleftrightarrow>
    (\<exists>b. (b \<in> set eligible \<and> sha256 cy b = d) \<and> (\<exists>p.
      verify_signature cy (case map_of (ky_signing_secrets keys) b of None \<Rightarrow> '''' | Some s \<Rightarrow> s)
        (aa_auction_id ann) b (se_bid_version e) (se_nonce e) (se_ciphertext e) (se_signature e) \<and>
      open_bid cy (ky_private_key keys) (aa_auction_id ann) b (se_bid_version e) (se_nonce e) (se_ciphertext e) = Inr p \<and>
      set (aa_required_capabilities ann) \<subseteq> set (bp_capabilities p) \<and> bp_cost p \<le> aa_maximum_cost ann \<and>
      r = \<lparr>rb_bidder_id = b, rb_version = se_bid_version e, rb_submitted_at = se_submitted_at e, rb_payload = p\<rparr>))"
proof (cases "bidders_by_digest cy eligible d")
  case None
  then have "\<not> (b \<in> set eligible \<and> sha256 cy b = d)" for b using by_digest [OF assms, of d b] by auto
  then show ?thesis unfolding judge_def Let_def fst_conv snd_conv None option.case by simp blast
next
  case (Some c)
  then have c: "b \<in> set eligible \<and> sha256 cy b = d \<longleftrightarrow> b = c" for b using by_digest [OF assms, of d b] by auto
  show ?thesis
    unfolding c judge_def Let_def fst_conv snd_conv Some option.case simp_thms
    by (simp split: sum.split) (metis linorder_not_le)
qed

definition versions_unique :: "sealed_envelope list \<Rightarrow> bool" where
  "versions_unique es \<longleftrightarrow> inj_on (\<lambda>e. (se_bidder_digest e, se_bid_version e)) (set es)"

lemma best_iff:
  assumes "versions_unique es"
  shows "best z d es None = Some e \<longleftrightarrow> e \<in> set es \<and> se_bidder_digest e = d \<and> se_submitted_at e \<le> z \<and>
    (\<forall>e' \<in> set es. se_bidder_digest e' = d \<and> se_submitted_at e' \<le> z \<longrightarrow> se_bid_version e' \<le> se_bid_version e)"
    (is "_ \<longleftrightarrow> ?r e")
proof
  show "best z d es None = Some e \<Longrightarrow> ?r e"
    using best_origin [of z d es None e] best_max [of z d es None e] by auto
next
  assume r: "?r e"
  then obtain f where f: "best z d es None = Some f" using best_defined [of e es d z None] by auto
  then have "?r f" using best_origin [of z d es None f] best_max [of z d es None f] by auto
  then have "se_bid_version e = se_bid_version f" using r by (intro order.antisym) auto
  then have "e = f" using assms r \<open>?r f\<close> by (auto simp: versions_unique_def inj_on_def)
  then show "best z d es None = Some e" using f by simp
qed

lemma latest_member: "(d, e) \<in> set (latest_envelopes z es []) \<longleftrightarrow> best z d es None = Some e"
proof -
  have "distinct (map fst (latest_envelopes z es []))" by (rule latest_envelopes_distinct) simp
  from map_of_eq_Some_iff [OF this, of d e] show ?thesis by (simp add: latest_envelopes_best)
qed

lemma accepted_iff:
  assumes inj: "inj_on (sha256 cy) (set eligible)"
    and uniq: "versions_unique es"
  shows "r \<in> set (acceptances (map (judge cy keys ann eligible) (sort_key fst (latest_envelopes z es [])))) \<longleftrightarrow>
    (\<exists>e p. valid_bid cy keys ann eligible z es (rb_bidder_id r) e p \<and>
       r = \<lparr>rb_bidder_id = rb_bidder_id r, rb_version = se_bid_version e, rb_submitted_at = se_submitted_at e, rb_payload = p\<rparr>)"
    (is "?l \<longleftrightarrow> ?r")
proof -
  have "?l \<longleftrightarrow> (\<exists>d e. best z d es None = Some e \<and> judge cy keys ann eligible (d, e) = Inr r)"
    unfolding acceptances_set set_map set_sort image_iff
    using latest_member [of _ _ z es] by (metis prod.exhaust)
  also have "\<dots> \<longleftrightarrow> ?r" (is "?m \<longleftrightarrow> _")
  proof
    assume ?m then show ?r unfolding best_iff [OF uniq] judge_Inr [OF inj] valid_bid_def by auto
  next
    assume ?r
    then obtain e p where v: "valid_bid cy keys ann eligible z es (rb_bidder_id r) e p"
      "r = \<lparr>rb_bidder_id = rb_bidder_id r, rb_version = se_bid_version e, rb_submitted_at = se_submitted_at e, rb_payload = p\<rparr>"
      by blast
    then have "best z (sha256 cy (rb_bidder_id r)) es None = Some e"
      unfolding best_iff [OF uniq] by (simp add: valid_bid_def)
    moreover have "judge cy keys ann eligible (sha256 cy (rb_bidder_id r), e) = Inr r"
      unfolding judge_Inr [OF inj]
      by (rule exI [of _ "rb_bidder_id r"], use v in \<open>simp only: valid_bid_def\<close>) blast
    ultimately show ?m by blast
  qed
  finally show ?thesis .
qed

lemma evaluate_allocation:
  fixes cy keys ann eligible z es
  defines "ranked \<equiv> score_bids ann (acceptances (map (judge cy keys ann eligible) (sort_key fst (latest_envelopes z es []))))"
  shows "re_phase (evaluate_bids cy keys ann eligible z es) = (if ranked = [] then ''failed'' else ''allocated'')"
    and "map_option (\<lambda>al. (as_winner_id al, as_score al)) (re_allocation (evaluate_bids cy keys ann eligible z es))
      = (if ranked = [] then None else Some (rk_bidder_id (hd ranked), rk_total_score (hd ranked)))"
  unfolding ranked_def evaluate_bids_def Let_def
  by (simp_all add: allocate_def new_allocator_def Let_def split: list.split)

text \<open>
  C25: closing awards the best valid bid.  Given eligible bidders with distinct digests and envelopes
  without two versions alike (as the inbox keeps them), the auction fails exactly when no bidder has a
  valid bid: its latest envelope by the closing time, with an authentic signature, that opens and
  meets the required capabilities and the cost ceiling.  Otherwise the winner has a valid bid, its
  score is that bid's total, and no valid bid scores higher.
\<close>

theorem auction_close_awards_best:
  assumes "inj_on (sha256 cy) (set eligible)"
    and "versions_unique es" "res = evaluate_bids cy keys ann eligible z es"
  shows "(re_phase res = ''failed'' \<longleftrightarrow> (\<nexists>b e p. valid_bid cy keys ann eligible z es b e p)) \<and>
    (re_allocation res = None \<longleftrightarrow> re_phase res = ''failed'') \<and>
    (\<forall>al. re_allocation res = Some al \<longrightarrow>
       (\<exists>e p. valid_bid cy keys ann eligible z es (as_winner_id al) e p \<and> as_score al = total_score ann p) \<and>
       (\<forall>b e p. valid_bid cy keys ann eligible z es b e p \<longrightarrow> total_score ann p \<le> as_score al))"
proof -
  let ?acc = "acceptances (map (judge cy keys ann eligible) (sort_key fst (latest_envelopes z es [])))"
  let ?bid = "\<lambda>b e p. \<lparr>rb_bidder_id = b, rb_version = se_bid_version e, rb_submitted_at = se_submitted_at e, rb_payload = p\<rparr>"
  note acc = accepted_iff [OF assms(1,2), of _ keys ann z]
  note alloc = evaluate_allocation [of cy keys ann eligible z es, folded assms(3)]
  have valid: "?bid b e p \<in> set ?acc" if "valid_bid cy keys ann eligible z es b e p" for b e p
    unfolding acc using that by (intro exI [of _ e] exI [of _ p]) simp
  have empty: "score_bids ann ?acc = [] \<longleftrightarrow> (\<nexists>b e p. valid_bid cy keys ann eligible z es b e p)"
  proof -
    have "score_bids ann ?acc = [] \<longleftrightarrow> set ?acc = {}"
      unfolding set_empty2 [symmetric] by (simp add: score_bids_set)
    also have "\<dots> \<longleftrightarrow> (\<nexists>b e p. valid_bid cy keys ann eligible z es b e p)"
      using valid acc [THEN iffD1] by (metis ex_in_conv)
    finally show ?thesis .
  qed
  have "(\<exists>e p. valid_bid cy keys ann eligible z es (as_winner_id al) e p \<and> as_score al = total_score ann p) \<and>
       (\<forall>b e p. valid_bid cy keys ann eligible z es b e p \<longrightarrow> total_score ann p \<le> as_score al)"
    if al: "re_allocation res = Some al" for al
  proof -
    from alloc(2) al obtain w rest where w: "score_bids ann ?acc = w # rest"
        "as_winner_id al = rk_bidder_id w" "as_score al = rk_total_score w"
      by (cases "score_bids ann ?acc") auto
    then obtain r where r: "r \<in> set ?acc" "w = rank_bid ann r" using score_bids_set [of ann ?acc] by auto
    then obtain e p where v: "valid_bid cy keys ann eligible z es (rb_bidder_id r) e p" "r = ?bid (rb_bidder_id r) e p"
      using acc [of r] by blast
    have p: "rb_payload r = p" by (subst v(2)) simp
    have "total_score ann p' \<le> rk_total_score w" if "valid_bid cy keys ann eligible z es b' e' p'" for b' e' p'
      using score_bids_hd [OF w(1) valid [OF that]]
      by (auto simp: rank_key_def rank_bid_def less_eq_prod_def less_prod_def)
    then show ?thesis using w(2,3) r(2) v(1) p by (auto simp: rank_bid_def)
  qed
  then show ?thesis using alloc empty by (auto split: if_splits)
qed

definition demo_keys :: auction_keys where
  "demo_keys = \<lparr>ky_tenant_id = ''t'', ky_auction_id = ''a1'', ky_private_key = ''x'', ky_signing_secrets = [(''b'', ''sec'')]\<rparr>"

definition demo_envelope :: sealed_envelope where
  "demo_envelope = \<lparr>se_bidder_digest = ''b'', se_bid_version = 3, se_ciphertext = replicate 32 CHR ''0'' @ ''*p'',
     se_nonce = replicate 12 CHR ''n'', se_signature = sign_envelope demo_crypto ''sec'' ''a'' ''b'' 3 (replicate 12 CHR ''n'')
       (replicate 32 CHR ''0'' @ ''*p''), se_submitted_at = 50\<rparr>"

theorem auction_close_awards_best_witness:
  "re_phase (evaluate_bids demo_crypto demo_keys demo_announcement [''b''] 100 [demo_envelope]) \<noteq> ''failed''"
proof -
  have "open_bid demo_crypto ''x'' ''a'' ''b'' 3 (replicate 12 CHR ''n'') (replicate 32 CHR ''0'' @ ''*p'') = Inr (demo_payload 9000 2)"
    by (simp add: open_bid_def demo_crypto_def payload_ok_def demo_payload_def)
  then have "valid_bid demo_crypto demo_keys demo_announcement [''b''] 100 [demo_envelope] ''b'' demo_envelope (demo_payload 9000 2)"
    by (simp add: valid_bid_def demo_keys_def demo_envelope_def demo_announcement_def demo_payload_def verify_signature_def)
      (simp add: demo_crypto_def)
  then show ?thesis
    using auction_close_awards_best [of demo_crypto "[''b'']" "[demo_envelope]" _ demo_keys demo_announcement 100, OF _ _ refl]
    by (auto simp: versions_unique_def)
qed

end
