(* ===== verification/Auction_Close.thy ===== *)
theory Auction_Close
  imports Auction_Service
begin

text \<open>
  Closing is final.  The contract the auction service needs of its backend is a locale; the
  PostgreSQL registry, inbox and read model over one database satisfy it.
\<close>

section \<open>The backend contract\<close>

definition still_closed :: "('s, 'x) auction_backend_scheme \<Rightarrow> 's \<Rightarrow> 's \<Rightarrow> bool" where
  "still_closed be s s' \<longleftrightarrow> (\<forall>t a r. be_get be t a s = Inr (Some r) \<and> ar_state r = ''closed'' \<longrightarrow>
     be_get be t a s' = Inr (Some r))"

lemma still_closed_refl [simp]: "still_closed be s s"
  by (simp add: still_closed_def)

lemma still_closed_trans: "still_closed be s s' \<Longrightarrow> still_closed be s' s'' \<Longrightarrow> still_closed be s s''"
  by (simp add: still_closed_def)

text \<open>A command of the service: a bid names its auction, as the route resolves it.\<close>

datatype auction_command =
    OpenAuction "string \<times> string" "string \<Rightarrow> string" instant string string string "string list" rat duration
      "string list" string
  | PlaceBid instant string string "string option" string int string string string string
  | CloseAuction instant string string string

definition place_bid ::
  "auction_crypto \<Rightarrow> 's auction_backend \<Rightarrow> instant \<Rightarrow> string \<Rightarrow> string \<Rightarrow> string option \<Rightarrow> string \<Rightarrow> int \<Rightarrow> string \<Rightarrow>
   string \<Rightarrow> string \<Rightarrow> string \<Rightarrow> ('s, sealed_receipt option) op" where
  "place_bid cy be now t ss a bidder v c n sg k s =
     (case resolve_open_auction be t ss a s of
        Inl e \<Rightarrow> (Inl e, s)
      | Inr None \<Rightarrow> (Inr None, s)
      | Inr (Some r) \<Rightarrow> map_prod (map_sum id Some) id (accept_bid cy be now r bidder v c n sg k s))"

datatype auction_reply =
    OpenedAuction "(auction_record \<times> (string \<times> string) list) result"
  | PlacedBid "sealed_receipt option result"
  | ClosedAuction "auction_record result"

fun auction_step :: "auction_crypto \<Rightarrow> 's auction_backend \<Rightarrow> auction_command \<Rightarrow> 's \<Rightarrow> auction_reply \<times> 's" where
  "auction_step cy be (OpenAuction kp ns now t ss ob bs mc w cs k) s =
     map_prod OpenedAuction id (open_auction cy be kp ns now t ss ob bs mc w cs k s)"
| "auction_step cy be (PlaceBid now t ss a b v c n sg k) s =
     map_prod PlacedBid id (place_bid cy be now t ss a b v c n sg k s)"
| "auction_step cy be (CloseAuction now t ss a) s =
     map_prod ClosedAuction id (close_auction cy be now t ss a s)"

locale auction_store =
  fixes be :: "'s auction_backend" and inv :: "'s \<Rightarrow> bool"
  assumes create_keeps: "inv s \<Longrightarrow> ar_result r = None \<Longrightarrow> ar_closed_at r = None \<Longrightarrow>
      inv (snd (be_create be r s)) \<and> still_closed be s (snd (be_create be r s))"
    and submit_keeps: "inv s \<Longrightarrow> inv (snd (be_submit be now b s)) \<and> still_closed be s (snd (be_submit be now b s))"
    and close_keeps: "inv s \<Longrightarrow> inv (snd (be_close be t a res z s)) \<and> still_closed be s (snd (be_close be t a res z s))"
    and close_stores: "inv s \<Longrightarrow> be_get be t a s = Inr (Some r) \<Longrightarrow> ar_state r \<noteq> ''closed'' \<Longrightarrow>
      fst (be_close be t a res z s) = Inr (close_record res z r) \<and>
      be_get be t a (snd (be_close be t a res z s)) = Inr (Some (close_record res z r))"
    and save_keeps: "inv s \<Longrightarrow> be_read_model be = Some (rd, sv) \<Longrightarrow>
      inv (snd (sv p v s)) \<and> still_closed be s (snd (sv p v s))"
begin

lemma project_keeps: "inv s \<Longrightarrow> inv (snd (project cy be r res s)) \<and> still_closed be s (snd (project cy be r res s))"
  by (auto simp: project_def save_keeps split: option.split prod.split)

lemma open_keeps:
  assumes "inv s"
  shows "inv (snd (open_auction cy be kp ns now t ss ob bs mc w cs k s)) \<and>
    still_closed be s (snd (open_auction cy be kp ns now t ss ob bs mc w cs k s))"
proof -
  let ?r = "new_record cy kp (map (\<lambda>b. (b, ns b)) (remdups bs)) (now + w) t ss ob bs mc cs k"
  have "snd (open_auction cy be kp ns now t ss ob bs mc w cs k s) = snd (be_create be ?r s)"
    by (auto simp: open_auction_def Let_def split: prod.split sum.split)
  moreover have "ar_result ?r = None" "ar_closed_at ?r = None" by (simp_all add: new_record_def Let_def)
  ultimately show ?thesis using create_keeps [OF assms, of ?r] by simp
qed

lemma accept_keeps:
  "inv s \<Longrightarrow> inv (snd (accept_bid cy be now r b v c n sg k s)) \<and> still_closed be s (snd (accept_bid cy be now r b v c n sg k s))"
  by (auto simp: accept_bid_def submit_keeps split: sum.split option.split)

lemma close_auction_keeps:
  assumes "inv s"
  shows "inv (snd (close_auction cy be now t ss a s)) \<and> still_closed be s (snd (close_auction cy be now t ss a s))"
proof -
  let ?K = "\<lambda>s'. inv s' \<and> still_closed be s s'"
  have c: "?K s'" if "be_close be t a res z s = (x, s')" for res z x s'
    using close_keeps [OF assms, of t a res z] that by simp
  have p: "?K s''" if "be_close be t a res z s = (x, s')" "project cy be r res' s' = (y, s'')" for res z x s' r res' y s''
    using c [OF that(1)] project_keeps [of s' cy r res'] that(2) still_closed_trans by (metis snd_conv)
  show ?thesis
    unfolding close_auction_def Let_def using c p assms
    by (simp split: sum.split prod.split)
qed

lemma step_keeps: "inv s \<Longrightarrow> inv (snd (auction_step cy be c s)) \<and> still_closed be s (snd (auction_step cy be c s))"
  by (cases c)
    (auto simp: open_keeps close_auction_keeps accept_keeps place_bid_def split: sum.split option.split)

lemma run_keeps: "inv s \<Longrightarrow> inv (run_ops (auction_step cy be) s cs) \<and> still_closed be s (run_ops (auction_step cy be) s cs)"
proof (intro conjI)
  assume "inv s"
  then show "inv (run_ops (auction_step cy be) s cs)" by (rule run_ops_invariant) (simp add: step_keeps)
  show "still_closed be s (run_ops (auction_step cy be) s cs)"
    by (rule run_ops_mono [where I = inv]) (auto simp: step_keeps \<open>inv s\<close> intro: still_closed_trans)
qed

lemma close_auction_result:
  assumes "inv s" "close_auction cy be now t ss a s = (Inr r', s')"
    and "be_get be t a s = Inr (Some r)" "ar_state r \<noteq> ''closed''"
  shows "\<exists>keys. open_keys cy r = Inr keys \<and>
      r' = close_record (close_result cy be keys t a r (min now (ar_deadline r)) s) (min now (ar_deadline r)) r"
    and "be_get be t a s' = Inr (Some r')" "ar_session_id r = ss"
proof -
  show ss: "ar_session_id r = ss"
    using assms(2,3) by (auto simp: close_auction_def service_get_def split: if_splits)
  let ?z = "min now (ar_deadline r)"
  from assms(2-4) ss obtain keys res where k: "open_keys cy r = Inr keys" "res = close_result cy be keys t a r ?z s"
      "fst (be_close be t a res ?z s) = Inr r'"
      "s' = snd (project cy be r' res (snd (be_close be t a res ?z s)))"
    by (auto simp: close_auction_def service_get_def Let_def split: if_splits sum.splits prod.splits)
  have st: "r' = close_record res ?z r" "be_get be t a (snd (be_close be t a res ?z s)) = Inr (Some r')"
    using close_stores [OF assms(1,3,4), of res ?z] k(3) by auto
  then show "\<exists>keys. open_keys cy r = Inr keys \<and> r' = close_record (close_result cy be keys t a r ?z s) ?z r"
    using k(1,2) by blast
  show "be_get be t a s' = Inr (Some r')"
    using project_keeps [of "snd (be_close be t a res ?z s)" cy r' res] close_keeps [OF assms(1), of t a res ?z] st k(4)
    by (auto simp: still_closed_def close_record_def)
qed

lemma closed_forever:
  assumes "inv s" "be_get be t a s = Inr (Some r)" "ar_state r = ''closed''" "ar_session_id r = ss"
    and "s' = run_ops (auction_step cy be) s cs"
  shows "close_auction cy be now t ss a s' = (Inr r, s')"
    and "a \<noteq> [] \<Longrightarrow> place_bid cy be now t ss (Some a) b v c n sg k s' = (Inl (AuctionRegistryError ''auction is sealed''), s')"
proof -
  have "be_get be t a s' = Inr (Some r)" using run_keeps [OF assms(1)] assms(2,3,5) unfolding still_closed_def by blast
  then show "close_auction cy be now t ss a s' = (Inr r, s')"
    "a \<noteq> [] \<Longrightarrow> place_bid cy be now t ss (Some a) b v c n sg k s' = (Inl (AuctionRegistryError ''auction is sealed''), s')"
    using assms(3,4) by (simp_all add: close_auction_def place_bid_def resolve_open_auction_def service_get_def accept_bid_def)
qed

end

section \<open>PostgreSQL\<close>

record auction_db =
  ad_registry :: "registry_row list"
  ad_bids :: "bid_row list"
  ad_checkpoints :: checkpoint_table

definition pg_backend :: "bool \<Rightarrow> auction_crypto \<Rightarrow> auction_db auction_backend" where
  "pg_backend enforced cy =
     \<lparr>be_create = (\<lambda>r d. map_prod id (\<lambda>x. d\<lparr>ad_registry := x\<rparr>) (pg_registry_create enforced r (ad_registry d))),
      be_get = (\<lambda>t a d. pg_registry_get enforced t a (ad_registry d)),
      be_list_open = (\<lambda>t s d. pg_list_open enforced t s (ad_registry d)),
      be_close = (\<lambda>t a res z d. map_prod id (\<lambda>x. d\<lparr>ad_registry := x\<rparr>) (pg_registry_close enforced t a res z (ad_registry d))),
      be_submit = (\<lambda>now b d. map_prod id (\<lambda>x. d\<lparr>ad_bids := x\<rparr>)
        (pg_submit enforced (uuid5 cy) (sha256 cy) now b (ad_bids d))),
      be_envelopes = (\<lambda>t a d. pg_envelopes enforced t a (ad_bids d)),
      be_read_model = Some
        (\<lambda>t s e d. pg_pattern_get enforced ''market_auction'' t s e (ad_checkpoints d),
         \<lambda>r v d. map_prod id (\<lambda>x. d\<lparr>ad_checkpoints := x\<rparr>)
           (pg_pattern_save enforced (uuid5 cy) ''market_auction'' r v (ad_checkpoints d)))\<rparr>"

lemma pg_get_abs:
  "registry_inv rows \<Longrightarrow> pg_registry_get b t a rows = Inr (map_of (abs_registry rows) (t, a))"
  unfolding pg_registry_get_def abs_lookup by (subst registry_query) simp_all

lemma pg_create_keeps:
  assumes inv: "registry_inv rows"
  shows "registry_inv (snd (pg_registry_create b r rows)) \<and>
    (\<forall>t a. map_of (abs_registry rows) (t, a) = Some q \<longrightarrow>
       map_of (abs_registry (snd (pg_registry_create b r rows))) (t, a) = Some q)"
proof (cases "find (\<lambda>q. same_command r (rr_record q)) rows")
  case None
  then have "(ar_tenant_id r, ar_session_id r, ar_idempotency_key r)
      \<notin> (\<lambda>q. (rr_tenant q, ar_session_id (rr_record q), ar_idempotency_key (rr_record q))) ` set rows"
    by (auto simp: find_None_iff same_command_def)
  then show ?thesis
    using inv None create_query [OF inv, of r b]
    by (auto simp: pg_registry_create_def registry_inv_def abs_registry_def map_of_append map_add_Some_iff)
next
  case (Some x)
  then show ?thesis using inv create_query [OF inv, of r b] by (simp add: pg_registry_create_def)
qed

lemma pg_close_keeps:
  assumes inv: "registry_inv rows"
  shows "registry_inv (snd (pg_registry_close b t a res z rows)) \<and>
    (map_of (abs_registry rows) k = Some q \<and> ar_state q = ''closed'' \<longrightarrow>
       map_of (abs_registry (snd (pg_registry_close b t a res z rows))) k = Some q)"
    and "map_of (abs_registry rows) (t, a) = Some r \<Longrightarrow> ar_state r \<noteq> ''closed'' \<Longrightarrow>
      fst (pg_registry_close b t a res z rows) = Inr (close_record res z r) \<and>
      map_of (abs_registry (snd (pg_registry_close b t a res z rows))) (t, a) = Some (close_record res z r)"
proof -
  have key: "(t, a) \<in> row_key ` set rows" if "map_of (abs_registry rows) (t, a) = Some r" for r
    using map_of_SomeD [OF that] by (force simp: abs_registry_def)
  show "registry_inv (snd (pg_registry_close b t a res z rows)) \<and>
    (map_of (abs_registry rows) k = Some q \<and> ar_state q = ''closed'' \<longrightarrow>
       map_of (abs_registry (snd (pg_registry_close b t a res z rows))) k = Some q)"
  proof (cases "(t, a) \<in> row_key ` set rows")
    case True
    from close_refines [OF inv True, of b res z] show ?thesis
      by (cases "pg_registry_close b t a res z rows") (auto simp: mem_registry_close_def Let_def update_conv' split: option.splits if_splits)
  next
    case False
    then have "find (\<lambda>q. row_key q = (t, a)) rows = None" by (auto simp: find_None_iff image_iff)
    then have "exactly_one (filter (\<lambda>q. rr_tenant q = t \<and> ar_auction_id (rr_record q) = a) (rls_rows b rr_tenant t rows))
        = Inl NoResultFound"
      using registry_query [OF inv, of t a b] by (simp add: one_or_none_None)
    then show ?thesis using inv by (simp add: pg_registry_close_def)
  qed
  show "map_of (abs_registry rows) (t, a) = Some r \<Longrightarrow> ar_state r \<noteq> ''closed'' \<Longrightarrow>
      fst (pg_registry_close b t a res z rows) = Inr (close_record res z r) \<and>
      map_of (abs_registry (snd (pg_registry_close b t a res z rows))) (t, a) = Some (close_record res z r)"
    using close_refines [OF inv key, of r b res z]
    by (cases "pg_registry_close b t a res z rows") (auto simp: mem_registry_close_def Let_def update_conv')
qed

interpretation pg_auctions: auction_store "pg_backend enforced cy" "\<lambda>d. registry_inv (ad_registry d)"
  for enforced cy
  by unfold_locales
    (auto simp: pg_backend_def still_closed_def pg_get_abs pg_create_keeps pg_close_keeps split: prod.splits)

text \<open>
  C26: closing an auction is final.  When the close of an open auction returns, the auction has closed
  at the earlier of the clock and its deadline with the evaluation of the envelopes stored at that
  moment; and after any further openings, bids and closings, in any order and for any tenant, closing
  it again returns the same record and every bid on it is refused as sealed, both without changing
  anything.
\<close>

theorem auction_close_final:
  assumes "registry_inv (ad_registry d)" "pg_registry_get enforced t a (ad_registry d) = Inr (Some r)"
    and "ar_state r = ''open''" "a \<noteq> []"
    and "close_auction cy (pg_backend enforced cy) now t ss a d = (Inr r', d1)"
    and "d2 = run_ops (auction_step cy (pg_backend enforced cy)) d1 cs"
  shows "(\<exists>keys. open_keys cy r = Inr keys \<and> r' = close_record
        (evaluate_bids cy keys (close_announcement t a r (min now (ar_deadline r)))
           (an_eligible_bidder_ids (ar_announcement r)) (min now (ar_deadline r)) (pg_envelopes enforced t a (ad_bids d)))
        (min now (ar_deadline r)) r) \<and>
    close_auction cy (pg_backend enforced cy) now' t ss a d2 = (Inr r', d2) \<and>
    place_bid cy (pg_backend enforced cy) now' t ss (Some a) b v c n sg k d2
      = (Inl (AuctionRegistryError ''auction is sealed''), d2)"
proof -
  let ?be = "pg_backend enforced cy"
  have get: "be_get ?be t a d = Inr (Some r)" and ns: "ar_state r \<noteq> ''closed''"
    using assms(2,3) by (simp_all add: pg_backend_def)
  note res = pg_auctions.close_auction_result [OF assms(1,5) get ns]
  have "registry_inv (ad_registry (snd (close_auction cy ?be now t ss a d)))"
    using pg_auctions.close_auction_keeps [OF assms(1)] by blast
  then have inv1: "registry_inv (ad_registry d1)" using assms(5) by simp
  have cl: "ar_state r' = ''closed''" "ar_session_id r' = ss" using res(1,3) by (auto simp: close_record_def)
  note fin = pg_auctions.closed_forever [OF inv1 res(2) cl assms(6)]
  show ?thesis
    using res(1) fin(1) fin(2) [OF assms(4)] by (simp add: close_result_def pg_backend_def)
qed

definition demo_db :: auction_db where
  "demo_db = \<lparr>ad_registry = [\<lparr>rr_record = demo_auction ''1'', rr_version = 1\<rparr>], ad_bids = [], ad_checkpoints = []\<rparr>"

theorem auction_close_final_witness:
  "fst (place_bid demo_crypto (pg_backend True demo_crypto) 60 ''t'' ''s'' (Some ''a1'') ''b'' 1 ''c'' ''n'' ''g'' ''k''
     (snd (close_auction demo_crypto (pg_backend True demo_crypto) 50 ''t'' ''s'' ''a1'' demo_db)))
   = Inl (AuctionRegistryError ''auction is sealed'')"
proof -
  let ?be = "pg_backend True demo_crypto"
  let ?r = "close_auction demo_crypto ?be 50 ''t'' ''s'' ''a1'' demo_db"
  have get: "pg_registry_get True ''t'' ''a1'' (ad_registry demo_db) = Inr (Some (demo_auction ''1''))"
    by (simp add: pg_registry_get_def demo_db_def demo_auction_def)
  have ok: "announcement_ok (close_announcement ''t'' ''a1'' (demo_auction ''1'') 50)"
    by (simp add: close_announcement_def demo_auction_def announcement_ok_def weights_ok_def demo_announcement_def)
  have keys: "\<exists>k. open_keys demo_crypto (demo_auction ''1'') = Inr k"
    by (simp add: open_keys_def demo_auction_def demo_crypto_def)
  have cl: "fst (pg_registry_close True ''t'' ''a1'' res 50 (ad_registry demo_db))
      = Inr (close_record res 50 (demo_auction ''1''))" for res
    by (simp add: pg_registry_close_def demo_db_def demo_auction_def)
  have pr: "\<exists>d'. project demo_crypto ?be q res (demo_db\<lparr>ad_registry := rows\<rparr>) = (Inr (), d')" for q res rows
    by (simp add: project_def pg_backend_def demo_db_def pg_pattern_get_def pg_pattern_list_def pg_pattern_save_def
        checkpoint_insert_ok_def)
  have "\<exists>d'. close_auction demo_crypto ?be 50 ''t'' ''s'' ''a1'' demo_db
      = (Inr (close_record (close_result demo_crypto ?be k ''t'' ''a1'' (demo_auction ''1'') 50 demo_db) 50 (demo_auction ''1'')), d')"
    if "open_keys demo_crypto (demo_auction ''1'') = Inr k" for k
  proof -
    have st: "ar_state (demo_auction ''1'') = ''open''" "ar_session_id (demo_auction ''1'') = ''s''"
        "ar_deadline (demo_auction ''1'') = 100" by (simp_all add: demo_auction_def)
    have be: "be_get ?be ''t'' ''a1'' demo_db = Inr (Some (demo_auction ''1''))"
      "be_close ?be ''t'' ''a1'' res 50 demo_db = (Inr (close_record res 50 (demo_auction ''1'')),
         demo_db\<lparr>ad_registry := snd (pg_registry_close True ''t'' ''a1'' res 50 (ad_registry demo_db))\<rparr>)" for res
      using get cl [of res] by (simp_all add: pg_backend_def prod_eq_iff)
    let ?res = "close_result demo_crypto ?be k ''t'' ''a1'' (demo_auction ''1'') 50 demo_db"
    obtain d' where "project demo_crypto ?be (close_record ?res 50 (demo_auction ''1'')) ?res
        (demo_db\<lparr>ad_registry := snd (pg_registry_close True ''t'' ''a1'' ?res 50 (ad_registry demo_db))\<rparr>) = (Inr (), d')"
      using pr by blast
    then show ?thesis using that ok by (simp add: close_auction_def service_get_def be st)
  qed
  then obtain r' where r': "?r = (Inr r', snd ?r)" using keys by (metis snd_conv)
  have "registry_inv (ad_registry demo_db)" "ar_state (demo_auction ''1'') = ''open''"
    by (simp_all add: demo_db_def registry_inv_def demo_auction_def)
  from auction_close_final [OF this(1) get this(2) _ r', where cs = "[]", OF _ refl] show ?thesis by simp
qed

end
