(* ===== verification/Event_Log.thy ===== *)
theory Event_Log
  imports Session_Log
begin

text \<open>
  The part of the event log that every writer keeps (the session store, the handoff repository, the
  cancellation repository): sessions, events and outbox rows have distinct ids, every event belongs
  to a session and has its outbox row in the same position, and the events of each session carry the
  numbers from 1 up to the session's next sequence number.
\<close>

definition numbered :: "coord_db \<Rightarrow> session_row \<Rightarrow> bool" where
  "numbered db r \<longleftrightarrow> 1 \<le> ss_next_sequence r \<and>
     map ev_sequence (session_events db (session_key r)) = map int [1..<nat (ss_next_sequence r)]"

definition log_inv :: "coord_db \<Rightarrow> bool" where
  "log_inv db \<longleftrightarrow> distinct_ids db \<and> distinct (map ob_id (db_outbox db)) \<and>
     map ob_event_id (db_outbox db) = map ev_id (db_events db) \<and>
     event_key ` set (db_events db) \<subseteq> session_key ` set (db_sessions db) \<and>
     list_all (numbered db) (db_sessions db)"

lemma log_inv_empty: "log_inv empty_db"
  by (simp add: log_inv_def distinct_ids_def empty_db_def)

lemma log_inv_ids: "log_inv db \<Longrightarrow> distinct_ids db"
  by (simp add: log_inv_def)

text \<open>A writer selects one session row, takes its next number, and appends one event and one outbox row.\<close>

definition log_append ::
  "(session_row \<Rightarrow> bool) \<Rightarrow> (session_row \<Rightarrow> session_row) \<Rightarrow> event_row \<Rightarrow> outbox_row \<Rightarrow> coord_db \<Rightarrow> coord_db" where
  "log_append P f e out db = db\<lparr>db_sessions := update_where P f (db_sessions db),
     db_events := db_events db @ [e], db_outbox := db_outbox db @ [out]\<rparr>"

definition numbers_next :: "coord_db \<Rightarrow> session_row \<Rightarrow> (session_row \<Rightarrow> bool) \<Rightarrow> (session_row \<Rightarrow> session_row) \<Rightarrow>
    event_row \<Rightarrow> outbox_row \<Rightarrow> bool" where
  "numbers_next db row P f e out \<longleftrightarrow> row \<in> set (db_sessions db) \<and> (\<forall>r \<in> set (db_sessions db). P r \<longleftrightarrow> r = row) \<and>
     session_key (f row) = session_key row \<and> ss_next_sequence (f row) = ss_next_sequence row + 1 \<and>
     event_key e = session_key row \<and> ev_sequence e = ss_next_sequence row \<and> ob_event_id out = ev_id e \<and>
     event_insert_ok e (db_events db) \<and> outbox_insert_ok out (db_outbox db)"

lemma log_inv_append:
  assumes inv: "log_inv db" and nn: "numbers_next db row P f e out"
  shows "log_inv (log_append P f e out db)"
proof -
  let ?db = "log_append P f e out db"
  have d: "distinct (map ss_id (db_sessions db))" using inv by (simp add: log_inv_def distinct_ids_def)
  have row: "row \<in> set (db_sessions db)" and P: "\<And>r. r \<in> set (db_sessions db) \<Longrightarrow> P r \<longleftrightarrow> r = row"
    and f: "session_key (f row) = session_key row" "ss_next_sequence (f row) = ss_next_sequence row + 1"
    and e: "event_key e = session_key row" "ev_sequence e = ss_next_sequence row"
    using nn by (auto simp: numbers_next_def)
  have same: "session_key (if P r then f r else r) = session_key r" if "r \<in> set (db_sessions db)" for r
    using P [OF that] f(1) by simp
  have keys: "map session_key (db_sessions ?db) = map session_key (db_sessions db)"
    unfolding log_append_def update_where_def by (simp add: comp_def same cong: map_cong)
  then have "map snd (map session_key (db_sessions ?db)) = map snd (map session_key (db_sessions db))" by (rule arg_cong)
  then have ids: "map ss_id (db_sessions ?db) = map ss_id (db_sessions db)" by (simp add: session_key_def comp_def)
  have sub: "event_key ` set (db_events ?db) \<subseteq> session_key ` set (db_sessions ?db)"
    using inv e(1) row arg_cong [OF keys, of set] by (auto simp: log_inv_def log_append_def)
  have num: "numbered db r" if "r \<in> set (db_sessions db)" for r
    using inv that by (simp add: log_inv_def list_all_iff)
  have ev: "session_events ?db k = session_events db k @ (if k = session_key row then [e] else [])" for k
    by (auto simp: session_events_def log_append_def e(1))
  have "[1..<nat (ss_next_sequence row + 1)] = [1..<nat (ss_next_sequence row)] @ [nat (ss_next_sequence row)]"
    using num [OF row] upt_Suc_append [of 1 "nat (ss_next_sequence row)"] by (auto simp: numbered_def nat_add_distrib)
  then have "numbered ?db (f row)"
    using num [OF row] f e(2) by (simp add: numbered_def ev)
  moreover have "numbered ?db r" if "r \<in> set (db_sessions db)" "r \<noteq> row" for r
  proof -
    have "session_key r \<noteq> session_key row"
      using that row distinct_session_key [OF d] by (auto simp: distinct_map inj_on_def)
    then show ?thesis using num [OF that(1)] by (simp add: numbered_def ev)
  qed
  ultimately have "list_all (numbered ?db) (db_sessions ?db)"
    using P by (auto simp: list_all_iff log_append_def set_update_where split: if_splits)
  then show ?thesis
    using inv nn ids sub
    by (auto simp: log_inv_def distinct_ids_def numbers_next_def event_insert_ok_def outbox_insert_ok_def)
      (auto simp: log_append_def)
qed

lemma log_inv_no_events:
  "log_inv db \<Longrightarrow> k \<notin> session_key ` set (db_sessions db) \<Longrightarrow> session_events db k = []"
  by (auto simp: log_inv_def session_events_def filter_empty_conv)

lemma log_inv_create:
  assumes inv: "log_inv db"
  shows "log_inv (snd (pg_create_session enforced t civ goal pol bud sid fr now db))"
proof (cases "str_or sid fr \<in> ss_id ` set (db_sessions db)")
  case True
  then have "snd (pg_create_session enforced t civ goal pol bud sid fr now db) = db"
    by (auto simp: pg_create_session_def Let_def)
  then show ?thesis using inv by simp
next
  case False
  obtain new where new: "snd (pg_create_session enforced t civ goal pol bud sid fr now db) = db\<lparr>db_sessions := db_sessions db @ [new]\<rparr>"
      "ss_next_sequence new = 1" "ss_id new = str_or sid fr" "ss_tenant_id new = t"
    using False by (auto simp: pg_create_session_def Let_def)
  have "session_key new \<notin> session_key ` set (db_sessions db)"
    using False new(3) by (auto simp: session_key_def)
  then have "session_events db (session_key new) = []" by (rule log_inv_no_events [OF inv])
  then have "numbered (db\<lparr>db_sessions := db_sessions db @ [new]\<rparr>) new"
    using new(2) by (simp add: numbered_def session_events_def)
  moreover have "numbered (db\<lparr>db_sessions := db_sessions db @ [new]\<rparr>) r = numbered db r" for r
    by (simp add: numbered_def session_events_def)
  ultimately show ?thesis
    using inv False new by (auto simp: log_inv_def distinct_ids_def list_all_iff)
qed

lemma log_inv_transition:
  assumes inv: "log_inv db"
  shows "log_inv (snd (pg_transition_session enforced u t s v target k now rid db))"
proof (rule pg_transition_cases [OF log_inv_ids [OF inv], where u = u and t = t and s = s and k = k and v = v and target = target
      and now = now and rid = rid and enforced = enforced], goal_cases)
  case (3 row)
  let ?P = "\<lambda>r. ss_id r = ss_id row \<and> ss_tenant_id r = ss_tenant_id row \<and> ss_version r = ss_version row"
  let ?f = "\<lambda>r. r\<lparr>ss_state := target, ss_next_sequence := ss_next_sequence row + 1, ss_version := ss_version row + 1, ss_updated_at := now\<rparr>"
  let ?acc = "accepted_of u row target k"
  let ?e = "transition_event (ss_tenant_id row) (ss_id row) k (ss_state row) now ?acc"
  let ?o = "transition_outbox (ss_tenant_id row) (ss_id row) k (ss_state row) now ?acc rid"
  have row: "row \<in> set (db_sessions db)" using session_at_Some [OF 3(2)] by simp
  have "?P r \<longleftrightarrow> r = row" if "r \<in> set (db_sessions db)" for r
    using log_inv_ids [OF inv] row that by (auto simp: distinct_ids_def distinct_map inj_on_def)
  then have "numbers_next db row ?P ?f ?e ?o"
    using row 3(5) by (auto simp: numbers_next_def session_key_def event_key_def insertable_def Let_def
        transition_event_def transition_outbox_def accepted_of_def)
  from log_inv_append [OF inv this] show ?case using 3(6) by (simp add: appended_def log_append_def Let_def)
qed (use inv in auto)

lemma session_at_update:
  assumes "log_inv db" "session_at db (t, s) = Some row" "\<And>r. session_key (f r) = session_key r"
    and "db_sessions db' = update_where (\<lambda>r. ss_id r = s \<and> (True \<longrightarrow> ss_tenant_id r = t)) f (db_sessions db)"
  shows "session_at db' (t, s) = Some (f row)"
  using find_update_where [of "\<lambda>r. ss_id r = s \<and> (True \<longrightarrow> ss_tenant_id r = t)" session_key f "(t, s)" "db_sessions db"]
    assms session_at_Some [OF assms(2)] by (auto simp: session_at_def session_key_def)

lemma log_inv_step: "log_inv db \<Longrightarrow> log_inv (snd (pg_step enforced u c db))"
  by (cases c) (auto simp: log_inv_create log_inv_transition)

end
