(* ===== verification/Handoff_Store.thy ===== *)
theory Handoff_Store
  imports Event_Log "HOL-Library.Product_Lexorder"
begin

text \<open>
  Handoffs between agents: the record and its lifecycle (\<open>handoffs/models.py\<close>,
  \<open>handoffs/state_machine.py\<close>) and both repositories (\<open>handoffs/repository.py\<close>).  The PostgreSQL
  repository writes the handoff row, one event with the session's next sequence number and one outbox
  row in a single transaction.  \<open>uuid5\<close> is a parameter; clock readings are arguments.
\<close>

section \<open>The record and its lifecycle\<close>

record handoff_record =
  hr_handoff_id :: string
  hr_tenant_id :: string
  hr_session_id :: string
  hr_civilization_id :: string
  hr_source_agent_id :: string
  hr_target_agent_id :: string
  hr_task_summary :: string
  hr_context_message_ids :: "string list"
  hr_artifact_refs :: "string list"
  hr_connector_allowlist :: "string set"
  hr_classification :: string
  hr_remaining_budget_usd :: rat
  hr_deadline :: instant
  hr_acceptance_token_digest :: string
  hr_state :: string
  hr_result_reference :: "string option"
  hr_version :: int
  hr_idempotency_key :: string
  hr_created_at :: instant
  hr_updated_at :: instant

definition HANDOFF_STATE_TRANSITIONS :: transition_table where
  "HANDOFF_STATE_TRANSITIONS =
    [(''requested'', [''accepted'', ''rejected'', ''expired'', ''cancelled'']),
     (''accepted'', [''executing'', ''cancelled'', ''expired'']),
     (''executing'', [''completed'', ''failed'', ''cancelled'', ''expired'']),
     (''rejected'', []), (''expired'', []), (''completed'', []), (''failed'', []), (''cancelled'', [])]"

text \<open>The states of the enumeration are the keys of its table.\<close>

abbreviation handoff_states :: "string list" where
  "handoff_states \<equiv> map fst HANDOFF_STATE_TRANSITIONS"

definition move_handoff :: "string \<Rightarrow> string \<Rightarrow> string result" where
  "move_handoff current target = transition_in current target HANDOFF_STATE_TRANSITIONS"

definition hex_digest :: "string \<Rightarrow> bool" where
  "hex_digest s \<longleftrightarrow> length s = 64 \<and> set s \<subseteq> set ''0123456789abcdef''"

text \<open>What the model validates when a record is built.\<close>

definition handoff_record_ok :: "handoff_record \<Rightarrow> bool" where
  "handoff_record_ok r \<longleftrightarrow> hr_handoff_id r \<noteq> [] \<and> hr_tenant_id r \<noteq> [] \<and> hr_session_id r \<noteq> [] \<and>
     hr_civilization_id r \<noteq> [] \<and> hr_source_agent_id r \<noteq> [] \<and> hr_target_agent_id r \<noteq> [] \<and>
     hr_task_summary r \<noteq> [] \<and> length (hr_task_summary r) \<le> 2000 \<and>
     hr_classification r \<in> {''public'', ''internal'', ''confidential'', ''restricted''} \<and>
     0 \<le> hr_remaining_budget_usd r \<and> hex_digest (hr_acceptance_token_digest r) \<and>
     hr_state r \<in> set handoff_states \<and> 0 < hr_version r \<and> hr_idempotency_key r \<noteq> [] \<and>
     hr_source_agent_id r \<noteq> hr_target_agent_id r \<and> hr_created_at r < hr_deadline r"

text \<open>\<open>result_reference or record.result_reference\<close>.\<close>

definition ref_or :: "string option \<Rightarrow> string option \<Rightarrow> string option" where
  "ref_or a b = (if a = None \<or> a = Some [] then b else a)"

definition moved_handoff :: "handoff_record \<Rightarrow> string \<Rightarrow> string option \<Rightarrow> instant \<Rightarrow> handoff_record" where
  "moved_handoff r state ref now = r\<lparr>hr_state := state, hr_version := hr_version r + 1, hr_updated_at := now,
     hr_result_reference := ref_or ref (hr_result_reference r)\<rparr>"

definition handoff_event :: "handoff_record \<Rightarrow> string \<Rightarrow> string \<Rightarrow> instant \<Rightarrow> handoff_transition" where
  "handoff_event r state key now = \<lparr>ht_handoff_id = hr_handoff_id r, ht_from_state = hr_state r, ht_to_state = state,
     ht_version = hr_version r + 1, ht_idempotency_key = key,
     ht_event_type = ''handoff.'' @ state @ ''.v1'', ht_occurred_at = now\<rparr>"

definition delegated :: "string \<Rightarrow> bool" where
  "delegated s \<longleftrightarrow> s \<in> {''accepted'', ''executing''}"

section \<open>In memory\<close>

record mem_handoffs =
  mh_records :: "((string \<times> string) \<times> handoff_record) list"
  mh_commands :: "string \<times> string \<times> string \<rightharpoonup> handoff_transition"

definition mem_handoff_create :: "handoff_record \<Rightarrow> (mem_handoffs, handoff_record \<times> bool) op" where
  "mem_handoff_create r m =
     (let key = (hr_tenant_id r, hr_handoff_id r) in
      case map_of (mh_records m) key of
        Some existing \<Rightarrow>
          if hr_idempotency_key existing = hr_idempotency_key r then (Inr (existing, True), m)
          else (Inl (OptimisticConflictMessage ''handoff already exists''), m)
      | None \<Rightarrow> (Inr (r, False), m\<lparr>mh_records := AList.update key r (mh_records m)\<rparr>))"

definition mem_handoff_get :: "string \<Rightarrow> string \<Rightarrow> mem_handoffs \<Rightarrow> handoff_record option" where
  "mem_handoff_get t h m = map_of (mh_records m) (t, h)"

definition mem_handoff_transition ::
  "instant \<Rightarrow> string \<Rightarrow> string \<Rightarrow> string \<Rightarrow> int \<Rightarrow> string \<Rightarrow> string option \<Rightarrow>
   (mem_handoffs, handoff_record \<times> handoff_transition \<times> bool) op" where
  "mem_handoff_transition now t h target expected key ref m =
     (case mh_commands m (t, h, key) of
        Some prior \<Rightarrow>
          (case map_of (mh_records m) (t, h) of
             None \<Rightarrow> (Inl (KeyError h), m) | Some r \<Rightarrow> (Inr (r, prior, True), m))
      | None \<Rightarrow>
     (case map_of (mh_records m) (t, h) of
        None \<Rightarrow> (Inl (KeyError h), m)
      | Some r \<Rightarrow>
          if hr_version r \<noteq> expected then (Inl (OptimisticConflictError expected (hr_version r)), m)
          else case move_handoff (hr_state r) target of
                 Inl e \<Rightarrow> (Inl e, m)
               | Inr state \<Rightarrow>
                   let updated = moved_handoff r state ref now;
                       event = handoff_event r state key now
                   in (Inr (updated, event, False),
                       m\<lparr>mh_records := AList.update (t, h) updated (mh_records m),
                         mh_commands := (mh_commands m)((t, h, key) \<mapsto> event)\<rparr>)))"

definition after_cursor :: "(instant \<times> string) option \<Rightarrow> handoff_record \<Rightarrow> bool" where
  "after_cursor c r \<longleftrightarrow> (case c of None \<Rightarrow> True | Some p \<Rightarrow> p < (hr_deadline r, hr_handoff_id r))"

definition overdue_page :: "instant \<Rightarrow> nat \<Rightarrow> (instant \<times> string) option \<Rightarrow> handoff_record list \<Rightarrow> handoff_record list" where
  "overdue_page now limit c rs = take limit (sort_key (\<lambda>r. (hr_deadline r, hr_handoff_id r))
     (filter (\<lambda>r. delegated (hr_state r) \<and> hr_deadline r < now \<and> after_cursor c r) rs))"

definition mem_list_overdue ::
  "instant \<Rightarrow> nat \<Rightarrow> (instant \<times> string) option \<Rightarrow> mem_handoffs \<Rightarrow> handoff_record list" where
  "mem_list_overdue now limit c m = overdue_page now limit c (map snd (mh_records m))"

section \<open>PostgreSQL\<close>

record handoff_row =
  ho_record :: handoff_record
  ho_transition_audit :: "handoff_transition list"

abbreviation ho_tenant :: "handoff_row \<Rightarrow> string" where
  "ho_tenant r \<equiv> hr_tenant_id (ho_record r)"

record handoff_db =
  hd_coord :: coord_db
  hd_handoffs :: "handoff_row list"

definition record_from_row :: "handoff_row \<Rightarrow> handoff_record result" where
  "record_from_row row =
     (if handoff_record_ok (ho_record row) then Inr (ho_record row) else Inl (ValueError ''HandoffRecord''))"

definition allocated_event ::
  "string \<Rightarrow> string \<Rightarrow> string \<Rightarrow> string \<Rightarrow> string \<Rightarrow> string \<Rightarrow> event_payload \<Rightarrow> instant \<Rightarrow> int \<Rightarrow> event_row" where
  "allocated_event t s event_id event_type key cls payload now sequence =
     \<lparr>ev_id = event_id, ev_tenant_id = t, ev_session_id = s, ev_sequence = sequence, ev_schema_version = 1,
      ev_event_type = event_type, ev_occurred_at = now, ev_correlation_id = s, ev_causation_id = '''',
      ev_idempotency_key = key, ev_classification = cls, ev_payload = payload\<rparr>"

definition allocated_outbox ::
  "string \<Rightarrow> string \<Rightarrow> string \<Rightarrow> string \<Rightarrow> string \<Rightarrow> string \<Rightarrow> event_payload \<Rightarrow> instant \<Rightarrow> int \<Rightarrow> string option \<Rightarrow>
   string \<Rightarrow> outbox_row" where
  "allocated_outbox t s event_id event_type key cls payload now sequence causation row_id =
     \<lparr>ob_id = row_id, ob_event_id = event_id, ob_tenant_id = t, ob_session_id = s,
      ob_stream = ''coord:'' @ t @ '':'' @ s,
      ob_payload = \<lparr>en_event_id = event_id, en_tenant_id = t, en_session_id = s, en_sequence = sequence,
        en_schema_version = 1, en_event_type = event_type, en_occurred_at = now, en_correlation_id = s,
        en_causation_id = causation, en_idempotency_key = key, en_classification = cls, en_payload = payload\<rparr>,
      ob_state = ''pending'', ob_attempt_count = 0, ob_available_at = now, ob_claim_owner = '''',
      ob_claimed_at = None, ob_published_at = None, ob_last_error = '''', ob_created_at = now\<rparr>"

text \<open>The session is found by its id alone; row-level security restricts it to the tenant.\<close>

definition allocate_event ::
  "bool \<Rightarrow> (string \<Rightarrow> string \<Rightarrow> string) \<Rightarrow> string \<Rightarrow> string \<Rightarrow> string \<Rightarrow> string \<Rightarrow> string \<Rightarrow> string \<Rightarrow> event_payload \<Rightarrow>
   instant \<Rightarrow> (coord_db, int) op" where
  "allocate_event enforced uuid5 t s event_id event_type key cls payload now db =
     (case one_or_none (filter (\<lambda>r. ss_id r = s) (rls_rows enforced ss_tenant_id t (db_sessions db))) of
        Inl e \<Rightarrow> (Inl e, db)
      | Inr None \<Rightarrow> (Inl (KeyError s), db)
      | Inr (Some session) \<Rightarrow>
          let sequence = ss_next_sequence session;
              event = allocated_event t s event_id event_type key cls payload now sequence;
              out = allocated_outbox t s event_id event_type key cls payload now sequence None
                (uuid5 ''NAMESPACE_URL'' (''outbox:'' @ event_id))
          in if \<not> event_insert_ok event (db_events db) then (Inl (IntegrityError ''coordination_events''), db)
             else if \<not> outbox_insert_ok out (db_outbox db) then (Inl (IntegrityError ''coordination_outbox''), db)
             else (Inr sequence, db\<lparr>
               db_sessions := update_where (\<lambda>r. ss_id r = s \<and> (enforced \<longrightarrow> ss_tenant_id r = t))
                 (\<lambda>r. r\<lparr>ss_next_sequence := sequence + 1, ss_updated_at := now\<rparr>) (db_sessions db),
               db_events := db_events db @ [event], db_outbox := db_outbox db @ [out]\<rparr>))"

definition request_event_id :: "(string \<Rightarrow> string \<Rightarrow> string) \<Rightarrow> handoff_record \<Rightarrow> string" where
  "request_event_id uuid5 r = uuid5 ''NAMESPACE_URL'' (''handoff-request:'' @ hr_tenant_id r @ '':'' @
     hr_session_id r @ '':'' @ hr_idempotency_key r)"

definition transition_event_id :: "(string \<Rightarrow> string \<Rightarrow> string) \<Rightarrow> string \<Rightarrow> string \<Rightarrow> string \<Rightarrow> string" where
  "transition_event_id uuid5 t h key = uuid5 ''NAMESPACE_URL'' (''handoff-transition:'' @ t @ '':'' @ h @ '':'' @ key)"

text \<open>The primary key of \<open>handoffs\<close> and its unique command.\<close>

definition handoff_insert_ok :: "handoff_record \<Rightarrow> handoff_row list \<Rightarrow> bool" where
  "handoff_insert_ok r rows \<longleftrightarrow> hr_handoff_id r \<notin> (\<lambda>q. hr_handoff_id (ho_record q)) ` set rows \<and>
     (hr_tenant_id r, hr_session_id r, hr_idempotency_key r)
       \<notin> (\<lambda>q. (ho_tenant q, hr_session_id (ho_record q), hr_idempotency_key (ho_record q))) ` set rows"

definition pg_handoff_create ::
  "bool \<Rightarrow> (string \<Rightarrow> string \<Rightarrow> string) \<Rightarrow> handoff_record \<Rightarrow> (handoff_db, handoff_record \<times> bool) op" where
  "pg_handoff_create enforced uuid5 r db =
     (case one_or_none (filter (\<lambda>q. hr_session_id (ho_record q) = hr_session_id r \<and>
             hr_idempotency_key (ho_record q) = hr_idempotency_key r)
             (rls_rows enforced ho_tenant (hr_tenant_id r) (hd_handoffs db))) of
        Inl e \<Rightarrow> (Inl e, db)
      | Inr (Some prior) \<Rightarrow> (map_sum id (\<lambda>x. (x, True)) (record_from_row prior), db)
      | Inr None \<Rightarrow>
          if \<not> handoff_insert_ok r (hd_handoffs db) then (Inl (IntegrityError ''handoffs''), db)
          else case allocate_event enforced uuid5 (hr_tenant_id r) (hr_session_id r) (request_event_id uuid5 r)
                      ''handoff.requested.v1'' (hr_idempotency_key r) (hr_classification r)
                      (HandoffPayload (hr_handoff_id r) (hr_version r) None) (hr_created_at r) (hd_coord db) of
                 (Inl e, _) \<Rightarrow> (Inl e, db)
               | (Inr _, coord) \<Rightarrow>
                   (Inr (r, False), \<lparr>hd_coord = coord,
                      hd_handoffs = hd_handoffs db @ [\<lparr>ho_record = r, ho_transition_audit = []\<rparr>]\<rparr>))"

definition handoff_query :: "bool \<Rightarrow> string \<Rightarrow> string \<Rightarrow> handoff_db \<Rightarrow> handoff_row list" where
  "handoff_query enforced t h db = filter (\<lambda>q. hr_handoff_id (ho_record q) = h)
     (rls_rows enforced ho_tenant t (hd_handoffs db))"

definition pg_handoff_get :: "bool \<Rightarrow> string \<Rightarrow> string \<Rightarrow> handoff_db \<Rightarrow> handoff_record option result" where
  "pg_handoff_get enforced t h db =
     (case one_or_none (handoff_query enforced t h db) of
        Inl e \<Rightarrow> Inl e
      | Inr None \<Rightarrow> Inr None
      | Inr (Some row) \<Rightarrow> map_sum id Some (record_from_row row))"

definition pg_handoff_transition ::
  "bool \<Rightarrow> (string \<Rightarrow> string \<Rightarrow> string) \<Rightarrow> instant \<Rightarrow> string \<Rightarrow> string \<Rightarrow> string \<Rightarrow> int \<Rightarrow> string \<Rightarrow> string option \<Rightarrow>
   (handoff_db, handoff_record \<times> handoff_transition \<times> bool) op" where
  "pg_handoff_transition enforced uuid5 now t h target expected key ref db =
     (let event_id = transition_event_id uuid5 t h key in
      case one_or_none (filter (\<lambda>e. ev_id e = event_id) (rls_rows enforced ev_tenant_id t (db_events (hd_coord db)))) of
        Inl e \<Rightarrow> (Inl e, db)
      | Inr (Some prior) \<Rightarrow>
          (case exactly_one (handoff_query enforced t h db) of
             Inl e \<Rightarrow> (Inl e, db)
           | Inr row \<Rightarrow>
               (case record_from_row row of
                  Inl e \<Rightarrow> (Inl e, db)
                | Inr r \<Rightarrow>
                    (case ev_payload prior of
                       HandoffPayload _ _ (Some tr) \<Rightarrow> (Inr (r, tr, True), db)
                     | _ \<Rightarrow> (Inl (KeyError ''transition''), db))))
      | Inr None \<Rightarrow>
     (case one_or_none (handoff_query enforced t h db) of
        Inl e \<Rightarrow> (Inl e, db)
      | Inr None \<Rightarrow> (Inl (KeyError h), db)
      | Inr (Some row) \<Rightarrow>
     (case record_from_row row of
        Inl e \<Rightarrow> (Inl e, db)
      | Inr r \<Rightarrow>
          if hr_version r \<noteq> expected then (Inl (OptimisticConflictError expected (hr_version r)), db)
          else case move_handoff (hr_state r) target of
                 Inl e \<Rightarrow> (Inl e, db)
               | Inr state \<Rightarrow>
                   let updated = moved_handoff r state ref now;
                       event = handoff_event r state key now
                   in case allocate_event enforced uuid5 t (hr_session_id r) event_id (ht_event_type event) key
                             (hr_classification r) (HandoffPayload h (hr_version updated) (Some event)) now
                             (hd_coord db) of
                        (Inl e, _) \<Rightarrow> (Inl e, db)
                      | (Inr _, coord) \<Rightarrow>
                          (Inr (updated, event, False), \<lparr>hd_coord = coord,
                             hd_handoffs = update_where (\<lambda>q. hr_handoff_id (ho_record q) = h \<and>
                               hr_version (ho_record q) = expected \<and> (enforced \<longrightarrow> ho_tenant q = t))
                               (\<lambda>q. q\<lparr>ho_record := (ho_record q)\<lparr>hr_state := state,
                                    hr_result_reference := hr_result_reference updated,
                                    hr_version := hr_version updated, hr_updated_at := now\<rparr>,
                                  ho_transition_audit := ho_transition_audit row @ [event]\<rparr>) (hd_handoffs db)\<rparr>))))"

text \<open>The sweeps read every tenant, on a connection that bypasses row-level security.\<close>

definition collect_records :: "handoff_row list \<Rightarrow> handoff_record list result" where
  "collect_records rows = (case map record_from_row rows of rs \<Rightarrow>
     (case filter raised rs of [] \<Rightarrow> Inr (map projr rs) | r # _ \<Rightarrow> Inl (projl r)))"

definition pg_list_overdue ::
  "instant \<Rightarrow> nat \<Rightarrow> (instant \<times> string) option \<Rightarrow> handoff_db \<Rightarrow> handoff_record list result" where
  "pg_list_overdue now limit c db = collect_records (take limit
     (sort_key (\<lambda>q. (hr_deadline (ho_record q), hr_handoff_id (ho_record q)))
       (filter (\<lambda>q. delegated (hr_state (ho_record q)) \<and> hr_deadline (ho_record q) < now \<and>
          after_cursor c (ho_record q)) (hd_handoffs db))))"

text \<open>
  The ended handoffs whose parent session still waits: the system session reads every tenant.  The
  second query selects the rows of the ids found and states no order; rows keep the table's.
\<close>

definition handoff_ended :: "string \<Rightarrow> bool" where
  "handoff_ended st \<longleftrightarrow> st \<in> {''completed'', ''failed'', ''cancelled'', ''expired''}"

definition awaits_resume :: "instant \<Rightarrow> handoff_db \<Rightarrow> handoff_record \<Rightarrow> session_row \<Rightarrow> bool" where
  "awaits_resume since db r s \<longleftrightarrow>
     ss_id s = hr_session_id r \<and> ss_tenant_id s = hr_tenant_id r \<and> handoff_ended (hr_state r) \<and> hr_updated_at r \<ge> since \<and>
     ss_state s = ''paused'' \<and> ss_updated_at s \<le> hr_updated_at r \<and>
     \<not> list_ex (\<lambda>q. ho_tenant q = hr_tenant_id r \<and> hr_session_id (ho_record q) = hr_session_id r \<and>
         delegated (hr_state (ho_record q))) (hd_handoffs db)"

definition released_ids :: "instant \<Rightarrow> nat \<Rightarrow> handoff_db \<Rightarrow> string list" where
  "released_ids since limit db = map hr_handoff_id (take limit (sort_key (\<lambda>r. (hr_updated_at r, hr_handoff_id r))
     (concat (map (\<lambda>q. map (\<lambda>_. ho_record q) (filter (awaits_resume since db (ho_record q)) (db_sessions (hd_coord db))))
        (hd_handoffs db)))))"

definition pg_list_released_awaiting_resume :: "instant \<Rightarrow> nat \<Rightarrow> handoff_db \<Rightarrow> handoff_record list result" where
  "pg_list_released_awaiting_resume since limit db =
     (let ids = released_ids since limit db in
      if ids = [] then Inr []
      else collect_records (filter (\<lambda>q. hr_handoff_id (ho_record q) \<in> set ids) (hd_handoffs db)))"

end
