(* ===== verification/Handoff_Refinement.thy ===== *)
theory Handoff_Refinement
  imports Handoff_Store Session_Refinement
begin

text \<open>
  The PostgreSQL handoff repository gives the replies of the in-memory one, and its writes keep the
  event log numbered.  The lifecycle of a handoff satisfies the lifecycle contract.
\<close>

interpretation handoff_state_lc: lifecycle move_handoff handoff_states
    "[''rejected'', ''expired'', ''completed'', ''failed'', ''cancelled'']" "''cancelled''"
  unfolding move_handoff_def by (rule lifecycle_of_table) code_simp

section \<open>Writing one event\<close>

lemma allocate_event_Inl: "allocate_event b u t s i ty k cls p now db = (Inl e, db') \<Longrightarrow> db' = db"
  by (auto simp: allocate_event_def Let_def split: sum.splits option.splits if_splits)

lemma enforced_session_query:
  assumes "log_inv db"
  shows "one_or_none (filter (\<lambda>r. ss_id r = s) (rls_rows True ss_tenant_id t (db_sessions db))) = Inr (session_at db (t, s))"
proof -
  have "filter (\<lambda>r. ss_id r = s) (rls_rows True ss_tenant_id t (db_sessions db))
      = filter (\<lambda>r. ss_id r = s \<and> ss_tenant_id r = t) (rls_rows True ss_tenant_id t (db_sessions db))"
    by (auto simp: rls_rows_def intro: filter_cong)
  then show ?thesis
    using session_query [of db s t True] log_inv_ids [OF assms] by (simp add: distinct_ids_def)
qed

lemma allocate_event_Inr:
  assumes inv: "log_inv db" and ok: "allocate_event True u t s i ty k cls p now db = (Inr n, db')"
  shows "log_inv db'" "db_events db' = db_events db @ [allocated_event t s i ty k cls p now n]"
    "session_key ` set (db_sessions db') = session_key ` set (db_sessions db)" "i \<notin> ev_id ` set (db_events db)"
proof -
  obtain row where row: "session_at db (t, s) = Some row"
    using ok enforced_session_query [OF inv, of s t] by (auto simp: allocate_event_def split: option.splits)
  then have mem: "row \<in> set (db_sessions db)" "ss_tenant_id row = t" "ss_id row = s"
    using session_at_Some [OF row] by (auto simp: session_key_def)
  let ?P = "\<lambda>r. ss_id r = s \<and> (True \<longrightarrow> ss_tenant_id r = t)"
  let ?f = "\<lambda>r. r\<lparr>ss_next_sequence := ss_next_sequence row + 1, ss_updated_at := now\<rparr>"
  let ?e = "allocated_event t s i ty k cls p now n"
  let ?o = "allocated_outbox t s i ty k cls p now n None (u ''NAMESPACE_URL'' (''outbox:'' @ i))"
  have parts: "n = ss_next_sequence row" "event_insert_ok ?e (db_events db)" "outbox_insert_ok ?o (db_outbox db)"
      "db' = log_append ?P ?f ?e ?o db"
    using ok row enforced_session_query [OF inv, of s t]
    by (auto simp: allocate_event_def log_append_def Let_def split: if_splits)
  have "?P r \<longleftrightarrow> r = row" if "r \<in> set (db_sessions db)" for r
    using log_inv_ids [OF inv] mem that by (auto simp: distinct_ids_def distinct_map inj_on_def)
  then have "numbers_next db row ?P ?f ?e ?o"
    using mem parts by (auto simp: numbers_next_def session_key_def event_key_def allocated_event_def allocated_outbox_def)
  from log_inv_append [OF inv this] show "log_inv db'" using parts by simp
  show "db_events db' = db_events db @ [?e]" using parts by (simp add: log_append_def)
  show "session_key ` set (db_sessions db') = session_key ` set (db_sessions db)"
    using parts by (simp add: log_append_def image_update_where session_key_def)
  show "i \<notin> ev_id ` set (db_events db)" using parts(2) by (auto simp: event_insert_ok_def allocated_event_def)
qed

text \<open>The identifiers an event would take are unused.\<close>

definition ids_unused :: "(string \<Rightarrow> string \<Rightarrow> string) \<Rightarrow> coord_db \<Rightarrow> string \<Rightarrow> bool" where
  "ids_unused u db i \<longleftrightarrow> i \<notin> ev_id ` set (db_events db) \<and>
     u ''NAMESPACE_URL'' (''outbox:'' @ i) \<notin> ob_id ` set (db_outbox db)"

lemma allocate_event_succeeds:
  assumes inv: "log_inv db" and "ids_unused u db i" "(t, s) \<in> session_key ` set (db_sessions db)"
  obtains n db' where "allocate_event True u t s i ty k cls p now db = (Inr n, db')"
proof -
  obtain row where row: "session_at db (t, s) = Some row"
    using assms(3) by (cases "session_at db (t, s)") (auto simp: session_at_def find_key_None)
  then have mem: "row \<in> set (db_sessions db)" "session_key row = (t, s)" using session_at_Some by auto
  then have num: "numbered db row" using inv by (simp add: log_inv_def list_all_iff)
  have "(t, s, ss_next_sequence row) \<notin> (\<lambda>r. (ev_tenant_id r, ev_session_id r, ev_sequence r)) ` set (db_events db)"
  proof
    assume "(t, s, ss_next_sequence row) \<in> (\<lambda>r. (ev_tenant_id r, ev_session_id r, ev_sequence r)) ` set (db_events db)"
    then have "ss_next_sequence row \<in> set (map ev_sequence (session_events db (session_key row)))"
      using mem(2) by (auto simp: session_events_def event_key_def)
    then show False using num unfolding numbered_def by auto
  qed
  moreover have "i \<notin> ob_event_id ` set (db_outbox db)"
  proof -
    have "ob_event_id ` set (db_outbox db) = ev_id ` set (db_events db)"
      using inv unfolding log_inv_def by (metis list.set_map)
    then show ?thesis using assms(2) by (simp add: ids_unused_def)
  qed
  ultimately show thesis
    using that assms(2) enforced_session_query [OF inv, of s t] row
    by (simp add: allocate_event_def Let_def event_insert_ok_def outbox_insert_ok_def allocated_event_def
        allocated_outbox_def ids_unused_def)
qed

section \<open>Commands\<close>

datatype handoff_op =
    CreateHandoff handoff_record | GetHandoff string string
  | MoveHandoff instant string string string int string "string option"
  | ListOverdue instant nat "(instant \<times> string) option"

datatype handoff_reply =
    HandoffCreated "(handoff_record \<times> bool) result" | HandoffFound "handoff_record option result"
  | HandoffMoved "(handoff_record \<times> handoff_transition \<times> bool) result" | HandoffPage "handoff_record list result"

fun mem_handoff_step :: "handoff_op \<Rightarrow> mem_handoffs \<Rightarrow> handoff_reply \<times> mem_handoffs" where
  "mem_handoff_step (CreateHandoff r) m = map_prod HandoffCreated id (mem_handoff_create r m)"
| "mem_handoff_step (GetHandoff t h) m = (HandoffFound (Inr (mem_handoff_get t h m)), m)"
| "mem_handoff_step (MoveHandoff now t h target v k ref) m =
     map_prod HandoffMoved id (mem_handoff_transition now t h target v k ref m)"
| "mem_handoff_step (ListOverdue now limit c) m = (HandoffPage (Inr (mem_list_overdue now limit c m)), m)"

fun pg_handoff_step :: "bool \<Rightarrow> (string \<Rightarrow> string \<Rightarrow> string) \<Rightarrow> handoff_op \<Rightarrow> handoff_db \<Rightarrow> handoff_reply \<times> handoff_db" where
  "pg_handoff_step b u (CreateHandoff r) db = map_prod HandoffCreated id (pg_handoff_create b u r db)"
| "pg_handoff_step b u (GetHandoff t h) db = (HandoffFound (pg_handoff_get b t h db), db)"
| "pg_handoff_step b u (MoveHandoff now t h target v k ref) db =
     map_prod HandoffMoved id (pg_handoff_transition b u now t h target v k ref db)"
| "pg_handoff_step b u (ListOverdue now limit c) db = (HandoffPage (pg_list_overdue now limit c db), db)"

definition ho_key :: "handoff_row \<Rightarrow> string \<times> string" where
  "ho_key q = (ho_tenant q, hr_handoff_id (ho_record q))"

definition ho_command :: "handoff_row \<Rightarrow> string \<times> string \<times> string" where
  "ho_command q = (ho_tenant q, hr_session_id (ho_record q), hr_idempotency_key (ho_record q))"

text \<open>An event under the id of a handoff command records that command's transition.\<close>

definition recorded_transition :: "event_row \<Rightarrow> handoff_transition option" where
  "recorded_transition e = (case ev_payload e of HandoffPayload _ _ tr \<Rightarrow> tr | _ \<Rightarrow> None)"

definition handoff_inv :: "(string \<Rightarrow> string \<Rightarrow> string) \<Rightarrow> handoff_db \<Rightarrow> bool" where
  "handoff_inv u db \<longleftrightarrow> log_inv (hd_coord db) \<and>
     distinct (map (\<lambda>q. hr_handoff_id (ho_record q)) (hd_handoffs db)) \<and> distinct (map ho_command (hd_handoffs db)) \<and>
     list_all (\<lambda>q. handoff_record_ok (ho_record q) \<and>
       (ho_tenant q, hr_session_id (ho_record q)) \<in> session_key ` set (db_sessions (hd_coord db))) (hd_handoffs db) \<and>
     (\<forall>e \<in> set (db_events (hd_coord db)). \<forall>h k. plain_id h \<and> ev_id e = transition_event_id u (ev_tenant_id e) h k \<longrightarrow>
        recorded_transition e \<noteq> None \<and> (ev_tenant_id e, h) \<in> ho_key ` set (hd_handoffs db))"

definition abs_handoffs :: "(string \<Rightarrow> string \<Rightarrow> string) \<Rightarrow> handoff_db \<Rightarrow> mem_handoffs" where
  "abs_handoffs u db = \<lparr>mh_records = map (\<lambda>q. (ho_key q, ho_record q)) (hd_handoffs db),
     mh_commands = (\<lambda>(t, h, k). if plain_id h
       then Option.bind (event_at (hd_coord db) t (transition_event_id u t h k)) recorded_transition else None)\<rparr>"

text \<open>
  A request names an existing session, its handoff id is used by no other command, and the
  identifiers derived for it are unused when it is new; a transition names a handoff by an id without
  a colon (ids are hexadecimal), with unused identifiers when it is new.
\<close>

fun handoff_op_ok :: "(string \<Rightarrow> string \<Rightarrow> string) \<Rightarrow> handoff_db \<Rightarrow> handoff_op \<Rightarrow> bool" where
  "handoff_op_ok u db (CreateHandoff r) \<longleftrightarrow> handoff_record_ok r \<and>
     (hr_tenant_id r, hr_session_id r) \<in> session_key ` set (db_sessions (hd_coord db)) \<and>
     (list_all (\<lambda>q. (hr_handoff_id (ho_record q) = hr_handoff_id r) =
        (ho_command q = (hr_tenant_id r, hr_session_id r, hr_idempotency_key r))) (hd_handoffs db)) \<and>
     (hr_handoff_id r \<in> (\<lambda>q. hr_handoff_id (ho_record q)) ` set (hd_handoffs db) \<or>
        ids_unused u (hd_coord db) (request_event_id u r))"
| "handoff_op_ok u db (MoveHandoff now t h target v k ref) \<longleftrightarrow> plain_id h \<and>
     (event_at (hd_coord db) t (transition_event_id u t h k) \<noteq> None \<or>
        ids_unused u (hd_coord db) (transition_event_id u t h k))"
| "handoff_op_ok u db _ \<longleftrightarrow> True"

section \<open>Refinement\<close>

lemma transition_event_id_inj:
  assumes "inj (u ''NAMESPACE_URL'')" "plain_id h" "plain_id h'"
  shows "transition_event_id u t h k = transition_event_id u t h' k' \<longleftrightarrow> h = h' \<and> k = k'"
  using assms separator_split [of "CHR '':''" h h' k k'] by (auto simp: transition_event_id_def plain_id_def inj_eq)

lemma request_id_other:
  assumes "inj (u ''NAMESPACE_URL'')"
  shows "request_event_id u r \<noteq> transition_event_id u t h k"
  using assms by (simp add: request_event_id_def transition_event_id_def inj_eq)

text \<open>The part of the invariant about the handoff rows alone.\<close>

definition rows_ok :: "handoff_db \<Rightarrow> bool" where
  "rows_ok db \<longleftrightarrow> distinct (map (\<lambda>q. hr_handoff_id (ho_record q)) (hd_handoffs db)) \<and>
     list_all (\<lambda>q. handoff_record_ok (ho_record q)) (hd_handoffs db)"

lemma handoff_inv_rows: "handoff_inv u db \<Longrightarrow> rows_ok db"
  by (auto simp: handoff_inv_def rows_ok_def list_all_iff)

lemma rows_ho_key: "rows_ok db \<Longrightarrow> distinct (map ho_key (hd_handoffs db))"
  by (auto simp: rows_ok_def ho_key_def distinct_map inj_on_def)

lemma distinct_ho_key: "handoff_inv u db \<Longrightarrow> distinct (map ho_key (hd_handoffs db))"
  by (rule rows_ho_key [OF handoff_inv_rows])

lemma rows_query_key:
  assumes "rows_ok db"
  shows "one_or_none (handoff_query True t h db) = Inr (find (\<lambda>q. ho_key q = (t, h)) (hd_handoffs db))"
proof -
  have "handoff_query True t h db = filter (\<lambda>q. ho_key q = (t, h)) (hd_handoffs db)"
    by (auto simp: handoff_query_def rls_rows_def ho_key_def intro: filter_cong)
  then show ?thesis using one_or_none_key [OF rows_ho_key [OF assms], of "(t, h)"] by simp
qed

lemmas handoff_query_key = rows_query_key [OF handoff_inv_rows]

lemma moved_rows:
  assumes ok: "rows_ok db" and q: "find (\<lambda>q. ho_key q = (t, h)) (hd_handoffs db) = Some q"
    and v: "hr_version (ho_record q) = v"
  shows "update_where (\<lambda>x. hr_handoff_id (ho_record x) = h \<and> hr_version (ho_record x) = v \<and> (True \<longrightarrow> ho_tenant x = t))
      (\<lambda>x. x\<lparr>ho_record := (ho_record x)\<lparr>hr_state := state,
         hr_result_reference := hr_result_reference (moved_handoff (ho_record q) state ref now),
         hr_version := hr_version (moved_handoff (ho_record q) state ref now), hr_updated_at := now\<rparr>, ho_transition_audit := a\<rparr>)
      (hd_handoffs db)
    = map (\<lambda>x. if ho_key x = (t, h) then \<lparr>ho_record = moved_handoff (ho_record q) state ref now, ho_transition_audit = a\<rparr> else x)
      (hd_handoffs db)"
  unfolding update_where_def
proof (rule map_cong [OF refl])
  have mem: "q \<in> set (hd_handoffs db)" "ho_key q = (t, h)" using find_key_Some [OF q] by auto
  fix x assume x: "x \<in> set (hd_handoffs db)"
  show "(if hr_handoff_id (ho_record x) = h \<and> hr_version (ho_record x) = v \<and> (True \<longrightarrow> ho_tenant x = t)
      then x\<lparr>ho_record := (ho_record x)\<lparr>hr_state := state,
        hr_result_reference := hr_result_reference (moved_handoff (ho_record q) state ref now),
        hr_version := hr_version (moved_handoff (ho_record q) state ref now), hr_updated_at := now\<rparr>, ho_transition_audit := a\<rparr> else x)
    = (if ho_key x = (t, h) then \<lparr>ho_record = moved_handoff (ho_record q) state ref now, ho_transition_audit = a\<rparr> else x)"
  proof (cases "ho_key x = (t, h)")
    case True
    then have xq: "x = q" using x mem rows_ho_key [OF ok] by (auto simp: distinct_map inj_on_def)
    have "ho_tenant q = t" "hr_handoff_id (ho_record q) = h" using mem(2) by (simp_all add: ho_key_def)
    then show ?thesis unfolding xq using v mem(2) by (simp add: moved_handoff_def)
  next
    case False
    show ?thesis unfolding if_not_P [OF False] by (rule if_not_P) (use False in \<open>auto simp: ho_key_def\<close>)
  qed
qed

lemma create_query_command:
  assumes "handoff_inv u db"
  shows "one_or_none (filter (\<lambda>q. hr_session_id (ho_record q) = hr_session_id r \<and>
      hr_idempotency_key (ho_record q) = hr_idempotency_key r) (rls_rows True ho_tenant (hr_tenant_id r) (hd_handoffs db)))
    = Inr (find (\<lambda>q. ho_command q = (hr_tenant_id r, hr_session_id r, hr_idempotency_key r)) (hd_handoffs db))"
    (is "one_or_none ?l = _")
proof -
  have l: "?l = filter (\<lambda>q. ho_command q = (hr_tenant_id r, hr_session_id r, hr_idempotency_key r)) (hd_handoffs db)"
    by (auto simp: rls_rows_def ho_command_def intro: filter_cong)
  have "distinct (map ho_command (hd_handoffs db))" using assms by (simp add: handoff_inv_def)
  then show ?thesis unfolding l by (rule one_or_none_key)
qed

lemma event_query_enforced:
  assumes "handoff_inv u db"
  shows "one_or_none (filter (\<lambda>e. ev_id e = i) (rls_rows True ev_tenant_id t (db_events (hd_coord db))))
    = Inr (event_at (hd_coord db) t i)"
proof -
  have "filter (\<lambda>e. ev_id e = i) (rls_rows True ev_tenant_id t (db_events (hd_coord db)))
      = filter (\<lambda>e. ev_id e = i \<and> ev_tenant_id e = t) (rls_rows True ev_tenant_id t (db_events (hd_coord db)))"
    by (auto simp: rls_rows_def intro: filter_cong)
  then show ?thesis
    using event_query [of "hd_coord db" i t True] assms by (simp add: handoff_inv_def log_inv_def distinct_ids_def)
qed

lemma map_of_keyed: "map_of (map (\<lambda>q. (key q, f q)) xs) k = map_option f (find (\<lambda>q. key q = k) xs)"
  by (induction xs) auto

lemma abs_records_lookup:
  "map_of (mh_records (abs_handoffs u db)) k = map_option ho_record (find (\<lambda>q. ho_key q = k) (hd_handoffs db))"
  by (simp add: abs_handoffs_def map_of_keyed)

lemma event_at_snoc:
  assumes "db_events db' = db_events db @ [e]" "ev_id e \<notin> ev_id ` set (db_events db)"
  shows "event_at db' t i = (if ev_id e = i \<and> ev_tenant_id e = t then Some e else event_at db t i)"
proof (cases "event_at db t i")
  case None
  then show ?thesis unfolding event_at_def assms(1) find_append by simp
next
  case (Some x)
  then have "ev_id e \<noteq> i" using event_at_Some [OF Some] assms(2) by force
  then show ?thesis using Some unfolding event_at_def assms(1) find_append by simp
qed

lemma handoff_create_refines:
  assumes inj: "inj (u ''NAMESPACE_URL'')" and inv: "handoff_inv u db" and ok: "handoff_op_ok u db (CreateHandoff r)"
  shows "map_prod id (abs_handoffs u) (pg_handoff_create True u r db) = mem_handoff_create r (abs_handoffs u db) \<and>
    handoff_inv u (snd (pg_handoff_create True u r db))"
proof (cases "find (\<lambda>q. ho_command q = (hr_tenant_id r, hr_session_id r, hr_idempotency_key r)) (hd_handoffs db)")
  case (Some q)
  then have q: "q \<in> set (hd_handoffs db)" "ho_command q = (hr_tenant_id r, hr_session_id r, hr_idempotency_key r)"
    using find_key_Some [OF Some] by auto
  then have "handoff_record_ok (ho_record q)" "ho_key q = (hr_tenant_id r, hr_handoff_id r)"
    using inv ok by (auto simp: handoff_inv_def list_all_iff ho_key_def ho_command_def)
  moreover from this find_key_unique [OF distinct_ho_key [OF inv] q(1)]
  have "find (\<lambda>q. ho_key q = (hr_tenant_id r, hr_handoff_id r)) (hd_handoffs db) = Some q" by simp
  ultimately show ?thesis
    using create_query_command [OF inv, of r] Some inv q(2)
    by (simp add: pg_handoff_create_def mem_handoff_create_def record_from_row_def abs_records_lookup ho_command_def)
next
  case None
  have noid: "hr_handoff_id r \<notin> (\<lambda>q. hr_handoff_id (ho_record q)) ` set (hd_handoffs db)"
    using None ok by (auto simp: find_None_iff list_all_iff)
  have nocmd: "(hr_tenant_id r, hr_session_id r, hr_idempotency_key r) \<notin> ho_command ` set (hd_handoffs db)"
    using None by (auto simp: find_key_None)
  have ins: "handoff_insert_ok r (hd_handoffs db)"
    using noid nocmd by (auto simp: handoff_insert_ok_def ho_command_def)
  have log: "log_inv (hd_coord db)" using inv by (simp add: handoff_inv_def)
  obtain n coord where al: "allocate_event True u (hr_tenant_id r) (hr_session_id r) (request_event_id u r)
      ''handoff.requested.v1'' (hr_idempotency_key r) (hr_classification r)
      (HandoffPayload (hr_handoff_id r) (hr_version r) None) (hr_created_at r) (hd_coord db) = (Inr n, coord)"
    by (rule allocate_event_succeeds [OF log, of u "request_event_id u r" "hr_tenant_id r" "hr_session_id r"])
      (use ok noid in auto)
  let ?db = "\<lparr>hd_coord = coord, hd_handoffs = hd_handoffs db @ [\<lparr>ho_record = r, ho_transition_audit = []\<rparr>]\<rparr>"
  have pg: "pg_handoff_create True u r db = (Inr (r, False), ?db)"
    using create_query_command [OF inv, of r] None ins al by (simp add: pg_handoff_create_def)
  note new = allocate_event_Inr [OF log al]
  have nokey: "(hr_tenant_id r, hr_handoff_id r) \<notin> ho_key ` set (hd_handoffs db)"
    using noid by (auto simp: ho_key_def)
  have cmds: "mh_commands (abs_handoffs u ?db) = mh_commands (abs_handoffs u db)"
    using request_id_other [of u, OF inj] event_at_snoc [OF new(2)] new(4) by (auto simp: abs_handoffs_def allocated_event_def fun_eq_iff)
  have recs: "mh_records (abs_handoffs u ?db) = AList.update (hr_tenant_id r, hr_handoff_id r) r (mh_records (abs_handoffs u db))"
    using nokey by (subst alist_update_new) (auto simp: abs_handoffs_def ho_key_def image_iff)
  have "abs_handoffs u ?db = (abs_handoffs u db)\<lparr>mh_records := mh_records (abs_handoffs u ?db)\<rparr>"
    using cmds by (cases "abs_handoffs u db"; cases "abs_handoffs u ?db") simp
  moreover have "find (\<lambda>q. ho_key q = (hr_tenant_id r, hr_handoff_id r)) (hd_handoffs db) = None"
    using nokey by (simp add: find_key_None)
  ultimately have "map_prod id (abs_handoffs u) (pg_handoff_create True u r db) = mem_handoff_create r (abs_handoffs u db)"
    using recs by (simp add: pg mem_handoff_create_def abs_records_lookup)
  moreover have "handoff_inv u ?db"
    using inv new noid nocmd ok request_id_other [of u, OF inj]
    by (auto simp: handoff_inv_def list_all_iff ho_command_def allocated_event_def) 
  ultimately show ?thesis using pg by simp
qed

lemma move_handoff_state: "move_handoff s target = Inr state \<Longrightarrow> state = target \<and> state \<in> set handoff_states"
  using handoff_state_lc.trans_target handoff_state_lc.trans_closed by blast

lemma moved_ok: "handoff_record_ok r \<Longrightarrow> move_handoff (hr_state r) target = Inr state \<Longrightarrow> handoff_record_ok (moved_handoff r state ref now)"
  using move_handoff_state [of "hr_state r" target state] by (auto simp: handoff_record_ok_def moved_handoff_def)

text \<open>A transition that is not a replay: refused, or the row moved and one event appended.\<close>

lemma pg_handoff_transition_new:
  fixes u db t h k now target v ref
  defines "tid \<equiv> transition_event_id u t h k"
  assumes inv: "handoff_inv u db" and none: "event_at (hd_coord db) t tid = None"
    and unused: "ids_unused u (hd_coord db) tid"
    and q: "find (\<lambda>q. ho_key q = (t, h)) (hd_handoffs db) = Some q"
    and v: "hr_version (ho_record q) = v" and mv: "move_handoff (hr_state (ho_record q)) target = Inr state"
  obtains coord n audit where
    "pg_handoff_transition True u now t h target v k ref db = (Inr (moved_handoff (ho_record q) state ref now,
       handoff_event (ho_record q) state k now, False), \<lparr>hd_coord = coord, hd_handoffs =
         map (\<lambda>x. if ho_key x = (t, h) then \<lparr>ho_record = moved_handoff (ho_record q) state ref now, ho_transition_audit = audit\<rparr> else x)
           (hd_handoffs db)\<rparr>)"
    "log_inv coord" "session_key ` set (db_sessions coord) = session_key ` set (db_sessions (hd_coord db))"
    "db_events coord = db_events (hd_coord db) @ [allocated_event t (hr_session_id (ho_record q)) tid
       (''handoff.'' @ state @ ''.v1'') k (hr_classification (ho_record q))
       (HandoffPayload h (v + 1) (Some (handoff_event (ho_record q) state k now))) now n]"
    "tid \<notin> ev_id ` set (db_events (hd_coord db))"
proof -
  let ?r = "ho_record q"
  have mem: "q \<in> set (hd_handoffs db)" "ho_key q = (t, h)" using find_key_Some [OF q] by auto
  have ok: "handoff_record_ok ?r" "(t, hr_session_id ?r) \<in> session_key ` set (db_sessions (hd_coord db))"
    using inv mem by (auto simp: handoff_inv_def list_all_iff ho_key_def)
  have log: "log_inv (hd_coord db)" using inv by (simp add: handoff_inv_def)
  obtain n coord where al: "allocate_event True u t (hr_session_id ?r) tid (''handoff.'' @ state @ ''.v1'') k
      (hr_classification ?r) (HandoffPayload h (v + 1) (Some (handoff_event ?r state k now))) now (hd_coord db) = (Inr n, coord)"
    by (rule allocate_event_succeeds [OF log unused ok(2)])
  let ?a = "ho_transition_audit q @ [handoff_event ?r state k now]"
  note upd = moved_rows [OF handoff_inv_rows [OF inv] q v, where state = state and ref = ref and now = now and a = ?a]
  have "pg_handoff_transition True u now t h target v k ref db = (Inr (moved_handoff ?r state ref now,
       handoff_event ?r state k now, False), \<lparr>hd_coord = coord, hd_handoffs =
         map (\<lambda>x. if ho_key x = (t, h) then \<lparr>ho_record = moved_handoff ?r state ref now, ho_transition_audit = ?a\<rparr> else x)
           (hd_handoffs db)\<rparr>)"
  proof -
    have "hr_version (moved_handoff ?r state ref now) = v + 1" "ht_event_type (handoff_event ?r state k now) = ''handoff.'' @ state @ ''.v1''"
      using v by (simp_all add: moved_handoff_def handoff_event_def)
    then show ?thesis
      using event_query_enforced [OF inv, of tid t] none handoff_query_key [OF inv, of t h] q ok(1) v mv al upd
      unfolding pg_handoff_transition_def tid_def [symmetric] Let_def by (simp add: record_from_row_def)
  qed
  from that [OF this allocate_event_Inr(1,3,2,4) [OF log al]] show thesis .
qed

lemma map_replace:
  assumes "distinct (map key xs)" "x \<in> set xs" "key x = k" "g new = g x"
  shows "map g (map (\<lambda>y. if key y = k then new else y) xs) = map g xs"
  unfolding map_map
proof (rule map_cong [OF refl])
  fix y assume y: "y \<in> set xs"
  have "y = x" if "key y = k" using assms(1-3) y that by (auto simp: distinct_map inj_on_def)
  then show "(g \<circ> (\<lambda>y. if key y = k then new else y)) y = g y" using assms(4) by (cases "key y = k") auto
qed

text \<open>What a move leaves: the row replaced by one with its keys, and one more event for the command.\<close>

lemma handoff_move_state:
  fixes u db t h k x upd audit coord e
  defines "db' \<equiv> \<lparr>hd_coord = coord, hd_handoffs = map (\<lambda>y. if ho_key y = (t, h)
      then \<lparr>ho_record = upd, ho_transition_audit = audit\<rparr> else y) (hd_handoffs db)\<rparr>"
  assumes inj: "inj (u ''NAMESPACE_URL'')" and inv: "handoff_inv u db" and plain: "plain_id h"
    and x: "x \<in> set (hd_handoffs db)" "ho_key x = (t, h)"
    and upd: "hr_tenant_id upd = t" "hr_handoff_id upd = h" "hr_session_id upd = hr_session_id (ho_record x)"
      "hr_idempotency_key upd = hr_idempotency_key (ho_record x)" "handoff_record_ok upd"
    and co: "log_inv coord" "session_key ` set (db_sessions coord) = session_key ` set (db_sessions (hd_coord db))"
      "db_events coord = db_events (hd_coord db) @ [e]"
    and e: "ev_id e = transition_event_id u t h k" "ev_tenant_id e = t" "recorded_transition e = Some tr"
      "ev_id e \<notin> ev_id ` set (db_events (hd_coord db))"
  shows "abs_handoffs u db' = (abs_handoffs u db)\<lparr>mh_records := AList.update (t, h) upd (mh_records (abs_handoffs u db)),
      mh_commands := (mh_commands (abs_handoffs u db))((t, h, k) \<mapsto> tr)\<rparr>"
    and "handoff_inv u db'"
proof -
  let ?new = "\<lparr>ho_record = upd, ho_transition_audit = audit\<rparr>"
  note rows = map_replace [OF distinct_ho_key [OF inv] x, of _ ?new]
  have keys: "map ho_key (hd_handoffs db') = map ho_key (hd_handoffs db)"
    "map ho_command (hd_handoffs db') = map ho_command (hd_handoffs db)"
    "map (\<lambda>q. hr_handoff_id (ho_record q)) (hd_handoffs db') = map (\<lambda>q. hr_handoff_id (ho_record q)) (hd_handoffs db)"
    "map (\<lambda>q. (ho_tenant q, hr_session_id (ho_record q))) (hd_handoffs db')
      = map (\<lambda>q. (ho_tenant q, hr_session_id (ho_record q))) (hd_handoffs db)"
    unfolding db'_def handoff_db.simps using x(2) upd by (intro rows; simp add: ho_key_def ho_command_def)+
  have "mh_records (abs_handoffs u db') = AList.update (t, h) upd (mh_records (abs_handoffs u db))"
  proof -
    have "mh_records (abs_handoffs u db') = map (\<lambda>q. (ho_key q, if ho_key q = (t, h) then upd else ho_record q)) (hd_handoffs db)"
      using upd(1,2) by (simp add: abs_handoffs_def db'_def) (simp add: ho_key_def)
    then show ?thesis
      using alist_update_map [OF distinct_ho_key [OF inv] x(1), of upd ho_record] x(2) by (simp add: abs_handoffs_def)
  qed
  moreover have "mh_commands (abs_handoffs u db') = (mh_commands (abs_handoffs u db))((t, h, k) \<mapsto> tr)"
  proof
    fix c :: "string \<times> string \<times> string"
    obtain t' h' k' where c: "c = (t', h', k')" by (cases c)
    show "mh_commands (abs_handoffs u db') c = ((mh_commands (abs_handoffs u db))((t, h, k) \<mapsto> tr)) c"
      using plain transition_event_id_inj [of u h h' t k k', OF inj plain] e
      by (auto simp: c abs_handoffs_def db'_def event_at_snoc [OF co(3) e(4)])
  qed
  ultimately show "abs_handoffs u db' = (abs_handoffs u db)\<lparr>mh_records := AList.update (t, h) upd (mh_records (abs_handoffs u db)),
      mh_commands := (mh_commands (abs_handoffs u db))((t, h, k) \<mapsto> tr)\<rparr>"
    by (cases "abs_handoffs u db"; cases "abs_handoffs u db'") simp
  have ok: "handoff_record_ok (ho_record q)" if "q \<in> set (hd_handoffs db')" for q
    using that inv upd(5) by (auto simp: db'_def handoff_inv_def list_all_iff split: if_splits)
  have sess: "(ho_tenant q, hr_session_id (ho_record q)) \<in> session_key ` set (db_sessions coord)" if "q \<in> set (hd_handoffs db')" for q
  proof -
    have "(ho_tenant q, hr_session_id (ho_record q)) \<in> set (map (\<lambda>q. (ho_tenant q, hr_session_id (ho_record q))) (hd_handoffs db))"
      using that unfolding keys(4) [symmetric] by auto
    then show ?thesis using inv co(2) by (auto simp: handoff_inv_def list_all_iff)
  qed
  have evs: "recorded_transition f \<noteq> None \<and> (ev_tenant_id f, h') \<in> ho_key ` set (hd_handoffs db')"
    if "f \<in> set (db_events coord)" "plain_id h'" "ev_id f = transition_event_id u (ev_tenant_id f) h' k'" for f h' k'
  proof (cases "f = e")
    case True
    then have "h' = h" using that e transition_event_id_inj [of u h h' t k k', OF inj plain that(2)] by simp
    moreover have "(t, h) \<in> ho_key ` set (hd_handoffs db')"
      using arg_cong [OF keys(1), of set] x by (metis image_eqI list.set_map)
    ultimately show ?thesis using True e by simp
  next
    case False
    then have "f \<in> set (db_events (hd_coord db))" using that(1) co(3) by simp
    then show ?thesis using that(2,3) inv arg_cong [OF keys(1), of set] unfolding handoff_inv_def list.set_map by metis
  qed
  show "handoff_inv u db'"
  proof -
    have c: "hd_coord db' = coord" by (simp add: db'_def)
    have "distinct (map (\<lambda>q. hr_handoff_id (ho_record q)) (hd_handoffs db'))" "distinct (map ho_command (hd_handoffs db'))"
      unfolding keys using inv by (simp_all add: handoff_inv_def)
    then show ?thesis
      unfolding handoff_inv_def list_all_iff c using co(1) ok sess evs by blast
  qed
qed

lemma handoff_move_refines:
  assumes inj: "inj (u ''NAMESPACE_URL'')" and inv: "handoff_inv u db"
    and ok: "handoff_op_ok u db (MoveHandoff now t h target v k ref)"
  shows "map_prod id (abs_handoffs u) (pg_handoff_transition True u now t h target v k ref db)
      = mem_handoff_transition now t h target v k ref (abs_handoffs u db) \<and>
    handoff_inv u (snd (pg_handoff_transition True u now t h target v k ref db))"
proof -
  let ?tid = "transition_event_id u t h k"
  let ?find = "find (\<lambda>q. ho_key q = (t, h)) (hd_handoffs db)"
  have plain: "plain_id h" using ok by simp
  have cmd: "mh_commands (abs_handoffs u db) (t, h, k) = Option.bind (event_at (hd_coord db) t ?tid) recorded_transition"
    using plain by (simp add: abs_handoffs_def)
  note q = event_query_enforced [OF inv, of ?tid t] handoff_query_key [OF inv, of t h]
  have rok: "handoff_record_ok (ho_record x)" if "?find = Some x" for x
    using find_key_Some [OF that] inv by (auto simp: handoff_inv_def list_all_iff)
  consider (replay) e where "event_at (hd_coord db) t ?tid = Some e"
    | (refused) "event_at (hd_coord db) t ?tid = None" "\<nexists>x state. ?find = Some x \<and> hr_version (ho_record x) = v \<and>
        move_handoff (hr_state (ho_record x)) target = Inr state"
    | (moved) x state where "event_at (hd_coord db) t ?tid = None" "?find = Some x" "hr_version (ho_record x) = v"
        "move_handoff (hr_state (ho_record x)) target = Inr state"
    by (cases "event_at (hd_coord db) t ?tid") blast+
  then show ?thesis
  proof cases
    case replay
    then have e: "e \<in> set (db_events (hd_coord db))" "ev_id e = ?tid" "ev_tenant_id e = t" using event_at_Some by auto
    then have "recorded_transition e \<noteq> None \<and> (t, h) \<in> ho_key ` set (hd_handoffs db)"
      using inv plain unfolding handoff_inv_def by metis
    then obtain tr x where tr: "recorded_transition e = Some tr" and x: "?find = Some x"
      by (cases ?find) (auto simp: find_key_None)
    then have "exactly_one (handoff_query True t h db) = Inr x" using q(2) by (simp add: one_or_none_Some)
    moreover obtain a b where "ev_payload e = HandoffPayload a b (Some tr)"
      using tr by (auto simp: recorded_transition_def split: event_payload.splits)
    ultimately show ?thesis
      using q(1) replay tr rok [OF x] x inv
      by (simp add: pg_handoff_transition_def mem_handoff_transition_def cmd abs_records_lookup record_from_row_def)
  next
    case refused
    then have "\<exists>e. pg_handoff_transition True u now t h target v k ref db = (Inl e, db) \<and>
        mem_handoff_transition now t h target v k ref (abs_handoffs u db) = (Inl e, abs_handoffs u db)"
      using q rok
      by (cases ?find) (auto simp: pg_handoff_transition_def mem_handoff_transition_def cmd abs_records_lookup
          record_from_row_def split: sum.splits)
    then show ?thesis using inv by auto
  next
    case moved
    let ?upd = "moved_handoff (ho_record x) state ref now"
    have unused: "ids_unused u (hd_coord db) ?tid" using ok moved(1) by simp
    have mem: "x \<in> set (hd_handoffs db)" "ho_key x = (t, h)" using find_key_Some [OF moved(2)] by auto
    have upd: "hr_tenant_id ?upd = t" "hr_handoff_id ?upd = h" "hr_session_id ?upd = hr_session_id (ho_record x)"
      "hr_idempotency_key ?upd = hr_idempotency_key (ho_record x)" "handoff_record_ok ?upd"
      using mem(2) moved_ok [OF rok [OF moved(2)] moved(4)] by (simp_all add: moved_handoff_def ho_key_def)
    show ?thesis
    proof (rule pg_handoff_transition_new [OF inv moved(1) unused moved(2-4), of now ref], goal_cases)
      case (1 coord n audit)
      note st = handoff_move_state [OF inj inv plain mem upd 1(2,3,4), where k = k, unfolded allocated_event_def recorded_transition_def,
          simplified, OF refl 1(5)]
      show ?case
        using 1(1) moved st by (simp add: mem_handoff_transition_def cmd abs_records_lookup Let_def)
    qed
  qed
qed

lemma insort_key_map: "insort_key f (g x) (map g xs) = map g (insort_key (\<lambda>y. f (g y)) x xs)"
  by (induction xs) auto

lemma sort_key_map: "sort_key f (map g xs) = map g (sort_key (\<lambda>y. f (g y)) xs)"
  by (induction xs) (auto simp: insort_key_map)

lemma overdue_refines:
  assumes "handoff_inv u db"
  shows "pg_list_overdue now limit c db = Inr (mem_list_overdue now limit c (abs_handoffs u db))"
proof -
  let ?rows = "take limit (sort_key (\<lambda>q. (hr_deadline (ho_record q), hr_handoff_id (ho_record q)))
       (filter (\<lambda>q. delegated (hr_state (ho_record q)) \<and> hr_deadline (ho_record q) < now \<and>
          after_cursor c (ho_record q)) (hd_handoffs db)))"
  have "record_from_row q = Inr (ho_record q)" if "q \<in> set ?rows" for q
    using set_take_subset [of limit] that assms by (fastforce simp: record_from_row_def handoff_inv_def list_all_iff)
  then have "map record_from_row ?rows = map (\<lambda>q. Inr (ho_record q)) ?rows" by (intro map_cong) auto
  then have "pg_list_overdue now limit c db = Inr (map ho_record ?rows)"
    unfolding pg_list_overdue_def collect_records_def by (simp add: filter_empty_conv comp_def)
  also have "map ho_record ?rows = mem_list_overdue now limit c (abs_handoffs u db)"
    unfolding mem_list_overdue_def overdue_page_def abs_handoffs_def
    by (simp add: take_map sort_key_map filter_map comp_def)
  finally show ?thesis .
qed

definition empty_handoffs :: mem_handoffs where
  "empty_handoffs = \<lparr>mh_records = [], mh_commands = (\<lambda>_. None)\<rparr>"

text \<open>No event of the log has the id of a handoff transition.\<close>

definition no_handoff_events :: "(string \<Rightarrow> string \<Rightarrow> string) \<Rightarrow> coord_db \<Rightarrow> bool" where
  "no_handoff_events u db \<longleftrightarrow> (\<forall>e \<in> set (db_events db). \<forall>t h k. ev_id e \<noteq> transition_event_id u t h k)"

lemma handoff_step_refines:
  assumes inj: "inj (u ''NAMESPACE_URL'')" and inv: "handoff_inv u db" and ok: "handoff_op_ok u db c"
  shows "map_prod id (abs_handoffs u) (pg_handoff_step True u c db) = mem_handoff_step c (abs_handoffs u db) \<and>
    handoff_inv u (snd (pg_handoff_step True u c db))"
proof (cases c)
  case (CreateHandoff r)
  with handoff_create_refines [OF inj inv, of r] ok show ?thesis
    by (cases "pg_handoff_create True u r db") (auto dest!: sym [of "(_, _)" "mem_handoff_create r (abs_handoffs u db)"])
next
  case (GetHandoff t h)
  have "record_from_row x = Inr (ho_record x)" if "find (\<lambda>q. ho_key q = (t, h)) (hd_handoffs db) = Some x" for x
    using find_key_Some [OF that] inv by (auto simp: record_from_row_def handoff_inv_def list_all_iff)
  with GetHandoff inv show ?thesis
    by (simp add: pg_handoff_get_def handoff_query_key [OF inv] mem_handoff_get_def abs_records_lookup split: option.split)
next
  case (MoveHandoff now t h target v k ref)
  with handoff_move_refines [OF inj inv, of now t h target v k ref] ok show ?thesis
    by (cases "pg_handoff_transition True u now t h target v k ref db")
      (auto dest!: sym [of "(_, _)" "mem_handoff_transition now t h target v k ref (abs_handoffs u db)"])
next
  case (ListOverdue now limit c)
  with overdue_refines [OF inv, of now limit c] inv show ?thesis by simp
qed

text \<open>
  C27: the PostgreSQL handoff repository implements the in-memory one.  From a log without handoffs,
  for every admissible sequence of requests, lookups, transitions and overdue listings under row-level
  security, every reply is the in-memory repository's; in particular a repeated command returns the
  recorded transition, and a wrong version or a forbidden transition raises without effect.
\<close>

theorem handoffs_refine_memory:
  assumes "inj (u ''NAMESPACE_URL'')" "log_inv coord" "no_handoff_events u coord"
    and "admissible_run (pg_handoff_step True u) (handoff_op_ok u) \<lparr>hd_coord = coord, hd_handoffs = []\<rparr> cs"
  shows "trace_ops (pg_handoff_step True u) \<lparr>hd_coord = coord, hd_handoffs = []\<rparr> cs
    = trace_ops mem_handoff_step empty_handoffs cs"
proof -
  let ?db = "\<lparr>hd_coord = coord, hd_handoffs = []\<rparr>"
  have "handoff_inv u ?db" using assms(2,3) by (auto simp: handoff_inv_def no_handoff_events_def)
  moreover have "event_at coord t (transition_event_id u t h k) = None" for t h k
    using assms(3) event_at_Some [of coord t "transition_event_id u t h k"]
    by (cases "event_at coord t (transition_event_id u t h k)") (auto simp: no_handoff_events_def)
  then have "abs_handoffs u ?db = empty_handoffs" by (simp add: abs_handoffs_def empty_handoffs_def fun_eq_iff)
  ultimately show ?thesis
    using admissible_simulation [where I = "handoff_inv u" and f = "abs_handoffs u", OF handoff_step_refines [of u, OF assms(1)] _ assms(4)]
    by simp
qed

definition demo_handoff :: handoff_record where
  "demo_handoff = \<lparr>hr_handoff_id = ''h1'', hr_tenant_id = ''t'', hr_session_id = ''s'', hr_civilization_id = ''c'',
     hr_source_agent_id = ''a'', hr_target_agent_id = ''b'', hr_task_summary = ''task'', hr_context_message_ids = [],
     hr_artifact_refs = [], hr_connector_allowlist = {}, hr_classification = ''internal'', hr_remaining_budget_usd = 1,
     hr_deadline = 100, hr_acceptance_token_digest = replicate 64 CHR ''0'', hr_state = ''requested'',
     hr_result_reference = None, hr_version = 1, hr_idempotency_key = ''k'', hr_created_at = 10, hr_updated_at = 10\<rparr>"

definition demo_coord :: coord_db where
  "demo_coord = empty_db\<lparr>db_sessions := [\<lparr>ss_id = ''s'', ss_tenant_id = ''t'', ss_civilization_id = ''c'', ss_goal_id = ''g'',
     ss_state = ''active'', ss_policy_snapshot = JNull, ss_budget_snapshot = JNull, ss_next_sequence = 1, ss_version = 2,
     ss_cancellation_requested_at = None, ss_cancellation_reason = None, ss_updated_at = 5\<rparr>]\<rparr>"

lemma demo_coord_log: "log_inv demo_coord"
  by (simp add: log_inv_def distinct_ids_def demo_coord_def empty_db_def numbered_def session_events_def)

lemma demo_handoff_ok: "handoff_record_ok demo_handoff"
  by (simp add: handoff_record_ok_def demo_handoff_def hex_digest_def HANDOFF_STATE_TRANSITIONS_def)

theorem handoffs_refine_memory_witness:
  "trace_ops (pg_handoff_step True demo_uuid5) \<lparr>hd_coord = demo_coord, hd_handoffs = []\<rparr>
     [CreateHandoff demo_handoff, MoveHandoff 20 ''t'' ''h1'' ''accepted'' 1 ''k1'' None]
   = trace_ops mem_handoff_step empty_handoffs
     [CreateHandoff demo_handoff, MoveHandoff 20 ''t'' ''h1'' ''accepted'' 1 ''k1'' None]"
proof (rule handoffs_refine_memory [of demo_uuid5 demo_coord, OF _ demo_coord_log])
  show "admissible_run (pg_handoff_step True demo_uuid5) (handoff_op_ok demo_uuid5) \<lparr>hd_coord = demo_coord, hd_handoffs = []\<rparr>
      [CreateHandoff demo_handoff, MoveHandoff 20 ''t'' ''h1'' ''accepted'' 1 ''k1'' None]"
  proof -
    have "ids_unused demo_uuid5 (hd_coord (snd (pg_handoff_create True demo_uuid5 demo_handoff \<lparr>hd_coord = demo_coord, hd_handoffs = []\<rparr>)))
        (transition_event_id demo_uuid5 ''t'' ''h1'' ''k1'')"
      by (simp add: pg_handoff_create_def handoff_insert_ok_def allocate_event_def demo_coord_def empty_db_def demo_handoff_def
          request_event_id_def event_insert_ok_def outbox_insert_ok_def allocated_event_def allocated_outbox_def
          ids_unused_def transition_event_id_def demo_uuid5_def)
    moreover have "ids_unused demo_uuid5 demo_coord (request_event_id demo_uuid5 demo_handoff)"
      by (simp add: ids_unused_def demo_coord_def empty_db_def)
    moreover have "(hr_tenant_id demo_handoff, hr_session_id demo_handoff) \<in> session_key ` set (db_sessions demo_coord)"
      by (simp add: demo_handoff_def demo_coord_def session_key_def)
    ultimately show ?thesis by (simp add: demo_handoff_ok plain_id_def)
  qed
qed (simp_all add: demo_uuid5_inj no_handoff_events_def demo_coord_def empty_db_def)

end
