(* ===== verification/Handoff_Service.thy ===== *)
theory Handoff_Service
  imports Handoff_Refinement
begin

text \<open>
  The handoff service (\<open>handoffs/service.py\<close>): requests, token-guarded acceptance and reports,
  transitions, and the sweep that expires overdue delegated handoffs and repeats failed resumptions.
  It runs over a repository's operations; membership, the target authorizer, the digest, \<open>uuid5\<close> and
  the three callbacks are parameters.  The callbacks act on an environment of their own and may raise.
\<close>

section \<open>The service\<close>

record 's handoff_repo =
  hp_create :: "handoff_record \<Rightarrow> ('s, handoff_record \<times> bool) op"
  hp_get :: "string \<Rightarrow> string \<Rightarrow> 's \<Rightarrow> handoff_record option result"
  hp_transition :: "instant \<Rightarrow> string \<Rightarrow> string \<Rightarrow> string \<Rightarrow> int \<Rightarrow> string \<Rightarrow> string option \<Rightarrow>
    ('s, handoff_record \<times> handoff_transition \<times> bool) op"
  hp_overdue :: "instant \<Rightarrow> nat \<Rightarrow> (instant \<times> string) option \<Rightarrow> 's \<Rightarrow> handoff_record list result"
  hp_released :: "instant \<Rightarrow> nat \<Rightarrow> 's \<Rightarrow> handoff_record list result"

record 'w handoff_hooks =
  hk_active_member :: "string \<Rightarrow> string \<Rightarrow> string \<Rightarrow> bool"
  hk_connectors :: "string \<Rightarrow> string \<Rightarrow> string \<Rightarrow> string set"
  hk_authorize_target :: "handoff_record \<Rightarrow> bool"
  hk_sha256 :: "string \<Rightarrow> string"
  hk_uuid5 :: "string \<Rightarrow> string \<Rightarrow> string"
  hk_emit :: "string \<Rightarrow> json \<Rightarrow> ('w, unit) op"
  hk_pause :: "handoff_record \<Rightarrow> ('w, unit) op"
  hk_resume :: "handoff_record \<Rightarrow> ('w, unit) op"

record ('s, 'w) handoff_world =
  hw_repo :: 's
  hw_env :: 'w
  hw_paused :: "string set"
  hw_resumed :: "string set"

definition releasing :: "string \<Rightarrow> bool" where
  "releasing s \<longleftrightarrow> s \<in> {''completed'', ''failed'', ''cancelled'', ''expired''}"

definition reportable :: "string \<Rightarrow> bool" where
  "reportable s \<longleftrightarrow> s \<in> {''executing'', ''completed'', ''failed''}"

text \<open>One callback on the environment, when its guard holds; its exception leaves the marker unset.\<close>

definition call_hook ::
  "bool \<Rightarrow> ('w, unit) op \<Rightarrow> (('s, 'w) handoff_world \<Rightarrow> ('s, 'w) handoff_world) \<Rightarrow> (('s, 'w) handoff_world, unit) op" where
  "call_hook guard hook mark w =
     (if \<not> guard then (Inr (), w)
      else case hook (hw_env w) of
             (Inl e, env) \<Rightarrow> (Inl e, w\<lparr>hw_env := env\<rparr>)
           | (Inr _, env) \<Rightarrow> (Inr (), mark (w\<lparr>hw_env := env\<rparr>)))"

definition bind_op :: "('s, 'a) op \<Rightarrow> ('a \<Rightarrow> ('s, 'b) op) \<Rightarrow> ('s, 'b) op" where
  "bind_op f g s = (case f s of (Inl e, s') \<Rightarrow> (Inl e, s') | (Inr x, s') \<Rightarrow> g x s')"

definition transition_json :: "handoff_record \<Rightarrow> handoff_record \<Rightarrow> handoff_transition \<Rightarrow> json" where
  "transition_json r updated event = JObj [(''tenant_id'', JStr (hr_tenant_id r)), (''session_id'', JStr (hr_session_id r)),
     (''handoff_id'', JStr (hr_handoff_id r)), (''version'', JInt (ht_version event)),
     (''from_state'', JStr (ht_from_state event)), (''to_state'', JStr (ht_to_state event)),
     (''result_reference'', case hr_result_reference updated of None \<Rightarrow> JNull | Some x \<Rightarrow> JStr x)]"

definition handoff_transition_step ::
  "'w handoff_hooks \<Rightarrow> 's handoff_repo \<Rightarrow> instant \<Rightarrow> handoff_record \<Rightarrow> string \<Rightarrow> int \<Rightarrow> string \<Rightarrow> string option \<Rightarrow>
   (('s, 'w) handoff_world, handoff_record) op" where
  "handoff_transition_step hk rp now r target expected key ref w =
     (case hp_transition rp now (hr_tenant_id r) (hr_handoff_id r) target expected key ref (hw_repo w) of
        (Inl e, repo) \<Rightarrow> (Inl e, w\<lparr>hw_repo := repo\<rparr>)
      | (Inr (updated, event, replayed), repo) \<Rightarrow>
          let h = hr_handoff_id r; w1 = w\<lparr>hw_repo := repo\<rparr> in
          bind_op (call_hook (\<not> replayed) (hk_emit hk (ht_event_type event) (transition_json r updated event)) id) (\<lambda>_.
          bind_op (\<lambda>w. call_hook (ht_to_state event = ''accepted'' \<and> h \<notin> hw_paused w) (hk_pause hk updated)
                     (\<lambda>w. w\<lparr>hw_paused := insert h (hw_paused w)\<rparr>) w) (\<lambda>_.
          bind_op (\<lambda>w. call_hook (releasing (ht_to_state event) \<and> delegated (ht_from_state event) \<and> h \<notin> hw_resumed w)
                     (hk_resume hk updated) (\<lambda>w. w\<lparr>hw_resumed := insert h (hw_resumed w)\<rparr>) w) (\<lambda>_.
          \<lambda>w. (Inr updated, w)))) w1)"

definition requested_handoff ::
  "'w handoff_hooks \<Rightarrow> instant \<Rightarrow> string \<Rightarrow> string \<Rightarrow> string \<Rightarrow> string \<Rightarrow> string \<Rightarrow> string \<Rightarrow> rat \<Rightarrow> instant \<Rightarrow> string \<Rightarrow> string \<Rightarrow>
   string list \<Rightarrow> string list \<Rightarrow> string \<Rightarrow> handoff_record" where
  "requested_handoff hk now t s civ src tgt task budget deadline token key ctx artifacts cls =
     \<lparr>hr_handoff_id = hk_uuid5 hk ''NAMESPACE_URL'' (t @ '':'' @ s @ '':'' @ key), hr_tenant_id = t,
      hr_session_id = s, hr_civilization_id = civ, hr_source_agent_id = src, hr_target_agent_id = tgt,
      hr_task_summary = task, hr_context_message_ids = ctx, hr_artifact_refs = artifacts,
      hr_connector_allowlist = hk_connectors hk t civ src \<inter> hk_connectors hk t civ tgt, hr_classification = cls,
      hr_remaining_budget_usd = budget, hr_deadline = deadline,
      hr_acceptance_token_digest = hk_sha256 hk token, hr_state = ''requested'', hr_result_reference = None,
      hr_version = 1, hr_idempotency_key = key, hr_created_at = now, hr_updated_at = now\<rparr>"

definition handoff_request ::
  "'w handoff_hooks \<Rightarrow> 's handoff_repo \<Rightarrow> instant \<Rightarrow> instant \<Rightarrow> string \<Rightarrow> string \<Rightarrow> string \<Rightarrow> string \<Rightarrow> string \<Rightarrow> string \<Rightarrow> rat \<Rightarrow>
   instant \<Rightarrow> string \<Rightarrow> string \<Rightarrow> string list \<Rightarrow> string list \<Rightarrow> string \<Rightarrow> (('s, 'w) handoff_world, handoff_record) op" where
  "handoff_request hk rp now0 now t s civ src tgt task budget deadline token key ctx artifacts cls w =
     (if deadline \<le> now0 then (Inl (PermissionError ''handoff deadline expired''), w)
      else if \<not> hk_active_member hk t civ src \<or> \<not> hk_active_member hk t civ tgt
      then (Inl (PermissionError ''handoff participants must be active civilization members''), w)
      else let r = requested_handoff hk now t s civ src tgt task budget deadline token key ctx artifacts cls
           in if \<not> handoff_record_ok r then (Inl (ValueError ''HandoffRecord''), w)
              else case hp_create rp r (hw_repo w) of
                     (Inl e, repo) \<Rightarrow> (Inl e, w\<lparr>hw_repo := repo\<rparr>)
                   | (Inr (stored, replayed), repo) \<Rightarrow>
                       bind_op (call_hook (\<not> replayed) (hk_emit hk ''handoff.requested.v1''
                         (JObj [(''tenant_id'', JStr t), (''session_id'', JStr s), (''handoff_id'', JStr (hr_handoff_id stored)),
                            (''source_agent_id'', JStr src), (''target_agent_id'', JStr tgt)])) id)
                         (\<lambda>_. \<lambda>w. (Inr stored, w)) (w\<lparr>hw_repo := repo\<rparr>))"

definition required :: "'s handoff_repo \<Rightarrow> string \<Rightarrow> string \<Rightarrow> 's \<Rightarrow> handoff_record result" where
  "required rp t h s = (case hp_get rp t h s of Inl e \<Rightarrow> Inl e | Inr None \<Rightarrow> Inl (KeyError h) | Inr (Some r) \<Rightarrow> Inr r)"

definition handoff_accept ::
  "'w handoff_hooks \<Rightarrow> 's handoff_repo \<Rightarrow> instant \<Rightarrow> string \<Rightarrow> string \<Rightarrow> string \<Rightarrow> int \<Rightarrow> string \<Rightarrow>
   (('s, 'w) handoff_world, handoff_record) op" where
  "handoff_accept hk rp now t h token expected key w =
     (case required rp t h (hw_repo w) of
        Inl e \<Rightarrow> (Inl e, w)
      | Inr r \<Rightarrow>
          if now \<ge> hr_deadline r then handoff_transition_step hk rp now r ''expired'' expected key None w
          else if \<not> hk_active_member hk t (hr_civilization_id r) (hr_target_agent_id r)
          then (Inl (PermissionError ''handoff target membership is no longer active''), w)
          else if hk_sha256 hk token \<noteq> hr_acceptance_token_digest r
          then (Inl (PermissionError ''invalid one-time acceptance token''), w)
          else if \<not> hk_authorize_target hk r then (Inl (PermissionError ''target authorization denied''), w)
          else handoff_transition_step hk rp now r ''accepted'' expected key None w)"

definition handoff_move ::
  "'w handoff_hooks \<Rightarrow> 's handoff_repo \<Rightarrow> instant \<Rightarrow> string \<Rightarrow> string \<Rightarrow> string \<Rightarrow> int \<Rightarrow> string \<Rightarrow> string option \<Rightarrow>
   (('s, 'w) handoff_world, handoff_record) op" where
  "handoff_move hk rp now t h target expected key ref w =
     (case required rp t h (hw_repo w) of
        Inl e \<Rightarrow> (Inl e, w)
      | Inr r \<Rightarrow> handoff_transition_step hk rp now r target expected key ref w)"

definition handoff_report ::
  "'w handoff_hooks \<Rightarrow> 's handoff_repo \<Rightarrow> instant \<Rightarrow> string \<Rightarrow> string \<Rightarrow> string \<Rightarrow> string \<Rightarrow> int \<Rightarrow> string \<Rightarrow> string option \<Rightarrow>
   (('s, 'w) handoff_world, handoff_record) op" where
  "handoff_report hk rp now t h target token expected key ref w =
     (if \<not> reportable target
      then (Inl (PermissionError (''handoff state '' @ target @ '' cannot be reported by the target'')), w)
      else case required rp t h (hw_repo w) of
             Inl e \<Rightarrow> (Inl e, w)
           | Inr r \<Rightarrow>
               if hk_sha256 hk token \<noteq> hr_acceptance_token_digest r
               then (Inl (PermissionError ''invalid handoff acceptance token''), w)
               else handoff_transition_step hk rp now r target expected key ref w)"

section \<open>The sweep\<close>

record sweep_stats =
  sw_expired :: nat
  sw_resumed :: nat
  sw_conflicts :: nat
  sw_errors :: nat

fun is_conflict :: "py_error \<Rightarrow> bool" where
  "is_conflict (OptimisticConflictError _ _) = True"
| "is_conflict (OptimisticConflictMessage _) = True"
| "is_conflict _ = False"

definition sweep_key :: "handoff_record \<Rightarrow> string" where
  "sweep_key r = ''sweeper:expire:'' @ hr_handoff_id r"

fun expire_all ::
  "'w handoff_hooks \<Rightarrow> 's handoff_repo \<Rightarrow> instant \<Rightarrow> handoff_record list \<Rightarrow> sweep_stats \<Rightarrow> ('s, 'w) handoff_world \<Rightarrow>
   sweep_stats \<times> ('s, 'w) handoff_world" where
  "expire_all hk rp now [] st w = (st, w)"
| "expire_all hk rp now (r # rs) st w =
     (case handoff_transition_step hk rp now r ''expired'' (hr_version r) (sweep_key r) None w of
        (Inr _, w') \<Rightarrow> expire_all hk rp now rs (st\<lparr>sw_expired := sw_expired st + 1\<rparr>) w'
      | (Inl e, w') \<Rightarrow> expire_all hk rp now rs
          (if is_conflict e then st\<lparr>sw_conflicts := sw_conflicts st + 1\<rparr> else st\<lparr>sw_errors := sw_errors st + 1\<rparr>) w')"

fun sweep_batches ::
  "'w handoff_hooks \<Rightarrow> 's handoff_repo \<Rightarrow> instant \<Rightarrow> nat \<Rightarrow> nat \<Rightarrow> (instant \<times> string) option \<Rightarrow> sweep_stats \<Rightarrow>
   (('s, 'w) handoff_world, sweep_stats) op" where
  "sweep_batches hk rp now batch 0 c st w = (Inr st, w)"
| "sweep_batches hk rp now batch (Suc n) c st w =
     (case hp_overdue rp now batch c (hw_repo w) of
        Inl e \<Rightarrow> (Inl e, w)
      | Inr overdue \<Rightarrow>
          (case expire_all hk rp now overdue st w of
             (st', w') \<Rightarrow>
               if length overdue < batch then (Inr st', w')
               else sweep_batches hk rp now batch n
                      (Some (hr_deadline (last overdue), hr_handoff_id (last overdue))) st' w'))"

fun resume_all ::
  "'w handoff_hooks \<Rightarrow> handoff_record list \<Rightarrow> sweep_stats \<Rightarrow> ('s, 'w) handoff_world \<Rightarrow> sweep_stats \<times> ('s, 'w) handoff_world" where
  "resume_all hk [] st w = (st, w)"
| "resume_all hk (r # rs) st w =
     (case hk_resume hk r (hw_env w) of
        (Inr _, env) \<Rightarrow> resume_all hk rs (st\<lparr>sw_resumed := sw_resumed st + 1\<rparr>)
          (w\<lparr>hw_env := env, hw_resumed := insert (hr_handoff_id r) (hw_resumed w)\<rparr>)
      | (Inl e, env) \<Rightarrow> resume_all hk rs (st\<lparr>sw_errors := sw_errors st + 1\<rparr>) (w\<lparr>hw_env := env\<rparr>))"

definition handoff_sweep ::
  "'w handoff_hooks \<Rightarrow> 's handoff_repo \<Rightarrow> instant \<Rightarrow> nat \<Rightarrow> nat \<Rightarrow> duration \<Rightarrow> (('s, 'w) handoff_world, sweep_stats) op" where
  "handoff_sweep hk rp now batch max_batches window w =
     bind_op (sweep_batches hk rp now batch max_batches None \<lparr>sw_expired = 0, sw_resumed = 0, sw_conflicts = 0, sw_errors = 0\<rparr>)
       (\<lambda>st w. case hp_released rp (now - window) batch (hw_repo w) of
                 Inl e \<Rightarrow> (Inl e, w)
               | Inr released \<Rightarrow> (case resume_all hk released st w of (st', w') \<Rightarrow> (Inr st', w'))) w"

section \<open>Repositories\<close>

definition mem_handoff_repo :: "mem_handoffs handoff_repo" where
  "mem_handoff_repo = \<lparr>hp_create = mem_handoff_create, hp_get = (\<lambda>t h m. Inr (mem_handoff_get t h m)),
     hp_transition = mem_handoff_transition, hp_overdue = (\<lambda>now n c m. Inr (mem_list_overdue now n c m)),
     hp_released = (\<lambda>since n m. Inr [])\<rparr>"

definition pg_handoff_repo ::
  "bool \<Rightarrow> (string \<Rightarrow> string \<Rightarrow> string) \<Rightarrow> handoff_db handoff_repo" where
  "pg_handoff_repo enforced u = \<lparr>hp_create = pg_handoff_create enforced u, hp_get = pg_handoff_get enforced,
     hp_transition = pg_handoff_transition enforced u, hp_overdue = pg_list_overdue,
     hp_released = pg_list_released_awaiting_resume\<rparr>"

end
