(* ===== verification/Handoff_Tokens.thy ===== *)
theory Handoff_Tokens
  imports Handoff_Service
begin

text \<open>
  Progress of a handoff needs its acceptance token.  What the service relies on of a repository is a
  locale over the view of its handoffs; both repositories satisfy it, and the token property is proved
  once inside it.
\<close>

section \<open>Commands of the service\<close>

text \<open>The route offers a bare transition only to \<open>rejected\<close> and \<open>cancelled\<close>.\<close>

datatype service_command =
    SvcRequest instant instant string string string string string string rat instant string string "string list" "string list" string
  | SvcAccept instant string string string int string
  | SvcReport instant string string string string int string "string option"
  | SvcReject instant string string int string "string option"
  | SvcCancel instant string string int string "string option"
  | SvcSweep instant nat nat duration

datatype service_reply = RecordReply "handoff_record result" | SweepReply "sweep_stats result"

fun service_step ::
  "'w handoff_hooks \<Rightarrow> 's handoff_repo \<Rightarrow> service_command \<Rightarrow> ('s, 'w) handoff_world \<Rightarrow> service_reply \<times> ('s, 'w) handoff_world" where
  "service_step hk rp (SvcRequest n0 n t s civ src tgt task bud dl tok k ctx art cls) w =
     map_prod RecordReply id (handoff_request hk rp n0 n t s civ src tgt task bud dl tok k ctx art cls w)"
| "service_step hk rp (SvcAccept now t h tok v k) w = map_prod RecordReply id (handoff_accept hk rp now t h tok v k w)"
| "service_step hk rp (SvcReport now t h target tok v k ref) w =
     map_prod RecordReply id (handoff_report hk rp now t h target tok v k ref w)"
| "service_step hk rp (SvcReject now t h v k ref) w = map_prod RecordReply id (handoff_move hk rp now t h ''rejected'' v k ref w)"
| "service_step hk rp (SvcCancel now t h v k ref) w = map_prod RecordReply id (handoff_move hk rp now t h ''cancelled'' v k ref w)"
| "service_step hk rp (SvcSweep now b mb win) w = map_prod SweepReply id (handoff_sweep hk rp now b mb win w)"

section \<open>Callbacks do not touch the repository\<close>

lemma call_hook_repo: "(\<And>x. hw_repo (mark x) = hw_repo x) \<Longrightarrow>
    hw_repo (snd (call_hook g hook mark w)) = hw_repo w"
  by (auto simp: call_hook_def split: prod.split sum.split)

lemma bind_op_repo:
  assumes "hw_repo (snd (f w)) = hw_repo w" "\<And>x w. hw_repo (snd (g x w)) = hw_repo w"
  shows "hw_repo (snd (bind_op f g w)) = hw_repo w"
  using assms by (auto simp: bind_op_def split: prod.split sum.split)

lemma transition_step_repo:
  "hw_repo (snd (handoff_transition_step hk rp now r target v k ref w))
   = snd (hp_transition rp now (hr_tenant_id r) (hr_handoff_id r) target v k ref (hw_repo w))"
proof (cases "hp_transition rp now (hr_tenant_id r) (hr_handoff_id r) target v k ref (hw_repo w)")
  case (Pair x repo)
  show ?thesis
  proof (cases x)
    case (Inr y)
    obtain upd ev rpl where y: "y = (upd, ev, rpl)" by (cases y)
    show ?thesis
      unfolding handoff_transition_step_def Pair Inr y Let_def
      by (simp, rule trans [OF bind_op_repo]) (auto simp: call_hook_repo intro!: bind_op_repo)
  qed (simp add: handoff_transition_step_def Pair)
qed

section \<open>Tokens presented\<close>

definition accept_token :: "'w handoff_hooks \<Rightarrow> service_command list \<Rightarrow> string \<times> string \<Rightarrow> string \<Rightarrow> bool" where
  "accept_token hk cs key d \<longleftrightarrow>
     (\<exists>c \<in> set cs. case c of SvcAccept now t h tok v k \<Rightarrow> (t, h) = key \<and> hk_sha256 hk tok = d | _ \<Rightarrow> False)"

definition report_token :: "'w handoff_hooks \<Rightarrow> service_command list \<Rightarrow> string \<times> string \<Rightarrow> string \<Rightarrow> bool" where
  "report_token hk cs key d \<longleftrightarrow>
     (\<exists>c \<in> set cs. case c of SvcReport now t h target tok v k ref \<Rightarrow> (t, h) = key \<and> hk_sha256 hk tok = d | _ \<Rightarrow> False)"

definition tokens_shown :: "'w handoff_hooks \<Rightarrow> service_command list \<Rightarrow> (string \<times> string \<rightharpoonup> handoff_record) \<Rightarrow> bool" where
  "tokens_shown hk cs view \<longleftrightarrow> (\<forall>key r. view key = Some r \<longrightarrow>
     (hr_state r \<in> {''accepted'', ''executing'', ''completed'', ''failed''} \<longrightarrow> accept_token hk cs key (hr_acceptance_token_digest r)) \<and>
     (reportable (hr_state r) \<longrightarrow> report_token hk cs key (hr_acceptance_token_digest r)))"

lemma tokens_shown_more: "tokens_shown hk cs view \<Longrightarrow> tokens_shown hk (cs @ ds) view"
  unfolding tokens_shown_def accept_token_def report_token_def set_append by blast

lemma tokens_shown_new:
  "tokens_shown hk cs view \<Longrightarrow> hr_state r = ''requested'' \<Longrightarrow> tokens_shown hk cs (view(key \<mapsto> r))"
  by (auto simp: tokens_shown_def reportable_def split: if_splits)

lemma reportable_source:
  assumes "move_handoff s target = Inr u" "reportable target"
  shows "s \<in> {''accepted'', ''executing''}"
proof -
  have "list_all (\<lambda>(s, ts). list_all (\<lambda>t. reportable t \<longrightarrow> s \<in> {''accepted'', ''executing''}) ts) HANDOFF_STATE_TRANSITIONS"
    by code_simp
  moreover obtain ts where "(s, ts) \<in> set HANDOFF_STATE_TRANSITIONS" "target \<in> set ts"
    using assms(1)
    by (cases "map_of HANDOFF_STATE_TRANSITIONS s")
      (auto simp: move_handoff_def transition_in_def split: if_splits dest!: map_of_SomeD)
  ultimately show ?thesis using assms(2) by (auto simp: list_all_iff)
qed

lemma tokens_shown_move:
  assumes "tokens_shown hk cs view" "view key = Some r" "move_handoff (hr_state r) target = Inr state"
    and "target = ''accepted'' \<Longrightarrow> accept_token hk cs key (hr_acceptance_token_digest r)"
    and "reportable target \<Longrightarrow> report_token hk cs key (hr_acceptance_token_digest r)"
  shows "tokens_shown hk cs (view(key \<mapsto> moved_handoff r state ref now))"
proof -
  have st: "state = target" using move_handoff_state [OF assms(3)] by simp
  have "accept_token hk cs key (hr_acceptance_token_digest r)" if "reportable target"
    using assms(1,2) reportable_source [OF assms(3) that] unfolding tokens_shown_def by blast
  then show ?thesis
    using assms st unfolding tokens_shown_def by (auto simp: moved_handoff_def reportable_def)
qed

section \<open>The repository contract\<close>

locale handoff_repository =
  fixes rp :: "'s handoff_repo" and inv :: "'s \<Rightarrow> bool" and view :: "'s \<Rightarrow> string \<times> string \<rightharpoonup> handoff_record"
  assumes get_law: "inv s \<Longrightarrow> hp_get rp t h s = Inr (view s (t, h))"
    and view_key: "inv s \<Longrightarrow> view s (t, h) = Some r \<Longrightarrow> hr_tenant_id r = t \<and> hr_handoff_id r = h"
    and create_law: "inv s \<Longrightarrow> handoff_record_ok r \<Longrightarrow> inv (snd (hp_create rp r s)) \<and>
      (view (snd (hp_create rp r s)) = view s \<or>
       view (snd (hp_create rp r s)) = (view s)((hr_tenant_id r, hr_handoff_id r) \<mapsto> r))"
    and transition_law: "inv s \<Longrightarrow> inv (snd (hp_transition rp now t h target v k ref s)) \<and>
      (view (snd (hp_transition rp now t h target v k ref s)) = view s \<or>
       (\<exists>r state. view s (t, h) = Some r \<and> move_handoff (hr_state r) target = Inr state \<and>
          view (snd (hp_transition rp now t h target v k ref s)) = (view s)((t, h) \<mapsto> moved_handoff r state ref now)))"
begin

definition shown :: "'w handoff_hooks \<Rightarrow> service_command list \<Rightarrow> ('s, 'w) handoff_world \<Rightarrow> bool" where
  "shown hk cs w \<longleftrightarrow> inv (hw_repo w) \<and> tokens_shown hk cs (view (hw_repo w))"

lemma transition_shown:
  assumes sh: "shown hk cs w" and r: "view (hw_repo w) (hr_tenant_id r, hr_handoff_id r) = Some r \<or> target = ''expired''"
    and "target = ''accepted'' \<Longrightarrow> accept_token hk cs (hr_tenant_id r, hr_handoff_id r) (hr_acceptance_token_digest r)"
    and "reportable target \<Longrightarrow> report_token hk cs (hr_tenant_id r, hr_handoff_id r) (hr_acceptance_token_digest r)"
  shows "shown hk cs (snd (handoff_transition_step hk rp now r target v k ref w))"
proof -
  let ?s = "hw_repo w" and ?key = "(hr_tenant_id r, hr_handoff_id r)"
  let ?s' = "snd (hp_transition rp now (hr_tenant_id r) (hr_handoff_id r) target v k ref ?s)"
  have inv: "inv ?s" and tk: "tokens_shown hk cs (view ?s)" using sh by (auto simp: shown_def)
  note law = transition_law [OF inv, of now "hr_tenant_id r" "hr_handoff_id r" target v k ref]
  have "tokens_shown hk cs (view ?s')"
  proof (cases "view ?s' = view ?s")
    case False
    then obtain q state where q: "view ?s ?key = Some q" "move_handoff (hr_state q) target = Inr state"
        "view ?s' = (view ?s)(?key \<mapsto> moved_handoff q state ref now)" using law by blast
    show ?thesis
      unfolding q(3)
    proof (rule tokens_shown_move [OF tk q(1,2)])
      show "target = ''accepted'' \<Longrightarrow> accept_token hk cs ?key (hr_acceptance_token_digest q)"
        using assms(2,3) q(1) by auto
      show "reportable target \<Longrightarrow> report_token hk cs ?key (hr_acceptance_token_digest q)"
        using assms(2,4) q(1) by (auto simp: reportable_def)
    qed
  qed (use tk in simp)
  then show ?thesis using law by (simp add: shown_def transition_step_repo)
qed

lemma expire_all_shown: "shown hk cs w \<Longrightarrow> shown hk cs (snd (expire_all hk rp now rs st w))"
proof (induction rs arbitrary: st w)
  case (Cons r rs)
  have "shown hk cs (snd (handoff_transition_step hk rp now r ''expired'' (hr_version r) (sweep_key r) None w))"
    by (rule transition_shown [OF Cons.prems]) (auto simp: reportable_def)
  with Cons.IH show ?case by (auto split: prod.split sum.split)
qed simp

lemma sweep_batches_shown: "shown hk cs w \<Longrightarrow> shown hk cs (snd (sweep_batches hk rp now b n c st w))"
proof (induction n arbitrary: c st w)
  case (Suc n)
  show ?case
    using expire_all_shown [OF Suc.prems] Suc
    by (auto split: sum.split prod.split) (metis snd_conv)+
qed simp

lemma resume_all_shown: "shown hk cs w \<Longrightarrow> shown hk cs (snd (resume_all hk rs st w))"
  by (induction rs arbitrary: st w) (auto simp: shown_def split: prod.split sum.split)

lemma sweep_shown: "shown hk cs w \<Longrightarrow> shown hk cs (snd (handoff_sweep hk rp now b mb win w))"
proof (cases "sweep_batches hk rp now b mb None \<lparr>sw_expired = 0, sw_resumed = 0, sw_conflicts = 0, sw_errors = 0\<rparr> w")
  case (Pair x w')
  assume "shown hk cs w"
  from sweep_batches_shown [OF this, of now b mb None] have w': "shown hk cs w'" using Pair by (metis snd_conv)
  show ?thesis
    using w' resume_all_shown [OF w']
    by (simp add: handoff_sweep_def bind_op_def Pair split: sum.split prod.split) (metis snd_conv)
qed

lemma request_shown:
  assumes "shown hk cs w"
  shows "shown hk cs (snd (handoff_request hk rp n0 n t s civ src tgt task bud dl tok k ctx art cls w))"
proof -
  let ?r = "requested_handoff hk n t s civ src tgt task bud dl tok k ctx art cls"
  let ?w = "snd (handoff_request hk rp n0 n t s civ src tgt task bud dl tok k ctx art cls w)"
  have "hw_repo ?w = hw_repo w \<or> handoff_record_ok ?r \<and> hw_repo ?w = snd (hp_create rp ?r (hw_repo w))"
    by (auto simp: handoff_request_def Let_def bind_op_def call_hook_def split: prod.split sum.split)
  moreover have "inv (hw_repo w)" "tokens_shown hk cs (view (hw_repo w))" using assms by (auto simp: shown_def)
  moreover have "hr_state ?r = ''requested''" by (simp add: requested_handoff_def)
  ultimately show ?thesis
    using create_law [of "hw_repo w" ?r] tokens_shown_new by (auto simp: shown_def)
qed

lemma required_Inr:
  "shown hk cs w \<Longrightarrow> required rp t h (hw_repo w) = Inr r \<Longrightarrow>
   view (hw_repo w) (t, h) = Some r \<and> hr_tenant_id r = t \<and> hr_handoff_id r = h"
  using view_key [of "hw_repo w" t h r] by (auto simp: required_def get_law shown_def split: option.splits)

lemma step_shown:
  assumes "shown hk cs w"
  shows "shown hk (cs @ [c]) (snd (service_step hk rp c w))"
proof -
  have w: "shown hk (cs @ [c]) w" using assms tokens_shown_more by (auto simp: shown_def)
  show ?thesis
  proof (cases c)
    case (SvcRequest n0 n t s civ src tgt task bud dl tok k ctx art cls)
    then show ?thesis using request_shown [OF w] by simp
  next
    case (SvcAccept now t h tok v k)
    have "accept_token hk (cs @ [c]) (t, h) d" if "hk_sha256 hk tok = d" for d
      using that SvcAccept by (auto simp: accept_token_def)
    then show ?thesis
      using w SvcAccept required_Inr [OF w, of t h]
      by (auto simp: handoff_accept_def reportable_def intro!: transition_shown split: sum.split)
  next
    case (SvcReport now t h target tok v k ref)
    have "report_token hk (cs @ [c]) (t, h) d" if "hk_sha256 hk tok = d" for d
      using that SvcReport by (auto simp: report_token_def)
    then show ?thesis
      using w SvcReport required_Inr [OF w, of t h]
      by (auto simp: handoff_report_def reportable_def intro!: transition_shown split: sum.split)
  next
    case (SvcReject now t h v k ref)
    then show ?thesis
      using w required_Inr [OF w, of t h]
      by (auto simp: handoff_move_def reportable_def intro!: transition_shown split: sum.split)
  next
    case (SvcCancel now t h v k ref)
    then show ?thesis
      using w required_Inr [OF w, of t h]
      by (auto simp: handoff_move_def reportable_def intro!: transition_shown split: sum.split)
  next
    case (SvcSweep now b mb win)
    then show ?thesis using sweep_shown [OF w] by simp
  qed
qed

lemma run_shown: "shown hk cs w \<Longrightarrow> shown hk (cs @ ds) (run_ops (service_step hk rp) w ds)"
proof (induction ds arbitrary: cs w)
  case (Cons d ds)
  from Cons.IH [OF step_shown [OF Cons.prems]] show ?case by simp
qed simp

end

section \<open>Both repositories\<close>

definition mem_keys_ok :: "mem_handoffs \<Rightarrow> bool" where
  "mem_keys_ok m \<longleftrightarrow> (\<forall>k r. map_of (mh_records m) k = Some r \<longrightarrow> k = (hr_tenant_id r, hr_handoff_id r))"

interpretation mem_handoffs: handoff_repository mem_handoff_repo mem_keys_ok "\<lambda>m. map_of (mh_records m)"
proof
  fix m :: mem_handoffs and now t h target v k ref
  assume inv: "mem_keys_ok m"
  show "hp_get mem_handoff_repo t h m = Inr (map_of (mh_records m) (t, h))"
    by (simp add: mem_handoff_repo_def mem_handoff_get_def)
  show "mem_keys_ok (snd (hp_transition mem_handoff_repo now t h target v k ref m)) \<and>
      (map_of (mh_records (snd (hp_transition mem_handoff_repo now t h target v k ref m))) = map_of (mh_records m) \<or>
       (\<exists>r state. map_of (mh_records m) (t, h) = Some r \<and> move_handoff (hr_state r) target = Inr state \<and>
          map_of (mh_records (snd (hp_transition mem_handoff_repo now t h target v k ref m)))
            = (map_of (mh_records m))((t, h) \<mapsto> moved_handoff r state ref now)))"
    using inv by (auto simp: mem_handoff_repo_def mem_handoff_transition_def mem_keys_ok_def moved_handoff_def Let_def
        split: option.splits sum.splits)
qed (auto simp: mem_handoff_repo_def mem_handoff_create_def mem_keys_ok_def Let_def split: option.splits)

definition pg_view :: "handoff_db \<Rightarrow> string \<times> string \<rightharpoonup> handoff_record" where
  "pg_view db key = map_option ho_record (find (\<lambda>q. ho_key q = key) (hd_handoffs db))"

lemma find_replace:
  "key new = c \<Longrightarrow> find (\<lambda>q. key q = k) (map (\<lambda>y. if key y = c then new else y) xs)
    = (if k = c then if c \<in> key ` set xs then Some new else None else find (\<lambda>q. key q = k) xs)"
  by (induction xs) auto

lemma pg_transition_done:
  assumes ok: "rows_ok db" and changed: "snd (pg_handoff_transition True u now t h target v k ref db) \<noteq> db \<or>
    (\<exists>r ev. fst (pg_handoff_transition True u now t h target v k ref db) = Inr (r, ev, False))"
  obtains q state a n coord i ty cls p where "find (\<lambda>q. ho_key q = (t, h)) (hd_handoffs db) = Some q"
      "move_handoff (hr_state (ho_record q)) target = Inr state"
      "allocate_event True u t (hr_session_id (ho_record q)) i ty k cls p now (hd_coord db) = (Inr n, coord)"
      "pg_handoff_transition True u now t h target v k ref db =
        (Inr (moved_handoff (ho_record q) state ref now, handoff_event (ho_record q) state k now, False), \<lparr>hd_coord = coord,
          hd_handoffs = map (\<lambda>x. if ho_key x = (t, h) then \<lparr>ho_record = moved_handoff (ho_record q) state ref now, ho_transition_audit = a\<rparr> else x)
            (hd_handoffs db)\<rparr>)"
proof -
  let ?q = "one_or_none (filter (\<lambda>e. ev_id e = transition_event_id u t h k) (rls_rows True ev_tenant_id t (db_events (hd_coord db))))"
  have none: "?q = Inr None"
  proof (cases ?q)
    case (Inl e)
    show ?thesis using changed unfolding pg_handoff_transition_def Let_def Inl by simp
  next
    case (Inr p)
    show ?thesis
    proof (cases p)
      case (Some prior)
      show ?thesis
        using changed unfolding pg_handoff_transition_def Let_def Inr Some
        by (simp split: sum.splits option.splits event_payload.splits)
    qed (use Inr in simp)
  qed
  obtain q where q: "find (\<lambda>q. ho_key q = (t, h)) (hd_handoffs db) = Some q"
    using changed unfolding pg_handoff_transition_def Let_def none rows_query_key [OF ok]
    by (cases "find (\<lambda>q. ho_key q = (t, h)) (hd_handoffs db)") auto
  have rq: "record_from_row q = Inr (ho_record q)"
    using ok find_key_Some [OF q] by (simp add: record_from_row_def rows_ok_def list_all_iff)
  note eq = pg_handoff_transition_def [of True u now t h target v k ref db, unfolded Let_def none rows_query_key [OF ok] q
      sum.case option.case rq]
  from changed have v: "hr_version (ho_record q) = v" unfolding eq by (simp split: if_splits)
  from changed obtain state where st: "move_handoff (hr_state (ho_record q)) target = Inr state"
    unfolding eq using v by (cases "move_handoff (hr_state (ho_record q)) target") auto
  let ?a = "ho_transition_audit q @ [handoff_event (ho_record q) state k now]"
  let ?al = "allocate_event True u t (hr_session_id (ho_record q)) (transition_event_id u t h k)
      (ht_event_type (handoff_event (ho_record q) state k now)) k (hr_classification (ho_record q))
      (HandoffPayload h (hr_version (moved_handoff (ho_record q) state ref now)) (Some (handoff_event (ho_record q) state k now)))
      now (hd_coord db)"
  obtain n coord where al: "?al = (Inr n, coord)"
    using changed unfolding eq using v st by (cases ?al; cases "fst ?al") auto
  show thesis
    by (rule that [OF q st al, of ?a])
      (unfold eq, use v st al moved_rows [OF ok q v, where state = state and ref = ref and now = now and a = ?a] in simp)
qed

lemma pg_transition_moves:
  assumes ok: "rows_ok db" and changed: "snd (pg_handoff_transition True u now t h target v k ref db) \<noteq> db"
  obtains q state a where "find (\<lambda>q. ho_key q = (t, h)) (hd_handoffs db) = Some q"
      "move_handoff (hr_state (ho_record q)) target = Inr state"
      "hd_handoffs (snd (pg_handoff_transition True u now t h target v k ref db)) =
        map (\<lambda>x. if ho_key x = (t, h) then \<lparr>ho_record = moved_handoff (ho_record q) state ref now, ho_transition_audit = a\<rparr> else x)
          (hd_handoffs db)"
proof (rule pg_transition_done [OF ok disjI1 [OF changed]], goal_cases)
  case (1 q state a n coord i ty cls p)
  from that [OF 1(2,3), of a] show thesis by (simp add: 1(5))
qed

lemma pg_transition_view:
  assumes ok: "rows_ok db"
  shows "rows_ok (snd (pg_handoff_transition True u now t h target v k ref db)) \<and>
    (pg_view (snd (pg_handoff_transition True u now t h target v k ref db)) = pg_view db \<or>
     (\<exists>r state. pg_view db (t, h) = Some r \<and> move_handoff (hr_state r) target = Inr state \<and>
        pg_view (snd (pg_handoff_transition True u now t h target v k ref db)) = (pg_view db)((t, h) \<mapsto> moved_handoff r state ref now)))"
proof (cases "snd (pg_handoff_transition True u now t h target v k ref db) = db")
  case True
  then show ?thesis using ok by simp
next
  case False
  then obtain q state a where q: "find (\<lambda>q. ho_key q = (t, h)) (hd_handoffs db) = Some q"
      "move_handoff (hr_state (ho_record q)) target = Inr state"
    and rows: "hd_handoffs (snd (pg_handoff_transition True u now t h target v k ref db)) =
      map (\<lambda>x. if ho_key x = (t, h) then \<lparr>ho_record = moved_handoff (ho_record q) state ref now, ho_transition_audit = a\<rparr> else x)
        (hd_handoffs db)"
    by (rule pg_transition_moves [OF ok])
  have mem: "q \<in> set (hd_handoffs db)" "ho_key q = (t, h)" using find_key_Some [OF q(1)] by auto
  let ?new = "\<lparr>ho_record = moved_handoff (ho_record q) state ref now, ho_transition_audit = a\<rparr>"
  have new: "ho_key ?new = (t, h)" "hr_handoff_id (ho_record ?new) = hr_handoff_id (ho_record q)"
    using mem(2) by (simp_all add: ho_key_def moved_handoff_def)
  have "handoff_record_ok (ho_record q)" using ok mem(1) by (simp add: rows_ok_def list_all_iff)
  then have "handoff_record_ok (ho_record ?new)" using moved_ok q(2) by simp
  then have "list_all (\<lambda>q. handoff_record_ok (ho_record q)) (hd_handoffs (snd (pg_handoff_transition True u now t h target v k ref db)))"
    using ok unfolding rows by (auto simp: rows_ok_def list_all_iff)
  moreover have "map (\<lambda>q. hr_handoff_id (ho_record q)) (hd_handoffs (snd (pg_handoff_transition True u now t h target v k ref db)))
      = map (\<lambda>q. hr_handoff_id (ho_record q)) (hd_handoffs db)"
    unfolding rows by (rule map_replace [OF rows_ho_key [OF ok] mem, of "\<lambda>q. hr_handoff_id (ho_record q)" ?new]) (rule new(2))
  ultimately have "rows_ok (snd (pg_handoff_transition True u now t h target v k ref db))"
    using ok by (simp add: rows_ok_def)
  moreover have "pg_view (snd (pg_handoff_transition True u now t h target v k ref db))
      = (pg_view db)((t, h) \<mapsto> moved_handoff (ho_record q) state ref now)"
    using mem(1) find_replace [of ho_key ?new, OF new(1)] imageI [OF mem(1), of ho_key] mem(2)
    by (auto simp: fun_eq_iff pg_view_def rows)
  moreover have "pg_view db (t, h) = Some (ho_record q)" using q(1) by (simp add: pg_view_def)
  ultimately show ?thesis using q(2) by blast
qed

lemma pg_create_view:
  assumes ok: "rows_ok db" and r: "handoff_record_ok r"
  shows "rows_ok (snd (pg_handoff_create True u r db)) \<and> (pg_view (snd (pg_handoff_create True u r db)) = pg_view db \<or>
     pg_view (snd (pg_handoff_create True u r db)) = (pg_view db)((hr_tenant_id r, hr_handoff_id r) \<mapsto> r))"
proof (cases "snd (pg_handoff_create True u r db) = db")
  case True
  then show ?thesis using ok by simp
next
  case False
  then have rows: "hd_handoffs (snd (pg_handoff_create True u r db)) = hd_handoffs db @ [\<lparr>ho_record = r, ho_transition_audit = []\<rparr>]"
    and ins: "handoff_insert_ok r (hd_handoffs db)"
    by (auto simp: pg_handoff_create_def split: sum.splits option.splits if_splits prod.splits)
  have "find (\<lambda>q. ho_key q = (hr_tenant_id r, hr_handoff_id r)) (hd_handoffs db) = None"
    unfolding find_key_None using ins by (auto simp: handoff_insert_ok_def ho_key_def)
  then show ?thesis
    using ok r ins by (auto simp: rows_ok_def rows pg_view_def fun_eq_iff find_append handoff_insert_ok_def ho_key_def split: option.split)
qed

interpretation pg_handoffs: handoff_repository "pg_handoff_repo True u" rows_ok pg_view for u
proof
  fix db :: handoff_db and t h
  assume ok: "rows_ok db"
  show "hp_get (pg_handoff_repo True u) t h db = Inr (pg_view db (t, h))"
  proof (cases "find (\<lambda>q. ho_key q = (t, h)) (hd_handoffs db)")
    case (Some q)
    then have "handoff_record_ok (ho_record q)" using ok find_key_Some [OF Some] by (simp add: rows_ok_def list_all_iff)
    then show ?thesis
      using Some by (simp add: pg_handoff_repo_def pg_handoff_get_def rows_query_key [OF ok] pg_view_def record_from_row_def)
  qed (simp add: pg_handoff_repo_def pg_handoff_get_def rows_query_key [OF ok] pg_view_def)
next
  fix db :: handoff_db and t h r
  assume "pg_view db (t, h) = Some r"
  then obtain q where "find (\<lambda>q. ho_key q = (t, h)) (hd_handoffs db) = Some q" "ho_record q = r"
    unfolding pg_view_def map_option_eq_Some by blast
  moreover from find_key_Some [OF this(1)] have "ho_key q = (t, h)" by blast
  ultimately show "hr_tenant_id r = t \<and> hr_handoff_id r = h" unfolding ho_key_def by simp
next
  fix db :: handoff_db and r
  assume "rows_ok db" "handoff_record_ok r"
  then show "rows_ok (snd (hp_create (pg_handoff_repo True u) r db)) \<and>
      (pg_view (snd (hp_create (pg_handoff_repo True u) r db)) = pg_view db \<or>
       pg_view (snd (hp_create (pg_handoff_repo True u) r db)) = (pg_view db)((hr_tenant_id r, hr_handoff_id r) \<mapsto> r))"
    unfolding pg_handoff_repo_def handoff_repo.simps by (rule pg_create_view)
next
  fix db :: handoff_db and now t h target v k ref
  assume "rows_ok db"
  then show "rows_ok (snd (hp_transition (pg_handoff_repo True u) now t h target v k ref db)) \<and>
      (pg_view (snd (hp_transition (pg_handoff_repo True u) now t h target v k ref db)) = pg_view db \<or>
       (\<exists>r state. pg_view db (t, h) = Some r \<and> move_handoff (hr_state r) target = Inr state \<and>
          pg_view (snd (hp_transition (pg_handoff_repo True u) now t h target v k ref db))
            = (pg_view db)((t, h) \<mapsto> moved_handoff r state ref now)))"
    unfolding pg_handoff_repo_def handoff_repo.simps by (rule pg_transition_view)
qed


definition demo_hooks :: "unit handoff_hooks" where
  "demo_hooks = \<lparr>hk_active_member = (\<lambda>t c a. True), hk_connectors = (\<lambda>t c a. {''mail''}), hk_authorize_target = (\<lambda>r. True),
     hk_sha256 = (\<lambda>tok. replicate 63 CHR ''0'' @ (if tok = ''tok'' then ''1'' else ''0'')), hk_uuid5 = (\<lambda>ns n. n),
     hk_emit = (\<lambda>ty p w. (Inr (), w)), hk_pause = (\<lambda>r w. (Inr (), w)), hk_resume = (\<lambda>r w. (Inr (), w))\<rparr>"

definition demo_world :: "(handoff_db, unit) handoff_world" where
  "demo_world = \<lparr>hw_repo = \<lparr>hd_coord = demo_coord, hd_handoffs = []\<rparr>, hw_env = (), hw_paused = {}, hw_resumed = {}\<rparr>"

definition demo_service_run :: "service_command list" where
  "demo_service_run = [SvcRequest 10 10 ''t'' ''s'' ''c'' ''a'' ''b'' ''task'' 1 100 ''tok'' ''k'' [] [] ''internal'',
     SvcAccept 20 ''t'' ''t:s:k'' ''wrong'' 1 ''k1'', SvcAccept 30 ''t'' ''t:s:k'' ''tok'' 1 ''k2'']"

lemma demo_service_run_state:
  "map_sum id (map_option hr_state) (pg_handoff_get True ''t'' ''t:s:k''
     (hw_repo (run_ops (service_step demo_hooks (pg_handoff_repo True demo_uuid5)) demo_world demo_service_run)))
   = Inr (Some ''accepted'')"
  by code_simp


end
