(* ===== verification/Handoff_Sweep.thy ===== *)
theory Handoff_Sweep
  imports Handoff_Tokens "HOL-Library.Multiset"
begin

text \<open>
  The sweep releases every parent.  With a repository in which the sweeper's keys are its own and
  callbacks that do not raise, one sweep of enough batches expires every overdue delegated handoff,
  whatever the batch size, and resumes its parent.
\<close>

section \<open>Overdue handoffs\<close>

definition records :: "mem_handoffs \<Rightarrow> handoff_record list" where
  "records m = map snd (mh_records m)"

definition is_overdue :: "instant \<Rightarrow> handoff_record \<Rightarrow> bool" where
  "is_overdue now r \<longleftrightarrow> delegated (hr_state r) \<and> hr_deadline r < now"

definition hkey :: "handoff_record \<Rightarrow> string \<times> string" where
  "hkey r = (hr_tenant_id r, hr_handoff_id r)"

definition page_key :: "handoff_record \<Rightarrow> instant \<times> string" where
  "page_key r = (hr_deadline r, hr_handoff_id r)"

definition expired_handoff :: "instant \<Rightarrow> handoff_record \<Rightarrow> handoff_record" where
  "expired_handoff now r = moved_handoff r ''expired'' None now"

text \<open>Handoff ids are distinct, and a delegated handoff has no command under the sweeper's key.\<close>

definition sweep_inv :: "mem_handoffs \<Rightarrow> bool" where
  "sweep_inv m \<longleftrightarrow> mh_records m = map (\<lambda>r. (hkey r, r)) (records m) \<and> distinct (map hr_handoff_id (records m)) \<and>
     list_all (\<lambda>r. delegated (hr_state r) \<longrightarrow> mh_commands m (hr_tenant_id r, hr_handoff_id r, sweep_key r) = None) (records m)"

lemma sweep_inv_keys: "sweep_inv m \<Longrightarrow> distinct (map hkey (records m))"
  by (auto simp: sweep_inv_def hkey_def distinct_map inj_on_def)

lemma sweep_inv_same: "sweep_inv m \<Longrightarrow> x \<in> set (records m) \<Longrightarrow> y \<in> set (records m) \<Longrightarrow>
    hr_handoff_id x = hr_handoff_id y \<Longrightarrow> x = y"
  by (auto simp: sweep_inv_def distinct_map inj_on_def)

lemma sweep_lookup: "sweep_inv m \<Longrightarrow> r \<in> set (records m) \<Longrightarrow> map_of (mh_records m) (hkey r) = Some r"
  using find_key_unique [OF sweep_inv_keys] by (simp add: sweep_inv_def map_of_keyed [of hkey "\<lambda>r. r"])

lemma expire_delegated: "delegated s \<Longrightarrow> move_handoff s ''expired'' = Inr ''expired''"
  unfolding delegated_def by (elim insertE emptyE; simp; code_simp)

lemma expired_simps [simp]:
  "hkey (expired_handoff now r) = hkey r" "hr_handoff_id (expired_handoff now r) = hr_handoff_id r"
  "\<not> delegated (hr_state (expired_handoff now r))" "hr_tenant_id (expired_handoff now r) = hr_tenant_id r"
  by (simp_all add: expired_handoff_def moved_handoff_def hkey_def delegated_def)

lemma expire_one:
  assumes inv: "sweep_inv m" and r: "r \<in> set (records m)" "delegated (hr_state r)"
  obtains event m' where
    "mem_handoff_transition now (hr_tenant_id r) (hr_handoff_id r) ''expired'' (hr_version r) (sweep_key r) None m
       = (Inr (expired_handoff now r, event, False), m')"
    "ht_to_state event = ''expired''" "delegated (ht_from_state event)" "sweep_inv m'"
    "records m' = map (\<lambda>q. if q = r then expired_handoff now r else q) (records m)"
proof -
  let ?x = "expired_handoff now r"
  let ?e = "handoff_event r ''expired'' (sweep_key r) now"
  let ?rec = "AList.update (hkey r) ?x (mh_records m)"
  let ?rs = "map (\<lambda>q. if q = r then ?x else q) (records m)"
  let ?m = "m\<lparr>mh_records := ?rec, mh_commands := (mh_commands m)((hr_tenant_id r, hr_handoff_id r, sweep_key r) \<mapsto> ?e)\<rparr>"
  have cmd: "mh_commands m (hr_tenant_id r, hr_handoff_id r, sweep_key r) = None"
    using inv r by (auto simp: sweep_inv_def list_all_iff)
  have res: "mem_handoff_transition now (hr_tenant_id r) (hr_handoff_id r) ''expired'' (hr_version r) (sweep_key r) None m
       = (Inr (?x, ?e, False), ?m)"
    using sweep_lookup [OF inv r(1)] cmd expire_delegated [OF r(2)]
    by (simp add: mem_handoff_transition_def Let_def expired_handoff_def hkey_def)
  have key: "hkey q = hkey r \<longleftrightarrow> q = r" if "q \<in> set (records m)" for q
    using sweep_inv_same [OF inv that r(1)] by (auto simp: hkey_def)
  have rec: "?rec = map (\<lambda>r. (hkey r, r)) ?rs"
  proof -
    have "?rec = map (\<lambda>q. (hkey q, if hkey q = hkey r then ?x else q)) (records m)"
      using alist_update_map [OF sweep_inv_keys [OF inv] r(1), of ?x "\<lambda>q. q"] inv by (simp add: sweep_inv_def)
    also have "\<dots> = map (\<lambda>r. (hkey r, r)) ?rs" using key by (auto intro!: map_cong)
    finally show ?thesis .
  qed
  then have rs: "records ?m = ?rs" by (simp add: records_def comp_def)
  have ids: "map hr_handoff_id ?rs = map hr_handoff_id (records m)" by auto
  have cmds: "mh_commands ?m (hr_tenant_id q, hr_handoff_id q, sweep_key q) = None" if "q \<in> set ?rs" "delegated (hr_state q)" for q
  proof -
    have q: "q \<in> set (records m)" "q \<noteq> r" using that by (auto split: if_splits) (metis expired_simps(3))
    then have "hr_handoff_id q \<noteq> hr_handoff_id r" using sweep_inv_same [OF inv q(1) r(1)] by blast
    then show ?thesis using inv q(1) that(2) by (simp add: sweep_inv_def list_all_iff)
  qed
  have "sweep_inv ?m"
    unfolding sweep_inv_def rs list_all_iff
  proof (intro conjI ballI impI)
    show "mh_records ?m = map (\<lambda>r. (hkey r, r)) ?rs" using rec by simp
    show "distinct (map hr_handoff_id ?rs)" unfolding ids using inv by (simp add: sweep_inv_def)
  qed (rule cmds)
  then show thesis using that [OF res] rs r(2) by (simp add: handoff_event_def)
qed

section \<open>One page\<close>

definition hooks_ok :: "'w handoff_hooks \<Rightarrow> bool" where
  "hooks_ok hk \<longleftrightarrow> (\<forall>ty p env. \<exists>env'. hk_emit hk ty p env = (Inr (), env')) \<and> (\<forall>r env. \<exists>env'. hk_resume hk r env = (Inr (), env'))"

definition released_parent :: "instant \<Rightarrow> handoff_record \<Rightarrow> (mem_handoffs, 'w) handoff_world \<Rightarrow> bool" where
  "released_parent now r w \<longleftrightarrow> expired_handoff now r \<in> set (records (hw_repo w)) \<and> hr_handoff_id r \<in> hw_resumed w"

lemma expire_step:
  assumes hk: "hooks_ok hk" and inv: "sweep_inv (hw_repo w)" and r: "r \<in> set (records (hw_repo w))" "delegated (hr_state r)"
  obtains x w' where "handoff_transition_step hk mem_handoff_repo now r ''expired'' (hr_version r) (sweep_key r) None w = (Inr x, w')"
    "sweep_inv (hw_repo w')"
    "records (hw_repo w') = map (\<lambda>q. if q = r then expired_handoff now r else q) (records (hw_repo w))"
    "hw_resumed w' = insert (hr_handoff_id r) (hw_resumed w)"
proof -
  obtain event m' where m': "mem_handoff_transition now (hr_tenant_id r) (hr_handoff_id r) ''expired'' (hr_version r) (sweep_key r) None
       (hw_repo w) = (Inr (expired_handoff now r, event, False), m')"
    "ht_to_state event = ''expired''" "delegated (ht_from_state event)" "sweep_inv m'"
    "records m' = map (\<lambda>q. if q = r then expired_handoff now r else q) (records (hw_repo w))"
    by (rule expire_one [OF inv r])
  obtain env1 where e1: "hk_emit hk (ht_event_type event) (transition_json r (expired_handoff now r) event) (hw_env w) = (Inr (), env1)"
    using hk unfolding hooks_ok_def by blast
  obtain env2 where e2: "hk_resume hk (expired_handoff now r) env1 = (Inr (), env2)"
    using hk unfolding hooks_ok_def by blast
  show thesis
  proof (cases "hr_handoff_id r \<in> hw_resumed w")
    case True
    show ?thesis
      by (rule that [of "expired_handoff now r" "w\<lparr>hw_repo := m', hw_env := env1\<rparr>"])
        (use m' e1 True in \<open>simp_all add: handoff_transition_step_def mem_handoff_repo_def bind_op_def call_hook_def releasing_def Let_def insert_absorb\<close>)
  next
    case False
    show ?thesis
      by (rule that [of "expired_handoff now r" "w\<lparr>hw_repo := m', hw_env := env2, hw_resumed := insert (hr_handoff_id r) (hw_resumed w)\<rparr>"])
        (use m' e1 e2 False in \<open>simp_all add: handoff_transition_step_def mem_handoff_repo_def bind_op_def call_hook_def releasing_def Let_def\<close>)
  qed
qed

lemma expire_page:
  assumes hk: "hooks_ok hk"
  shows "sweep_inv (hw_repo w) \<Longrightarrow> distinct rs \<Longrightarrow> set rs \<subseteq> set (records (hw_repo w)) \<Longrightarrow> \<forall>r \<in> set rs. delegated (hr_state r) \<Longrightarrow>
    \<exists>w'. expire_all hk mem_handoff_repo now rs st w = (st\<lparr>sw_expired := sw_expired st + length rs\<rparr>, w') \<and> sweep_inv (hw_repo w') \<and>
      records (hw_repo w') = map (\<lambda>q. if q \<in> set rs then expired_handoff now q else q) (records (hw_repo w)) \<and>
      hw_resumed w' = hr_handoff_id ` set rs \<union> hw_resumed w"
proof (induction rs arbitrary: st w)
  case (Cons r rs)
  have r: "r \<in> set (records (hw_repo w))" "delegated (hr_state r)" using Cons.prems by auto
  show ?case
  proof (rule expire_step [OF hk Cons.prems(1) r, of now])
    fix x w'
    assume w': "handoff_transition_step hk mem_handoff_repo now r ''expired'' (hr_version r) (sweep_key r) None w = (Inr x, w')"
      "sweep_inv (hw_repo w')"
      "records (hw_repo w') = map (\<lambda>q. if q = r then expired_handoff now r else q) (records (hw_repo w))"
      "hw_resumed w' = insert (hr_handoff_id r) (hw_resumed w)"
    have sub: "set rs \<subseteq> set (records (hw_repo w'))" using Cons.prems(2,3) by (auto simp: w'(3))
    obtain w'' where "expire_all hk mem_handoff_repo now rs (st\<lparr>sw_expired := sw_expired st + 1\<rparr>) w'
          = (st\<lparr>sw_expired := sw_expired st + 1 + length rs\<rparr>, w'')" "sweep_inv (hw_repo w'')"
        "records (hw_repo w'') = map (\<lambda>q. if q \<in> set rs then expired_handoff now q else q) (records (hw_repo w'))"
        "hw_resumed w'' = hr_handoff_id ` set rs \<union> hw_resumed w'"
      using Cons.IH [OF w'(2) _ sub, of "st\<lparr>sw_expired := sw_expired st + 1\<rparr>"] Cons.prems by auto
    moreover have "expired_handoff now r \<notin> set rs" using Cons.prems(4) expired_simps(3) by fastforce
    ultimately show ?case using w' Cons.prems(2) by (auto simp: comp_def)
  qed
qed simp

section \<open>All pages\<close>

definition overdue :: "instant \<Rightarrow> mem_handoffs \<Rightarrow> handoff_record list" where
  "overdue now m = filter (is_overdue now) (records m)"

lemma overdue_after_page:
  assumes "set rs \<subseteq> set (overdue now m)"
    and "records m' = map (\<lambda>q. if q \<in> set rs then expired_handoff now q else q) (records m)"
  shows "overdue now m' = filter (\<lambda>q. q \<notin> set rs) (overdue now m)"
proof -
  have "filter (is_overdue now) (map (\<lambda>q. if q \<in> set rs then expired_handoff now q else q) xs)
      = filter (\<lambda>q. q \<notin> set rs) (filter (is_overdue now) xs)" for xs
    by (induction xs) (auto simp: is_overdue_def)
  then show ?thesis using assms(2) by (simp add: overdue_def)
qed

lemma sorted_take_drop_less:
  assumes "distinct (map f xs)" "n \<le> length xs" "0 < n" "x \<in> set xs" "x \<notin> set (take n (sort_key f xs))"
  shows "f (last (take n (sort_key f xs))) < f x"
proof -
  let ?ys = "sort_key f xs"
  have "mset (map f ?ys) = mset (map f xs)" by (metis mset_map mset_sort)
  then have d: "distinct (map f ?ys)" using assms(1) mset_eq_imp_distinct_iff by blast
  have "x \<in> set ?ys" using assms(4) by simp
  then obtain j where j: "j < length ?ys" "?ys ! j = x" unfolding in_set_conv_nth by blast
  have "n \<le> j"
  proof (rule ccontr)
    assume "\<not> n \<le> j"
    then have "x \<in> set (take n ?ys)" using j by (auto simp: in_set_conv_nth intro!: exI [of _ j])
    then show False using assms(5) by simp
  qed
  have "last (take n ?ys) = ?ys ! (n - 1)" using assms(2,3) j(1)
    by (subst last_conv_nth) (auto simp: min_absorb2 simp flip: length_0_conv)
  moreover have "map f ?ys ! (n - 1) \<le> map f ?ys ! j" "map f ?ys ! (n - 1) \<noteq> map f ?ys ! j"
    using sorted_nth_mono [of "map f ?ys" "n - 1" j] nth_eq_iff_index_eq [OF d, of "n - 1" j] j(1) \<open>n \<le> j\<close> assms(3)
    by simp_all
  moreover have "map f ?ys ! (n - 1) = f (?ys ! (n - 1))" "map f ?ys ! j = f x"
    using j \<open>n \<le> j\<close> by simp_all
  ultimately show ?thesis by (metis order.strict_iff_order)
qed

lemma page_key_distinct: "sweep_inv m \<Longrightarrow> distinct (map page_key (overdue now m))"
  by (auto simp: sweep_inv_def overdue_def page_key_def distinct_map inj_on_def)

lemma overdue_page_all:
  assumes "\<forall>r \<in> set (overdue now m). after_cursor c r"
  shows "mem_list_overdue now batch c m = take batch (sort_key page_key (overdue now m))"
proof -
  have "filter (\<lambda>r. delegated (hr_state r) \<and> hr_deadline r < now \<and> after_cursor c r) (map snd (mh_records m)) = overdue now m"
    unfolding overdue_def records_def is_overdue_def using assms
    by (intro filter_cong) (auto simp: overdue_def records_def is_overdue_def)
  then show ?thesis by (simp add: mem_list_overdue_def overdue_page_def page_key_def [abs_def])
qed

lemma length_minus_page:
  assumes "distinct xs" "distinct ps" "set ps \<subseteq> set xs"
  shows "length (filter (\<lambda>q. q \<notin> set ps) xs) = length xs - length ps"
proof -
  have "length (filter (\<lambda>q. q \<in> set ps) xs) = length ps"
    using assms distinct_card [OF assms(2)] by (simp add: distinct_length_filter Int_absorb2)
  then show ?thesis using sum_length_filter_compl [of "\<lambda>q. q \<in> set ps" xs] by simp
qed

definition expire_overdue :: "instant \<Rightarrow> handoff_record \<Rightarrow> handoff_record" where
  "expire_overdue now q = (if is_overdue now q then expired_handoff now q else q)"

lemma expire_overdue_page:
  assumes "set ps = {q \<in> set xs. is_overdue now q}"
  shows "map (\<lambda>q. if q \<in> set ps then expired_handoff now q else q) xs = map (expire_overdue now) xs"
  using assms by (auto simp: expire_overdue_def)

lemma expire_overdue_after_page:
  assumes "\<forall>q \<in> set ps. is_overdue now q"
  shows "map (expire_overdue now) (map (\<lambda>q. if q \<in> set ps then expired_handoff now q else q) xs) = map (expire_overdue now) xs"
  using assms by (auto simp: expire_overdue_def is_overdue_def)

lemma sweep_batches_all:
  assumes hk: "hooks_ok hk" and b: "0 < batch"
  shows "sweep_inv (hw_repo w) \<Longrightarrow> length (overdue now (hw_repo w)) \<le> batch * n \<Longrightarrow>
    \<forall>r \<in> set (overdue now (hw_repo w)). after_cursor c r \<Longrightarrow>
    \<exists>w'. sweep_batches hk mem_handoff_repo now batch n c st w
        = (Inr (st\<lparr>sw_expired := sw_expired st + length (overdue now (hw_repo w))\<rparr>), w') \<and>
      sweep_inv (hw_repo w') \<and>
      records (hw_repo w') = map (expire_overdue now) (records (hw_repo w)) \<and>
      hw_resumed w' = hr_handoff_id ` set (overdue now (hw_repo w)) \<union> hw_resumed w"
proof (induction n arbitrary: c st w)
  case 0
  then have "filter (is_overdue now) (records (hw_repo w)) = []" by (simp add: overdue_def)
  then have "map (expire_overdue now) (records (hw_repo w)) = records (hw_repo w)"
    by (auto simp: filter_empty_conv expire_overdue_def intro!: map_idI)
  then show ?case using 0 by (simp add: overdue_def)
next
  case (Suc n)
  let ?od = "overdue now (hw_repo w)"
  let ?page = "take batch (sort_key page_key ?od)"
  have inv: "sweep_inv (hw_repo w)" by (rule Suc.prems)
  have dk: "distinct (map page_key ?od)" by (rule page_key_distinct [OF inv])
  then have dp: "distinct ?page" by (simp add: distinct_map)
  have sub: "set ?page \<subseteq> set ?od" using set_take_subset [of batch "sort_key page_key ?od"] by simp
  then have sub': "set ?page \<subseteq> set (records (hw_repo w))" "\<forall>r \<in> set ?page. delegated (hr_state r)"
    by (auto simp: overdue_def is_overdue_def)
  obtain w' where w': "expire_all hk mem_handoff_repo now ?page st w = (st\<lparr>sw_expired := sw_expired st + length ?page\<rparr>, w')"
      "sweep_inv (hw_repo w')"
      "records (hw_repo w') = map (\<lambda>q. if q \<in> set ?page then expired_handoff now q else q) (records (hw_repo w))"
      "hw_resumed w' = hr_handoff_id ` set ?page \<union> hw_resumed w"
    using expire_page [OF hk inv dp sub', of now st] by blast
  have step: "sweep_batches hk mem_handoff_repo now batch (Suc n) c st w =
      (if length ?page < batch then (Inr (st\<lparr>sw_expired := sw_expired st + length ?page\<rparr>), w')
       else sweep_batches hk mem_handoff_repo now batch n (Some (page_key (last ?page)))
              (st\<lparr>sw_expired := sw_expired st + length ?page\<rparr>) w')"
    using overdue_page_all [OF Suc.prems(3), of batch] w'(1) by (simp add: mem_handoff_repo_def page_key_def)
  note od' = overdue_after_page [OF sub w'(3)]
  show ?case
  proof (cases "length ?page < batch")
    case True
    then have "?page = sort_key page_key ?od" by simp
    then have all: "set ?page = set ?od" "length ?page = length ?od" by simp_all
    have "records (hw_repo w') = map (expire_overdue now) (records (hw_repo w))"
      unfolding w'(3) by (rule expire_overdue_page) (simp only: all, auto simp: overdue_def)
    then show ?thesis unfolding step using True w'(2,4) all by (auto simp: min_def split: if_splits)
  next
    case False
    then have len: "length ?page = batch" "batch \<le> length ?od" by simp_all
    have after: "\<forall>r \<in> set (overdue now (hw_repo w')). after_cursor (Some (page_key (last ?page))) r"
      using sorted_take_drop_less [OF dk len(2) b] unfolding od' by (auto simp: after_cursor_def page_key_def)
    have card: "length (overdue now (hw_repo w')) = length ?od - batch"
      using length_minus_page [OF _ dp sub] dk len(1) unfolding od' by (simp add: distinct_map)
    have "length (overdue now (hw_repo w')) \<le> batch * n" using card Suc.prems(2) by simp
    from Suc.IH [OF w'(2) this after, of "st\<lparr>sw_expired := sw_expired st + length ?page\<rparr>"]
    obtain w'' where w'': "sweep_batches hk mem_handoff_repo now batch n (Some (page_key (last ?page)))
          (st\<lparr>sw_expired := sw_expired st + length ?page\<rparr>) w'
        = (Inr (st\<lparr>sw_expired := sw_expired st + length ?page + length (overdue now (hw_repo w'))\<rparr>), w'')"
      "sweep_inv (hw_repo w'')"
      "records (hw_repo w'') = map (expire_overdue now) (records (hw_repo w'))"
      "hw_resumed w'' = hr_handoff_id ` set (overdue now (hw_repo w')) \<union> hw_resumed w'" by auto
    have "set (overdue now (hw_repo w')) \<union> set ?page = set ?od" using sub unfolding od' by auto
    then have res: "hw_resumed w'' = hr_handoff_id ` set ?od \<union> hw_resumed w" unfolding w''(4) w'(4) by blast
    have "records (hw_repo w'') = map (expire_overdue now) (records (hw_repo w))"
      unfolding w''(3) w'(3) by (rule expire_overdue_after_page) (use sub in \<open>auto simp: overdue_def\<close>)
    then show ?thesis unfolding step using False w''(1,2) res card len by simp
  qed
qed


definition demo_delegated :: mem_handoffs where
  "demo_delegated = \<lparr>mh_records = [((''t'', ''h1''), demo_handoff\<lparr>hr_state := ''executing'', hr_version := 3\<rparr>)], mh_commands = (\<lambda>_. None)\<rparr>"


end
