(* ===== verification/Session_Cancel.thy ===== *)
theory Session_Cancel
  imports Leases Handoff_Store Pattern_State
begin

text \<open>
  Cancellation and resumption of coordination sessions (\<open>app/coordination/cancellation.py\<close>).  The
  PostgreSQL repository works on six tables at once: sessions, events with their outbox, handoffs,
  work items with their claims, strategy executions and checkpoints; a method is one transaction under
  the session's row lock, and an exception rolls all of it back.  A query without \<open>ORDER BY\<close> returns
  the rows in table order.  \<open>uuid5\<close> is a parameter; clock readings and \<open>uuid4\<close> ids are arguments.
\<close>

section \<open>The tables\<close>

record execution_row =
  ex_id :: string
  ex_tenant_id :: string
  ex_session_id :: string
  ex_goal_id :: string
  ex_adapter_id :: string
  ex_adapter_version :: string
  ex_state_schema_version :: int
  ex_profile_snapshot :: json
  ex_state :: string
  ex_result :: json
  ex_cost :: rat
  ex_idempotency_key :: string
  ex_deadline :: "instant option"
  ex_attempt :: int
  ex_prior_execution_id :: "string option"

record cancel_db =
  ca_handoffs :: handoff_db
  ca_leases :: pg_leases
  ca_executions :: "execution_row list"
  ca_checkpoints :: checkpoint_table

abbreviation ca_coord :: "cancel_db \<Rightarrow> coord_db" where
  "ca_coord db \<equiv> hd_coord (ca_handoffs db)"

record cancellation_result =
  cn_tenant_id :: string
  cn_session_id :: string
  cn_reason :: string
  cn_cancelled_children :: "string list"
  cn_invalidated_work_items :: "string list"

text \<open>The text of a checkpoint's \<open>state_reference\<close> is the pair it encodes.\<close>

record 'ref resume_result =
  rs_tenant_id :: string
  rs_session_id :: string
  rs_checkpoint_reference :: 'ref
  rs_attempt :: int

section \<open>Cancelling\<close>

definition cancel_event_id :: "(string \<Rightarrow> string \<Rightarrow> string) \<Rightarrow> string \<Rightarrow> string \<Rightarrow> string" where
  "cancel_event_id uuid5 t s = uuid5 ''NAMESPACE_URL'' (t @ '':'' @ s @ '':cancel'')"

definition session_rows :: "bool \<Rightarrow> string \<Rightarrow> string \<Rightarrow> coord_db \<Rightarrow> session_row list" where
  "session_rows enforced t s db = filter (\<lambda>r. ss_id r = s) (rls_rows enforced ss_tenant_id t (db_sessions db))"

text \<open>
  The result read back from the event of an earlier cancellation.  No writer of the events table but
  this repository stores a dictionary with a \<open>reason\<close>.
\<close>

definition persisted_result :: "string \<Rightarrow> string \<Rightarrow> event_payload \<Rightarrow> cancellation_result result" where
  "persisted_result t s payload =
     (case payload of
        CancelPayload reason children items \<Rightarrow>
          Inr \<lparr>cn_tenant_id = t, cn_session_id = s, cn_reason = reason, cn_cancelled_children = children,
            cn_invalidated_work_items = items\<rparr>
      | _ \<Rightarrow> Inl (KeyError ''reason''))"

definition running_state :: "string \<Rightarrow> bool" where
  "running_state s \<longleftrightarrow> s \<in> {''pending'', ''running'', ''checkpointed'', ''cancelling''}"

definition running_children :: "bool \<Rightarrow> string \<Rightarrow> string \<Rightarrow> cancel_db \<Rightarrow> string list" where
  "running_children enforced t s db = map ex_id (filter (\<lambda>x. ex_session_id x = s \<and> running_state (ex_state x))
     (rls_rows enforced ex_tenant_id t (ca_executions db)))"

text \<open>The join of claims and work items: a claim once per matching work item.\<close>

definition active_claims :: "bool \<Rightarrow> string \<Rightarrow> string \<Rightarrow> pg_leases \<Rightarrow> claim_row list" where
  "active_claims enforced t s db = concat (map (\<lambda>c. map (\<lambda>_. c)
       (filter (\<lambda>w. cr_work_item_id c = wi_id w \<and> wi_session_id w = s \<and> cr_state c = ''active'')
          (rls_rows enforced wi_tenant_id t (pg_work_items db))))
     (rls_rows enforced cr_tenant_id t (pg_claims db)))"

definition cancel_executions :: "bool \<Rightarrow> string \<Rightarrow> string list \<Rightarrow> execution_row list \<Rightarrow> execution_row list" where
  "cancel_executions enforced t ids = update_where (\<lambda>x. ex_id x \<in> set ids \<and> (enforced \<longrightarrow> ex_tenant_id x = t))
     (\<lambda>x. x\<lparr>ex_state := ''cancelled''\<rparr>)"

definition cancel_handoffs :: "bool \<Rightarrow> string \<Rightarrow> string \<Rightarrow> instant \<Rightarrow> handoff_row list \<Rightarrow> handoff_row list" where
  "cancel_handoffs enforced t s now = update_where
     (\<lambda>q. hr_session_id (ho_record q) = s \<and> hr_state (ho_record q) \<in> {''requested'', ''accepted'', ''active''} \<and>
        (enforced \<longrightarrow> ho_tenant q = t))
     (\<lambda>q. q\<lparr>ho_record := (ho_record q)\<lparr>hr_state := ''cancelled'', hr_updated_at := now\<rparr>\<rparr>)"

definition fence_claim :: "bool \<Rightarrow> string \<Rightarrow> claim_row \<Rightarrow> claim_row list \<Rightarrow> claim_row list" where
  "fence_claim enforced t claim = update_where (\<lambda>r. cr_id r = cr_id claim \<and> (enforced \<longrightarrow> cr_tenant_id r = t))
     (\<lambda>r. r\<lparr>cr_state := ''released'', cr_fencing_token := cr_fencing_token claim + 1\<rparr>)"

definition cancel_leases :: "bool \<Rightarrow> string \<Rightarrow> claim_row list \<Rightarrow> pg_leases \<Rightarrow> pg_leases" where
  "cancel_leases enforced t claims db =
     (let invalidated = map cr_work_item_id claims in
      \<lparr>pg_work_items = (if invalidated = [] then pg_work_items db
         else update_where (\<lambda>w. wi_id w \<in> set invalidated \<and> (enforced \<longrightarrow> wi_tenant_id w = t))
           (\<lambda>w. w\<lparr>wi_state := ''cancelled''\<rparr>) (pg_work_items db)),
       pg_claims = fold (fence_claim enforced t) claims (pg_claims db)\<rparr>)"

definition cancelled_session :: "session_row \<Rightarrow> string \<Rightarrow> instant \<Rightarrow> session_row \<Rightarrow> session_row" where
  "cancelled_session session reason now r = r\<lparr>ss_state := ''cancelled'', ss_cancellation_requested_at := Some now,
     ss_cancellation_reason := Some reason, ss_next_sequence := ss_next_sequence session + 1,
     ss_version := ss_version session + 1, ss_updated_at := now\<rparr>"

text \<open>What a cancellation returns and writes, for the session row it locked.\<close>

definition cancel_outcome :: "bool \<Rightarrow> string \<Rightarrow> string \<Rightarrow> string \<Rightarrow> cancel_db \<Rightarrow> cancellation_result" where
  "cancel_outcome enforced t s reason db = \<lparr>cn_tenant_id = t, cn_session_id = s, cn_reason = reason,
     cn_cancelled_children = running_children enforced t s db,
     cn_invalidated_work_items = map cr_work_item_id (active_claims enforced t s (ca_leases db))\<rparr>"

definition cancel_payload :: "cancellation_result \<Rightarrow> event_payload" where
  "cancel_payload res = CancelPayload (cn_reason res) (cn_cancelled_children res) (cn_invalidated_work_items res)"

definition cancel_event :: "(string \<Rightarrow> string \<Rightarrow> string) \<Rightarrow> instant \<Rightarrow> session_row \<Rightarrow> cancellation_result \<Rightarrow> event_row" where
  "cancel_event uuid5 now session res = (let t = cn_tenant_id res; s = cn_session_id res in
     allocated_event t s (cancel_event_id uuid5 t s) ''session.cancelled'' (''cancel:'' @ s) ''internal''
       (cancel_payload res) now (ss_next_sequence session))"

definition cancel_outbox :: "(string \<Rightarrow> string \<Rightarrow> string) \<Rightarrow> instant \<Rightarrow> string \<Rightarrow> session_row \<Rightarrow> cancellation_result \<Rightarrow> outbox_row" where
  "cancel_outbox uuid5 now outbox_id session res = (let t = cn_tenant_id res; s = cn_session_id res in
     allocated_outbox t s (cancel_event_id uuid5 t s) ''session.cancelled'' (''cancel:'' @ s) ''internal''
       (cancel_payload res) now (ss_next_sequence session) (Some '''') outbox_id)"

definition cancelled_db ::
  "bool \<Rightarrow> (string \<Rightarrow> string \<Rightarrow> string) \<Rightarrow> instant \<Rightarrow> string \<Rightarrow> session_row \<Rightarrow> cancellation_result \<Rightarrow> cancel_db \<Rightarrow> cancel_db" where
  "cancelled_db enforced uuid5 now outbox_id session res db =
     (let t = cn_tenant_id res; s = cn_session_id res; coord = ca_coord db in
      db\<lparr>ca_executions := cancel_executions enforced t (cn_cancelled_children res) (ca_executions db),
         ca_leases := cancel_leases enforced t (active_claims enforced t s (ca_leases db)) (ca_leases db),
         ca_handoffs := \<lparr>hd_coord = coord\<lparr>
             db_sessions := update_where (\<lambda>r. ss_id r = s \<and> (enforced \<longrightarrow> ss_tenant_id r = t))
               (cancelled_session session (cn_reason res) now) (db_sessions coord),
             db_events := db_events coord @ [cancel_event uuid5 now session res],
             db_outbox := db_outbox coord @ [cancel_outbox uuid5 now outbox_id session res]\<rparr>,
           hd_handoffs = cancel_handoffs enforced t s now (hd_handoffs (ca_handoffs db))\<rparr>\<rparr>)"

definition pg_cancel ::
  "bool \<Rightarrow> (string \<Rightarrow> string \<Rightarrow> string) \<Rightarrow> instant \<Rightarrow> string \<Rightarrow> string \<Rightarrow> string \<Rightarrow> string \<Rightarrow>
   (cancel_db, cancellation_result \<times> bool) op" where
  "pg_cancel enforced uuid5 now outbox_id t s reason db =
     (case one_or_none (session_rows enforced t s (ca_coord db)) of
        Inl e \<Rightarrow> (Inl e, db)
      | Inr None \<Rightarrow> (Inl (KeyError s), db)
      | Inr (Some session) \<Rightarrow>
          if ss_state session = ''cancelled''
          then (case one_or_none (map ev_payload (filter (\<lambda>e. ev_id e = cancel_event_id uuid5 t s)
                        (rls_rows enforced ev_tenant_id t (db_events (ca_coord db))))) of
                  Inl e \<Rightarrow> (Inl e, db)
                | Inr None \<Rightarrow> (Inl (RuntimeError s), db)
                | Inr (Some persisted) \<Rightarrow> (map_sum id (\<lambda>r. (r, False)) (persisted_result t s persisted), db))
          else if ss_state session \<in> {''completed'', ''failed''}
          then (Inl (ResumeRejectedError ''terminal session cannot cancel'' (ss_state session)), db)
          else
            let res = cancel_outcome enforced t s reason db
            in if \<not> event_insert_ok (cancel_event uuid5 now session res) (db_events (ca_coord db))
               then (Inl (IntegrityError ''coordination_events''), db)
               else if \<not> outbox_insert_ok (cancel_outbox uuid5 now outbox_id session res) (db_outbox (ca_coord db))
               then (Inl (IntegrityError ''coordination_outbox''), db)
               else (Inr (res, True), cancelled_db enforced uuid5 now outbox_id session res db))"

section \<open>Resuming\<close>

text \<open>The checkpoints of the session joined with their executions, the greatest sequence number first.\<close>

definition latest_checkpoint :: "bool \<Rightarrow> string \<Rightarrow> string \<Rightarrow> cancel_db \<Rightarrow> (checkpoint_row \<times> execution_row) list" where
  "latest_checkpoint enforced t s db = take 1 (sort_key (\<lambda>(c, _). - ck_sequence c)
     (concat (map (\<lambda>c. map (\<lambda>x. (c, x)) (filter (\<lambda>x. ck_execution_id c = ex_id x)
          (rls_rows enforced ex_tenant_id t (ca_executions db))))
       (filter (\<lambda>c. ck_session_id c = s) (rls_rows enforced ck_tenant_id t (ca_checkpoints db))))))"

definition resumed_execution ::
  "string \<Rightarrow> string \<Rightarrow> string \<Rightarrow> string \<Rightarrow> int \<Rightarrow> checkpoint_row \<Rightarrow> execution_row \<Rightarrow> execution_row" where
  "resumed_execution execution_id t s adapter schema c x =
     \<lparr>ex_id = execution_id, ex_tenant_id = t, ex_session_id = s, ex_goal_id = ex_goal_id x, ex_adapter_id = ex_adapter_id x,
      ex_adapter_version = adapter, ex_state_schema_version = schema, ex_profile_snapshot = ex_profile_snapshot x,
      ex_state = ''pending'', ex_result = JObj [], ex_cost = 0,
      ex_idempotency_key = ''resume:'' @ s @ '':'' @ str_int (ex_attempt x + 1),
      ex_deadline = ex_deadline x, ex_attempt = ex_attempt x + 1, ex_prior_execution_id = Some (ck_execution_id c)\<rparr>"

definition resumed_session :: "instant \<Rightarrow> session_row \<Rightarrow> session_row \<Rightarrow> session_row" where
  "resumed_session now session r = r\<lparr>ss_state := ''active'', ss_cancellation_requested_at := None,
     ss_cancellation_reason := None, ss_version := ss_version session + 1, ss_updated_at := now\<rparr>"

definition pg_resume ::
  "bool \<Rightarrow> instant \<Rightarrow> string \<Rightarrow> string \<Rightarrow> string \<Rightarrow> string \<Rightarrow> int \<Rightarrow> (cancel_db, (string \<times> json) resume_result) op" where
  "pg_resume enforced now execution_id t s adapter schema db =
     (case one_or_none (session_rows enforced t s (ca_coord db)) of
        Inl e \<Rightarrow> (Inl e, db)
      | Inr None \<Rightarrow> (Inl (KeyError s), db)
      | Inr (Some session) \<Rightarrow>
          if ss_state session \<in> {''completed'', ''failed''}
          then (Inl (ResumeRejectedError ''terminal session cannot resume'' (ss_state session)), db)
          else if ss_state session \<noteq> ''cancelled''
          then (Inl (ResumeRejectedError ''session is not cancelled'' (ss_state session)), db)
          else case latest_checkpoint enforced t s db of
                 [] \<Rightarrow> (Inl (IncompatibleCheckpointError ''no compatible checkpoint is available''), db)
               | (c, x) # _ \<Rightarrow>
                   if ex_adapter_version x \<noteq> adapter \<or> ex_state_schema_version x \<noteq> schema
                   then (Inl (IncompatibleCheckpointError ''checkpoint adapter/schema mismatch''), db)
                   else if execution_id \<in> ex_id ` set (ca_executions db)
                   then (Inl (IntegrityError ''strategy_executions''), db)
                   else (Inr \<lparr>rs_tenant_id = t, rs_session_id = s, rs_checkpoint_reference = ck_state_reference c,
                           rs_attempt = ex_attempt x + 1\<rparr>,
                         db\<lparr>ca_executions := ca_executions db @ [resumed_execution execution_id t s adapter schema c x],
                            ca_handoffs := (ca_handoffs db)\<lparr>hd_coord := (ca_coord db)\<lparr>
                              db_sessions := update_where (\<lambda>r. ss_id r = s \<and> (enforced \<longrightarrow> ss_tenant_id r = t))
                                (resumed_session now session) (db_sessions (ca_coord db))\<rparr>\<rparr>\<rparr>))"

section \<open>In memory\<close>

record cancel_session =
  cs_state :: string
  cs_attempt :: int
  cs_children :: "string list"
  cs_leases :: "(string \<times> int) list"
  cs_checkpoint :: "(string \<times> int \<times> string) option"
  cs_cancellation :: "cancellation_result option"

definition new_session :: cancel_session where
  "new_session = \<lparr>cs_state = ''active'', cs_attempt = 1, cs_children = [], cs_leases = [], cs_checkpoint = None,
     cs_cancellation = None\<rparr>"

type_synonym cancel_store = "string \<times> string \<rightharpoonup> cancel_session"

text \<open>\<open>setdefault\<close>: the session, and the store that now has it.\<close>

definition cancel_session_of :: "string \<Rightarrow> string \<Rightarrow> cancel_store \<Rightarrow> cancel_session \<times> cancel_store" where
  "cancel_session_of t s m = (case m (t, s) of Some x \<Rightarrow> (x, m) | None \<Rightarrow> (new_session, m((t, s) \<mapsto> new_session)))"

definition add_child :: "string \<Rightarrow> string \<Rightarrow> string \<Rightarrow> cancel_store \<Rightarrow> cancel_store" where
  "add_child t s child m = (let (x, m) = cancel_session_of t s m in m((t, s) \<mapsto> x\<lparr>cs_children := cs_children x @ [child]\<rparr>))"

definition add_lease :: "string \<Rightarrow> string \<Rightarrow> string \<Rightarrow> int \<Rightarrow> cancel_store \<Rightarrow> cancel_store" where
  "add_lease t s work token m = (let (x, m) = cancel_session_of t s m in m((t, s) \<mapsto> x\<lparr>cs_leases := AList.update work token (cs_leases x)\<rparr>))"

definition lease_token :: "string \<Rightarrow> string \<Rightarrow> string \<Rightarrow> (cancel_store, int) op" where
  "lease_token t s work m = (let (x, m) = cancel_session_of t s m in
     (case map_of (cs_leases x) work of None \<Rightarrow> Inl (KeyError work) | Some token \<Rightarrow> Inr token, m))"

definition set_checkpoint :: "string \<Rightarrow> string \<Rightarrow> string \<Rightarrow> int \<Rightarrow> string \<Rightarrow> cancel_store \<Rightarrow> cancel_store" where
  "set_checkpoint t s adapter schema reference m = (let (x, m) = cancel_session_of t s m in
     m((t, s) \<mapsto> x\<lparr>cs_checkpoint := Some (adapter, schema, reference)\<rparr>))"

definition set_state :: "string \<Rightarrow> string \<Rightarrow> string \<Rightarrow> cancel_store \<Rightarrow> cancel_store" where
  "set_state t s state m = (let (x, m) = cancel_session_of t s m in m((t, s) \<mapsto> x\<lparr>cs_state := state\<rparr>))"

text \<open>\<open>on_persist\<close> runs after the store has changed; what it raises leaves the change.\<close>

definition mem_cancel ::
  "('w, unit) op option \<Rightarrow> string \<Rightarrow> string \<Rightarrow> string \<Rightarrow> (cancel_store \<times> 'w, cancellation_result \<times> bool) op" where
  "mem_cancel on_persist t s reason st =
     (let (x, m) = cancel_session_of t s (fst st) in
      if (case cs_cancellation x of None \<Rightarrow> False | Some c \<Rightarrow> cn_reason c = reason)
      then (Inr (the (cs_cancellation x), False), (m, snd st))
      else
        let result = \<lparr>cn_tenant_id = t, cn_session_id = s, cn_reason = reason, cn_cancelled_children = cs_children x,
              cn_invalidated_work_items = map fst (cs_leases x)\<rparr>;
            m' = m((t, s) \<mapsto> x\<lparr>cs_state := ''cancelled'', cs_leases := map (\<lambda>(w, k). (w, k + 1)) (cs_leases x),
              cs_cancellation := Some result\<rparr>)
        in case on_persist of None \<Rightarrow> (Inr (result, True), (m', snd st))
           | Some f \<Rightarrow> (case f (snd st) of (Inl e, w) \<Rightarrow> (Inl e, (m', w)) | (Inr _, w) \<Rightarrow> (Inr (result, True), (m', w))))"

definition mem_resume ::
  "string \<Rightarrow> string \<Rightarrow> string \<Rightarrow> int \<Rightarrow> (cancel_store, string resume_result) op" where
  "mem_resume t s adapter schema m0 =
     (let (x, m) = cancel_session_of t s m0 in
      if cs_state x \<in> {''completed'', ''failed''}
      then (Inl (ResumeRejectedError ''terminal session cannot resume'' (cs_state x)), m)
      else if cs_state x \<noteq> ''cancelled''
      then (Inl (ResumeRejectedError ''session is not cancelled'' (cs_state x)), m)
      else case cs_checkpoint x of
             None \<Rightarrow> (Inl (IncompatibleCheckpointError ''no compatible checkpoint is available''), m)
           | Some (a, v, reference) \<Rightarrow>
               if a \<noteq> adapter \<or> v \<noteq> schema
               then (Inl (IncompatibleCheckpointError ''checkpoint adapter/schema mismatch''), m)
               else (Inr \<lparr>rs_tenant_id = t, rs_session_id = s, rs_checkpoint_reference = reference,
                       rs_attempt = cs_attempt x + 1\<rparr>,
                     m((t, s) \<mapsto> x\<lparr>cs_attempt := cs_attempt x + 1, cs_state := ''active'', cs_cancellation := None\<rparr>)))"

section \<open>The coordinator\<close>

definition coordinator_cancel ::
  "(string \<Rightarrow> string \<Rightarrow> string \<Rightarrow> ('s, cancellation_result \<times> bool) op) \<Rightarrow> (string \<Rightarrow> ('w, unit) op) option \<Rightarrow>
   string \<Rightarrow> string \<Rightarrow> string \<Rightarrow> ('s \<times> 'w, cancellation_result) op" where
  "coordinator_cancel cancel wakeup t s reason st =
     (case cancel t s reason (fst st) of
        (Inl e, m) \<Rightarrow> (Inl e, (m, snd st))
      | (Inr (result, created), m) \<Rightarrow>
          (case wakeup of
             Some wake \<Rightarrow>
               if created
               then (case wake s (snd st) of (Inl e, w) \<Rightarrow> (Inl e, (m, w)) | (Inr _, w) \<Rightarrow> (Inr result, (m, w)))
               else (Inr result, (m, snd st))
           | None \<Rightarrow> (Inr result, (m, snd st))))"

definition coordinator_resume ::
  "(string \<Rightarrow> string \<Rightarrow> string \<Rightarrow> int \<Rightarrow> ('s, 'r) op) \<Rightarrow> string \<Rightarrow> string \<Rightarrow> string \<Rightarrow> int \<Rightarrow> ('s, 'r) op" where
  "coordinator_resume resume t s adapter schema m = resume t s adapter schema m"

end
