(* ===== verification/Transcript.thy ===== *)
theory Transcript
  imports Handoff_Refinement
begin

text \<open>
  The canonical transcript (\<open>app/coordination/transcript\<close>): the message model, both repositories, the
  append service and the projector.  A message of the PostgreSQL repository takes the session's next
  sequence number, which it shares with every other event of the session, and is written with its
  event and outbox row in one transaction.  The guardrail checker, SHA-256 and \<open>uuid5\<close> are
  parameters.  In the JSON of a message a time is its number of microseconds.
\<close>

section \<open>Messages\<close>

record transcript_message =
  tm_message_id :: string
  tm_tenant_id :: string
  tm_session_id :: string
  tm_sequence :: int
  tm_sender_agent_id :: string
  tm_recipient_agent_ids :: "string list"
  tm_message_type :: string
  tm_safe_content :: "string option"
  tm_artifact_reference :: "string option"
  tm_classification :: string
  tm_trust_label :: string
  tm_provenance_chain :: "string list"
  tm_source_digest :: string
  tm_clearance_decision :: string
  tm_compacts_from_sequence :: "int option"
  tm_compacts_to_sequence :: "int option"
  tm_idempotency_key :: string
  tm_created_at :: instant

definition tm_key :: "transcript_message \<Rightarrow> string \<times> string" where
  "tm_key m = (tm_tenant_id m, tm_session_id m)"

text \<open>What the model validates when a message is built from field values.\<close>

definition fields_ok :: "transcript_message \<Rightarrow> bool" where
  "fields_ok m \<longleftrightarrow> tm_message_id m \<noteq> [] \<and> tm_tenant_id m \<noteq> [] \<and> tm_session_id m \<noteq> [] \<and> 0 < tm_sequence m \<and>
     tm_sender_agent_id m \<noteq> [] \<and>
     tm_message_type m \<in> {''message'', ''decision'', ''question'', ''evidence'', ''summary'', ''human''} \<and>
     (case tm_safe_content m of None \<Rightarrow> True | Some c \<Rightarrow> length c \<le> 16000) \<and>
     tm_classification m \<in> {''public'', ''internal'', ''confidential'', ''restricted''} \<and>
     tm_trust_label m \<in> {''trusted'', ''untrusted'', ''quarantined''} \<and> hex_digest (tm_source_digest m) \<and>
     tm_clearance_decision m \<in> {''allowed'', ''redacted'', ''denied''} \<and>
     (case tm_compacts_from_sequence m of None \<Rightarrow> True | Some i \<Rightarrow> 0 < i) \<and>
     (case tm_compacts_to_sequence m of None \<Rightarrow> True | Some i \<Rightarrow> 0 < i) \<and> tm_idempotency_key m \<noteq> []"

definition validate_content_and_interval :: "transcript_message \<Rightarrow> transcript_message result" where
  "validate_content_and_interval m =
     (if (tm_safe_content m = None) = (tm_artifact_reference m = None)
      then Inl (ValueError ''exactly one safe content or artifact reference is required'')
      else if (tm_compacts_from_sequence m = None) \<noteq> (tm_compacts_to_sequence m = None)
      then Inl (ValueError ''compaction interval requires both bounds'')
      else if tm_compacts_from_sequence m \<noteq> None \<and> tm_compacts_to_sequence m \<noteq> None \<and>
        the (tm_compacts_from_sequence m) > the (tm_compacts_to_sequence m)
      then Inl (ValueError ''compaction interval is reversed'')
      else if tm_message_type m = ''summary'' \<and> tm_compacts_from_sequence m = None
      then Inl (ValueError ''summary requires a compaction interval'')
      else Inr m)"

definition new_message :: "transcript_message \<Rightarrow> transcript_message result" where
  "new_message m = (if fields_ok m then validate_content_and_interval m else Inl (ValueError ''TranscriptMessage''))"

section \<open>In memory\<close>

record mem_transcripts =
  mt_messages :: "string \<times> string \<rightharpoonup> transcript_message list"
  mt_idempotency :: "string \<times> string \<times> string \<rightharpoonup> transcript_message"

definition mem_append :: "transcript_message \<Rightarrow> mem_transcripts \<Rightarrow> transcript_message \<times> mem_transcripts" where
  "mem_append m st =
     (let command = (tm_tenant_id m, tm_session_id m, tm_idempotency_key m) in
      case mt_idempotency st command of
        Some prior \<Rightarrow> (prior, st)
      | None \<Rightarrow>
          let messages = (case mt_messages st (tm_key m) of None \<Rightarrow> [] | Some ms \<Rightarrow> ms);
              stored = m\<lparr>tm_sequence := int (length messages) + 1\<rparr>
          in (stored, \<lparr>mt_messages = (mt_messages st)(tm_key m \<mapsto> messages @ [stored]),
                mt_idempotency = (mt_idempotency st)(command \<mapsto> stored)\<rparr>))"

definition bounded_limit :: "int \<Rightarrow> nat" where
  "bounded_limit limit = nat (max 1 (min limit 500))"

definition mem_page :: "string \<Rightarrow> string \<Rightarrow> int \<Rightarrow> int \<Rightarrow> mem_transcripts \<Rightarrow> transcript_message list" where
  "mem_page t s after limit st = take (bounded_limit limit) (filter (\<lambda>m. tm_sequence m > after)
     (case mt_messages st (t, s) of None \<Rightarrow> [] | Some ms \<Rightarrow> ms))"

section \<open>PostgreSQL\<close>

text \<open>A row of \<open>context_messages\<close> has the message's fields as its columns.\<close>

record transcript_db =
  td_coord :: coord_db
  td_messages :: "transcript_message list"

definition message_from_row :: "transcript_message \<Rightarrow> transcript_message result" where
  "message_from_row row = new_message row"

definition transcript_event_id :: "(string \<Rightarrow> string \<Rightarrow> string) \<Rightarrow> transcript_message \<Rightarrow> string" where
  "transcript_event_id u m = u ''NAMESPACE_URL'' (''transcript:'' @ tm_tenant_id m @ '':'' @ tm_session_id m @ '':'' @
     tm_idempotency_key m)"

definition jstrs :: "string list \<Rightarrow> json" where
  "jstrs xs = JList (map JStr xs)"

definition jopt :: "('a \<Rightarrow> json) \<Rightarrow> 'a option \<Rightarrow> json" where
  "jopt f x = (case x of None \<Rightarrow> JNull | Some y \<Rightarrow> f y)"

definition message_json :: "transcript_message \<Rightarrow> json" where
  "message_json m = JObj [(''message_id'', JStr (tm_message_id m)), (''tenant_id'', JStr (tm_tenant_id m)),
     (''session_id'', JStr (tm_session_id m)), (''sequence'', JInt (tm_sequence m)),
     (''sender_agent_id'', JStr (tm_sender_agent_id m)), (''recipient_agent_ids'', jstrs (tm_recipient_agent_ids m)),
     (''message_type'', JStr (tm_message_type m)), (''safe_content'', jopt JStr (tm_safe_content m)),
     (''artifact_reference'', jopt JStr (tm_artifact_reference m)), (''classification'', JStr (tm_classification m)),
     (''trust_label'', JStr (tm_trust_label m)), (''provenance_chain'', jstrs (tm_provenance_chain m)),
     (''source_digest'', JStr (tm_source_digest m)), (''clearance_decision'', JStr (tm_clearance_decision m)),
     (''compacts_from_sequence'', jopt JInt (tm_compacts_from_sequence m)),
     (''compacts_to_sequence'', jopt JInt (tm_compacts_to_sequence m)),
     (''idempotency_key'', JStr (tm_idempotency_key m)), (''created_at'', JInt (tm_created_at m))]"

definition message_payload :: "transcript_message \<Rightarrow> event_payload" where
  "message_payload m = JsonPayload (JObj [(''kind'', JStr ''transcript_message''), (''message'', message_json m)])"

definition transcript_event_type :: "transcript_message \<Rightarrow> string" where
  "transcript_event_type m = (if tm_message_type m = ''summary'' then ''transcript.compacted.v1''
     else ''transcript.message_appended.v1'')"

definition message_insert_ok :: "transcript_message \<Rightarrow> transcript_message list \<Rightarrow> bool" where
  "message_insert_ok m rows \<longleftrightarrow> tm_message_id m \<notin> tm_message_id ` set rows \<and>
     (tm_tenant_id m, tm_session_id m, tm_sequence m) \<notin> (\<lambda>r. (tm_tenant_id r, tm_session_id r, tm_sequence r)) ` set rows"

text \<open>
  The number, the event and the outbox row are written as \<open>allocate_event\<close> writes them.
\<close>

definition pg_transcript_append ::
  "bool \<Rightarrow> (string \<Rightarrow> string \<Rightarrow> string) \<Rightarrow> instant \<Rightarrow> transcript_message \<Rightarrow> (transcript_db, transcript_message) op" where
  "pg_transcript_append enforced u now m db =
     (case one_or_none (filter (\<lambda>r. ss_id r = tm_session_id m)
             (rls_rows enforced ss_tenant_id (tm_tenant_id m) (db_sessions (td_coord db)))) of
        Inl e \<Rightarrow> (Inl e, db)
      | Inr None \<Rightarrow> (Inl (KeyError (tm_session_id m)), db)
      | Inr (Some session) \<Rightarrow>
     (case one_or_none (filter (\<lambda>r. tm_session_id r = tm_session_id m \<and> tm_idempotency_key r = tm_idempotency_key m)
             (rls_rows enforced tm_tenant_id (tm_tenant_id m) (td_messages db))) of
        Inl e \<Rightarrow> (Inl e, db)
      | Inr (Some prior) \<Rightarrow> (message_from_row prior, db)
      | Inr None \<Rightarrow>
          let stored = m\<lparr>tm_sequence := ss_next_sequence session, tm_created_at := now\<rparr>
          in if \<not> message_insert_ok stored (td_messages db) then (Inl (IntegrityError ''context_messages''), db)
             else case allocate_event enforced u (tm_tenant_id m) (tm_session_id m) (transcript_event_id u m)
                         (transcript_event_type stored) (tm_idempotency_key m) (tm_classification m)
                         (message_payload stored) now (td_coord db) of
                    (Inl e, _) \<Rightarrow> (Inl e, db)
                  | (Inr _, coord) \<Rightarrow> (Inr stored, \<lparr>td_coord = coord, td_messages = td_messages db @ [stored]\<rparr>)))"

fun collect_results :: "'a result list \<Rightarrow> 'a list result" where
  "collect_results [] = Inr []"
| "collect_results (Inl e # rs) = Inl e"
| "collect_results (Inr x # rs) = map_sum id (Cons x) (collect_results rs)"

definition pg_transcript_page ::
  "bool \<Rightarrow> string \<Rightarrow> string \<Rightarrow> int \<Rightarrow> int \<Rightarrow> transcript_db \<Rightarrow> transcript_message list result" where
  "pg_transcript_page enforced t s after limit db = collect_results (map message_from_row
     (take (bounded_limit limit) (sort_key tm_sequence (filter (\<lambda>r. tm_session_id r = s \<and> tm_sequence r > after)
       (rls_rows enforced tm_tenant_id t (td_messages db))))))"

section \<open>The service\<close>

definition transcript_append ::
  "(string \<Rightarrow> bool) \<Rightarrow> (string \<Rightarrow> string) \<Rightarrow> (string \<Rightarrow> string \<Rightarrow> string) \<Rightarrow> (transcript_message \<Rightarrow> ('s, transcript_message) op) \<Rightarrow>
   instant \<Rightarrow> string \<Rightarrow> string \<Rightarrow> string \<Rightarrow> string \<Rightarrow> string \<Rightarrow> string \<Rightarrow> string \<Rightarrow> string list \<Rightarrow> string list \<Rightarrow> bool \<Rightarrow>
   (int \<times> int) option \<Rightarrow> ('s, transcript_message) op" where
  "transcript_append check_goal sha256 u add now t s sender message_type content cls key recipients provenance clearance_allowed
     interval st =
     (let injection = check_goal content
      in case new_message \<lparr>tm_message_id = u ''NAMESPACE_URL'' (t @ '':'' @ s @ '':'' @ key), tm_tenant_id = t, tm_session_id = s,
             tm_sequence = 1, tm_sender_agent_id = sender, tm_recipient_agent_ids = recipients, tm_message_type = message_type,
             tm_safe_content = Some (if clearance_allowed \<and> \<not> injection then content else ''[REDACTED]''),
             tm_artifact_reference = None, tm_classification = cls,
             tm_trust_label = (if injection then ''quarantined'' else ''trusted''), tm_provenance_chain = provenance,
             tm_source_digest = sha256 content, tm_clearance_decision = (if clearance_allowed then ''allowed'' else ''denied''),
             tm_compacts_from_sequence = map_option fst interval, tm_compacts_to_sequence = map_option snd interval,
             tm_idempotency_key = key, tm_created_at = now\<rparr> of
           Inl e \<Rightarrow> (Inl e, st)
         | Inr m \<Rightarrow> add m st)"

section \<open>The projector\<close>

record 'w projector =
  pj_blackboard :: "(string \<Rightarrow> string \<Rightarrow> json \<Rightarrow> ('w, unit) op) option"
  pj_bus :: "(string \<Rightarrow> string \<Rightarrow> json \<Rightarrow> ('w, unit) op) option"

type_synonym cursors = "string \<times> string \<rightharpoonup> int"

definition projection_payload :: "transcript_message \<Rightarrow> json" where
  "projection_payload m = JObj [(''message_id'', JStr (tm_message_id m)), (''sequence'', JInt (tm_sequence m)),
     (''message_type'', JStr (tm_message_type m)), (''safe_content'', jopt JStr (tm_safe_content m)),
     (''artifact_reference'', jopt JStr (tm_artifact_reference m)), (''classification'', JStr (tm_classification m)),
     (''trust_label'', JStr (tm_trust_label m)), (''provenance_chain'', jstrs (tm_provenance_chain m))]"

definition invoke :: "bool \<Rightarrow> (string \<Rightarrow> string \<Rightarrow> json \<Rightarrow> ('w, unit) op) option \<Rightarrow> transcript_message \<Rightarrow> ('w, unit) op" where
  "invoke wanted callback m w = (case callback of Some f \<Rightarrow>
       if wanted then f (tm_tenant_id m) (tm_session_id m) (projection_payload m) w else (Inr (), w)
     | None \<Rightarrow> (Inr (), w))"

definition project_message :: "'w projector \<Rightarrow> transcript_message \<Rightarrow> (cursors \<times> 'w, bool) op" where
  "project_message pj m st =
     (let current = (case fst st (tm_key m) of None \<Rightarrow> 0 | Some c \<Rightarrow> c) in
      if tm_sequence m \<le> current then (Inr False, st)
      else if tm_sequence m \<noteq> current + 1
      then (Inl (ValueError (''projection sequence gap: expected '' @ str_int (current + 1) @ '', found '' @ str_int (tm_sequence m))), st)
      else case invoke (tm_message_type m \<in> {''decision'', ''evidence'', ''summary''}) (pj_blackboard pj) m (snd st) of
             (Inl e, w) \<Rightarrow> (Inl e, (fst st, w))
           | (Inr _, w) \<Rightarrow>
          (case invoke True (pj_bus pj) m w of
             (Inl e, w') \<Rightarrow> (Inl e, (fst st, w'))
           | (Inr _, w') \<Rightarrow> (Inr True, ((fst st)(tm_key m \<mapsto> tm_sequence m), w'))))"

end
