(* ===== verification/Coord_System.thy ===== *)
theory Coord_System
  imports Session_Cancel Transcript Outbox_Delivery
begin

text \<open>
  The coordination runtime as one system over its tables: the session store, the handoff repository,
  the transcript, the lease repository, the cancellation repository and the outbox dispatcher take turns, each
  method one transaction, on connections with row-level security in force.  Executions, checkpoints
  and work items are also written by parts of the program outside the model: the step
  \<open>environment\<close> changes them at will.
\<close>

section \<open>Steps\<close>

definition with_coord :: "cancel_db \<Rightarrow> coord_db \<Rightarrow> cancel_db" where
  "with_coord db coord = db\<lparr>ca_handoffs := (ca_handoffs db)\<lparr>hd_coord := coord\<rparr>\<rparr>"

inductive sys_step :: "(string \<Rightarrow> string \<Rightarrow> string) \<Rightarrow> 'w transport option \<Rightarrow> cancel_db \<Rightarrow> cancel_db \<Rightarrow> bool"
  for u pub where
  store: "sys_step u pub db (with_coord db (snd (pg_step True u c (ca_coord db))))"
| handoff: "sys_step u pub db (db\<lparr>ca_handoffs := snd (pg_handoff_step True u c (ca_handoffs db))\<rparr>)"
| transcript: "sys_step u pub db (with_coord db (td_coord (snd
    (pg_transcript_append True u now m \<lparr>td_coord = ca_coord db, td_messages = messages\<rparr>))))"
| lease: "sys_step u pub db (db\<lparr>ca_leases := snd (lease_step (pg_acquire True) (pg_mutate True) c (ca_leases db))\<rparr>)"
| cancel: "sys_step u pub db (snd (pg_cancel True u now out t s reason db))"
| resume: "sys_step u pub db (snd (pg_resume True now i t s adapter schema db))"
| dispatch: "sys_step u pub db (with_coord db (fst (snd
    (dispatch_once True dead ttl locked pub m now clk owner batch n (ca_coord db, w)))))"
| environment: "distinct (map wi_id works) \<Longrightarrow> sys_step u pub db (db\<lparr>ca_executions := xs, ca_checkpoints := cs,
    ca_leases := (ca_leases db)\<lparr>pg_work_items := works\<rparr>\<rparr>)"

definition sys_inv :: "cancel_db \<Rightarrow> bool" where
  "sys_inv db \<longleftrightarrow> log_inv (ca_coord db) \<and> pg_invar (ca_leases db)"

text \<open>Later: events are only appended, sessions stay, and no fencing token goes back.\<close>

definition log_later :: "coord_db \<Rightarrow> coord_db \<Rightarrow> bool" where
  "log_later a b \<longleftrightarrow> (\<exists>es. db_events b = db_events a @ es) \<and>
     session_key ` set (db_sessions a) \<subseteq> session_key ` set (db_sessions b)"

definition sys_later :: "cancel_db \<Rightarrow> cancel_db \<Rightarrow> bool" where
  "sys_later a b \<longleftrightarrow> log_later (ca_coord a) (ca_coord b) \<and> pg_repo.tokens_grow (ca_leases a) (ca_leases b)"

lemma log_later_refl [simp]: "log_later a a"
  by (simp add: log_later_def)

lemma log_later_trans: "log_later a b \<Longrightarrow> log_later b c \<Longrightarrow> log_later a c"
  by (fastforce simp: log_later_def)

lemma event_at_later:
  assumes "log_later a b" "event_at a t i = Some e"
  shows "event_at b t i = Some e"
  using assms by (auto simp: log_later_def event_at_def find_append)

lemma sys_later_refl: "sys_later a a"
  by (simp add: sys_later_def pg_repo.tokens_grow_refl)

lemma sys_later_trans: "sys_later a b \<Longrightarrow> sys_later b c \<Longrightarrow> sys_later a c"
  by (auto simp: sys_later_def intro: log_later_trans pg_repo.tokens_grow_trans)

lemma with_coord_simps [simp]:
  "ca_coord (with_coord db c) = c" "ca_leases (with_coord db c) = ca_leases db"
  by (simp_all add: with_coord_def)

section \<open>Each step keeps the log\<close>

lemma log_later_update:
  assumes "\<And>r. session_key (f r) = session_key r"
    and "db_sessions b = update_where P f (db_sessions a)" "db_events b = db_events a @ es"
  shows "log_later a b"
  using assms by (simp add: log_later_def image_update_where)

lemma log_later_transition:
  assumes "log_inv db"
  shows "log_later db (snd (pg_transition_session True u t s v target k now rid db))"
proof (rule pg_transition_cases [OF log_inv_ids [OF assms], where u = u and t = t and s = s and k = k and v = v
      and target = target and now = now and rid = rid and enforced = True], goal_cases)
  case (3 row)
  show ?case
    unfolding 3(6) snd_conv
    by (rule log_later_update [where f = "\<lambda>r. r\<lparr>ss_state := target, ss_next_sequence := ss_next_sequence row + 1,
          ss_version := ss_version row + 1, ss_updated_at := now\<rparr>"]) (simp_all add: appended_def Let_def session_key_def)
qed simp_all

lemma log_later_create: "log_later db (snd (pg_create_session True t civ goal pol bud sid fr now db))"
  by (auto simp: log_later_def pg_create_session_def Let_def)

lemma log_later_store: "log_inv db \<Longrightarrow> log_later db (snd (pg_step True u c db))"
  by (cases c) (simp_all add: log_later_create log_later_transition)

lemma log_later_allocate:
  assumes "log_inv db" "allocate_event True u t s i ty k cls p now db = (Inr n, db')"
  shows "log_later db db'"
  using allocate_event_Inr [OF assms] by (simp add: log_later_def)

lemma handoff_step_log:
  assumes "log_inv (hd_coord db)"
  shows "log_inv (hd_coord (snd (pg_handoff_step True u c db))) \<and> log_later (hd_coord db) (hd_coord (snd (pg_handoff_step True u c db)))"
proof -
  let ?ok = "\<lambda>db'. log_inv (hd_coord db') \<and> log_later (hd_coord db) (hd_coord db')"
  have al: "log_inv coord \<and> log_later (hd_coord db) coord"
    if "allocate_event True u t s i ty k cls p now (hd_coord db) = (Inr n, coord)" for t s i ty k cls p now n coord
    using that allocate_event_Inr(1) [OF assms that] log_later_allocate [OF assms that] by simp
  have "?ok (snd (pg_handoff_create True u r db))" for r
    using assms by (auto simp: pg_handoff_create_def dest: al split: sum.splits option.splits prod.splits)
  moreover have "?ok (snd (pg_handoff_transition True u now t h target v k ref db))" for now t h target v k ref
    using assms by (auto simp: pg_handoff_transition_def Let_def dest: al
        split: sum.splits option.splits prod.splits event_payload.splits if_splits)
  ultimately show ?thesis using assms by (cases c) simp_all
qed

lemma transcript_append_cases:
  assumes "log_inv (td_coord db)"
  obtains (unchanged) r where "pg_transcript_append True u now m db = (r, db)"
  | (appended) row n coord where "session_at (td_coord db) (tm_key m) = Some row"
      "message_insert_ok (m\<lparr>tm_sequence := ss_next_sequence row, tm_created_at := now\<rparr>) (td_messages db)"
      "allocate_event True u (tm_tenant_id m) (tm_session_id m) (transcript_event_id u m)
         (transcript_event_type (m\<lparr>tm_sequence := ss_next_sequence row, tm_created_at := now\<rparr>)) (tm_idempotency_key m) (tm_classification m)
         (message_payload (m\<lparr>tm_sequence := ss_next_sequence row, tm_created_at := now\<rparr>)) now (td_coord db) = (Inr n, coord)"
      "filter (\<lambda>r. tm_session_id r = tm_session_id m \<and> tm_idempotency_key r = tm_idempotency_key m)
         (rls_rows True tm_tenant_id (tm_tenant_id m) (td_messages db)) = []"
      "pg_transcript_append True u now m db = (Inr (m\<lparr>tm_sequence := ss_next_sequence row, tm_created_at := now\<rparr>),
         \<lparr>td_coord = coord, td_messages = td_messages db @ [m\<lparr>tm_sequence := ss_next_sequence row, tm_created_at := now\<rparr>]\<rparr>)"
proof (cases "snd (pg_transcript_append True u now m db) = db")
  case True
  then show thesis using unchanged by (metis prod.collapse)
next
  case False
  note q = enforced_session_query [OF assms, of "tm_session_id m" "tm_tenant_id m"]
  obtain row where row: "session_at (td_coord db) (tm_key m) = Some row"
    using False q unfolding pg_transcript_append_def tm_key_def by (cases "session_at (td_coord db) (tm_tenant_id m, tm_session_id m)") auto
  with False q show thesis
    using appended [of row] unfolding pg_transcript_append_def tm_key_def
    by (auto simp: Let_def one_or_none_None simp del: rls_rows_simps split: sum.splits option.splits if_splits prod.splits)
qed

lemma transcript_log:
  assumes "log_inv (td_coord db)"
  shows "log_inv (td_coord (snd (pg_transcript_append True u now m db))) \<and>
    log_later (td_coord db) (td_coord (snd (pg_transcript_append True u now m db)))"
  by (rule transcript_append_cases [OF assms, of u now m])
    (use assms allocate_event_Inr(1) [OF assms] log_later_allocate [OF assms] in auto)

lemma dispatch_log:
  fixes db dead ttl locked pub m now clk owner batch n w
  assumes "log_inv db"
  defines "db' \<equiv> fst (snd (dispatch_once True dead ttl locked pub m now clk owner batch n (db, w)))"
  shows "log_inv db' \<and> log_later db db'"
proof -
  have "same_log db db'"
    unfolding db'_def by (rule dispatch_once_keeps [OF pg_repo_keeps_log]) (simp add: same_log_def)
  then show ?thesis
    using assms(1) unfolding same_log_def log_inv_def log_later_def distinct_ids_def numbered_def [abs_def] session_events_def
    by simp
qed

section \<open>Cancelling and resuming\<close>

lemma session_rows_at: "log_inv db \<Longrightarrow> one_or_none (session_rows True t s db) = Inr (session_at db (t, s))"
  unfolding session_rows_def by (rule enforced_session_query)

lemma one_or_none_map: "one_or_none (map f xs) = map_sum id (map_option f) (one_or_none xs)"
  by (cases xs rule: one_or_none.cases) simp_all

lemma event_payload_at:
  assumes "log_inv db"
  shows "one_or_none (map ev_payload (filter (\<lambda>e. ev_id e = i) (rls_rows True ev_tenant_id t (db_events db))))
    = Inr (map_option ev_payload (event_at db t i))"
proof -
  have "filter (\<lambda>e. ev_id e = i) (rls_rows True ev_tenant_id t (db_events db))
      = filter (\<lambda>e. ev_id e = i \<and> ev_tenant_id e = t) (rls_rows True ev_tenant_id t (db_events db))"
    by (auto simp: rls_rows_def intro: filter_cong)
  then show ?thesis
    using event_query [of db i t True] log_inv_ids [OF assms] by (simp add: one_or_none_map distinct_ids_def)
qed

lemma pg_cancel_eq:
  assumes "log_inv (ca_coord db)"
  shows "pg_cancel True u now out t s reason db =
    (case session_at (ca_coord db) (t, s) of
       None \<Rightarrow> (Inl (KeyError s), db)
     | Some session \<Rightarrow>
         if ss_state session = ''cancelled''
         then (case event_at (ca_coord db) t (cancel_event_id u t s) of
                 None \<Rightarrow> (Inl (RuntimeError s), db)
               | Some e \<Rightarrow> (map_sum id (\<lambda>r. (r, False)) (persisted_result t s (ev_payload e)), db))
         else if ss_state session \<in> {''completed'', ''failed''}
         then (Inl (ResumeRejectedError ''terminal session cannot cancel'' (ss_state session)), db)
         else
           let res = cancel_outcome True t s reason db
           in if \<not> event_insert_ok (cancel_event u now session res) (db_events (ca_coord db))
              then (Inl (IntegrityError ''coordination_events''), db)
              else if \<not> outbox_insert_ok (cancel_outbox u now out session res) (db_outbox (ca_coord db))
              then (Inl (IntegrityError ''coordination_outbox''), db)
              else (Inr (res, True), cancelled_db True u now out session res db))"
  unfolding pg_cancel_def session_rows_at [OF assms] event_payload_at [OF assms]
  by (simp split: option.split)

lemma pg_cancel_cases:
  assumes "log_inv (ca_coord db)"
  obtains (unchanged) r where "pg_cancel True u now out t s reason db = (r, db)" "\<And>res. r \<noteq> Inr (res, True)"
  | (cancelled) row res where "session_at (ca_coord db) (t, s) = Some row" "ss_state row \<notin> {''cancelled'', ''completed'', ''failed''}"
      "res = cancel_outcome True t s reason db"
      "event_insert_ok (cancel_event u now row res) (db_events (ca_coord db))"
      "outbox_insert_ok (cancel_outbox u now out row res) (db_outbox (ca_coord db))"
      "pg_cancel True u now out t s reason db = (Inr (res, True), cancelled_db True u now out row res db)"
proof -
  have not_new: "map_sum id (\<lambda>r. (r, False)) x \<noteq> Inr (res, True)" for x :: "cancellation_result result" and res
    by (cases x) simp_all
  show thesis
  proof (cases "\<exists>res. fst (pg_cancel True u now out t s reason db) = Inr (res, True)")
    case True
    then show ?thesis
      by (elim exE, cases "session_at (ca_coord db) (t, s)")
        (auto simp: pg_cancel_eq [OF assms] not_new Let_def split: option.splits if_splits intro: cancelled)
  next
    case False
    then have "snd (pg_cancel True u now out t s reason db) = db"
      by (auto simp: pg_cancel_eq [OF assms] Let_def split: option.splits if_splits)
    then show ?thesis
      using False by (intro unchanged [of "fst (pg_cancel True u now out t s reason db)"]) (auto simp: prod_eq_iff)
  qed
qed

lemma key_select:
  assumes "log_inv db" "session_at db (t, s) = Some row" "r \<in> set (db_sessions db)"
  shows "ss_id r = s \<and> (True \<longrightarrow> ss_tenant_id r = t) \<longleftrightarrow> r = row"
  using session_at_Some [OF assms(2)] log_inv_ids [OF assms(1)] assms(3)
  by (auto simp: distinct_ids_def distinct_map inj_on_def session_key_def)

lemma cancel_result_simps [simp]:
  "cn_tenant_id (cancel_outcome b t s reason db) = t" "cn_session_id (cancel_outcome b t s reason db) = s"
  "cn_reason (cancel_outcome b t s reason db) = reason"
  "cn_invalidated_work_items (cancel_outcome b t s reason db) = map cr_work_item_id (active_claims b t s (ca_leases db))"
  by (simp_all add: cancel_outcome_def)

lemma cancelled_log:
  assumes inv: "log_inv (ca_coord db)" and row: "session_at (ca_coord db) (t, s) = Some row"
    and res: "cn_tenant_id res = t" "cn_session_id res = s"
    and ok: "event_insert_ok (cancel_event u now row res) (db_events (ca_coord db))"
      "outbox_insert_ok (cancel_outbox u now out row res) (db_outbox (ca_coord db))"
  shows "log_inv (ca_coord (cancelled_db True u now out row res db))"
    and "log_later (ca_coord db) (ca_coord (cancelled_db True u now out row res db))"
proof -
  let ?P = "\<lambda>r. ss_id r = s \<and> (True \<longrightarrow> ss_tenant_id r = t)"
  let ?f = "cancelled_session row (cn_reason res) now"
  let ?e = "cancel_event u now row res" and ?o = "cancel_outbox u now out row res"
  have eq: "ca_coord (cancelled_db True u now out row res db) = log_append ?P ?f ?e ?o (ca_coord db)"
    by (simp add: cancelled_db_def log_append_def Let_def res)
  have "numbers_next (ca_coord db) row ?P ?f ?e ?o"
    using session_at_Some [OF row] key_select [OF inv row] ok
    by (auto simp: numbers_next_def cancel_event_def cancel_outbox_def allocated_event_def allocated_outbox_def
        cancelled_session_def session_key_def event_key_def Let_def res)
  then show "log_inv (ca_coord (cancelled_db True u now out row res db))"
    unfolding eq by (rule log_inv_append [OF inv])
  show "log_later (ca_coord db) (ca_coord (cancelled_db True u now out row res db))"
    unfolding eq
    by (rule log_later_update [where f = ?f and P = ?P]) (simp_all add: log_append_def cancelled_session_def session_key_def)
qed

section \<open>Fencing\<close>

lemma active_claims_set:
  "set (active_claims True t s db) = {c \<in> set (pg_claims db). cr_tenant_id c = t \<and> cr_state c = ''active'' \<and>
     (\<exists>w \<in> set (pg_work_items db). wi_tenant_id w = t \<and> wi_id w = cr_work_item_id c \<and> wi_session_id w = s)}"
proof -
  have "c \<in> (\<lambda>_. d) ` A \<longleftrightarrow> c = d \<and> A \<noteq> {}" for c d :: claim_row and A :: "work_item_row set" by auto
  then show ?thesis by (auto simp: active_claims_def) metis
qed

definition fenced :: "claim_row \<Rightarrow> claim_row" where
  "fenced r = r\<lparr>cr_state := ''released'', cr_fencing_token := cr_fencing_token r + 1\<rparr>"

text \<open>The updates one by one, by the id of each claim, fence the claims that were selected.\<close>

lemma fence_all:
  assumes "set cs \<subseteq> set rows" "distinct (map cr_id rows)" "\<forall>c \<in> set cs. cr_tenant_id c = t"
  shows "fold (fence_claim True t) cs rows = update_where (\<lambda>r. r \<in> set cs) fenced rows"
proof -
  have fold: "fold (fence_claim True t) cs xs = map (\<lambda>r. if cr_tenant_id r = t
      then (case find (\<lambda>c. cr_id c = cr_id r) (rev cs) of Some c \<Rightarrow> r\<lparr>cr_state := ''released'', cr_fencing_token := cr_fencing_token c + 1\<rparr>
            | None \<Rightarrow> r) else r) xs" for xs
  proof (induction cs arbitrary: xs)
    case (Cons c cs)
    show ?case
      unfolding fold.simps comp_apply Cons.IH
      by (auto simp: fence_claim_def update_where_def find_append split: option.split)
  qed (auto intro!: map_idI [symmetric])
  have id: "c = r" if "c \<in> set cs" "r \<in> set rows" "cr_id c = cr_id r" for c r
    using assms(1,2) that by (auto simp: distinct_map inj_on_def)
  have "(case find (\<lambda>c. cr_id c = cr_id r) (rev cs) of Some c \<Rightarrow> r\<lparr>cr_state := ''released'', cr_fencing_token := cr_fencing_token c + 1\<rparr>
       | None \<Rightarrow> r) = (if r \<in> set cs then fenced r else r)" if "r \<in> set rows" for r
  proof (cases "find (\<lambda>c. cr_id c = cr_id r) (rev cs)")
    case None
    then have "r \<notin> set cs" by (auto simp: find_None_iff)
    then show ?thesis using None by simp
  next
    case (Some c)
    then have "c \<in> set cs" "cr_id c = cr_id r" using find_key_Some [of cr_id] by (metis set_rev)+
    then show ?thesis using id [OF _ that] Some by (auto simp: fenced_def)
  qed
  then show ?thesis using assms(3) by (auto simp: fold update_where_def)
qed

lemma cancel_leases_facts:
  fixes db t s k
  assumes "pg_invar db"
  defines "db' \<equiv> cancel_leases True t (active_claims True t s db) db"
  shows "pg_invar db'"
    and "pg_row db' k = map_option (\<lambda>r. if r \<in> set (active_claims True t s db) then fenced r else r) (pg_row db k)"
proof -
  have "fold (fence_claim True t) (active_claims True t s db) (pg_claims db)
      = update_where (\<lambda>r. r \<in> set (active_claims True t s db)) fenced (pg_claims db)"
    using assms(1) by (intro fence_all) (auto simp: active_claims_set pg_invar_def)
  then have cl: "pg_claims db' = update_where (\<lambda>r. r \<in> set (active_claims True t s db)) fenced (pg_claims db)"
    by (simp add: db'_def cancel_leases_def Let_def)
  have keep: "cr_id (fenced r) = cr_id r" "pg_key (fenced r) = pg_key r" for r by (simp_all add: fenced_def pg_key_def)
  have "map wi_id (pg_work_items db') = map wi_id (pg_work_items db)"
    by (simp add: db'_def cancel_leases_def Let_def map_update_where)
  then show "pg_invar db'" using assms(1) by (simp add: pg_invar_def cl map_update_where keep)
  show "pg_row db' k = map_option (\<lambda>r. if r \<in> set (active_claims True t s db) then fenced r else r) (pg_row db k)"
    unfolding pg_row_def cl by (rule find_update_where) (rule keep)
qed

lemma cancel_leases_grow:
  assumes "pg_invar db"
  shows "pg_repo.tokens_grow db (cancel_leases True t (active_claims True t s db) db)"
proof -
  let ?db = "cancel_leases True t (active_claims True t s db) db"
  have "\<exists>c'. pg_current ?db k = Some c' \<and> lc_fencing_token c \<le> lc_fencing_token c'" if cur: "pg_current db k = Some c" for k c
  proof -
    obtain z where z: "pg_row db k = Some z" "c = claim_of_row z" using cur by (auto simp: pg_current_def)
    then show ?thesis
      by (cases "z \<in> set (active_claims True t s db)")
        (simp_all add: pg_current_def cancel_leases_facts(2) [OF assms] claim_of_row_def fenced_def)
  qed
  then show ?thesis by (simp add: pg_repo.tokens_grow_def)
qed

lemma tokens_grow_work_items: "pg_repo.tokens_grow db (db\<lparr>pg_work_items := works\<rparr>)"
  by (auto simp: pg_repo.tokens_grow_def pg_current_def pg_row_def)

section \<open>Every step\<close>

lemma pg_resume_cases:
  assumes "log_inv (ca_coord db)"
  obtains (refused) e where "pg_resume True now i t s adapter schema db = (Inl e, db)"
  | (resumed) row c x rest where "session_at (ca_coord db) (t, s) = Some row" "ss_state row = ''cancelled''"
      "latest_checkpoint True t s db = (c, x) # rest" "ex_adapter_version x = adapter" "ex_state_schema_version x = schema"
      "i \<notin> ex_id ` set (ca_executions db)"
      "pg_resume True now i t s adapter schema db =
        (Inr \<lparr>rs_tenant_id = t, rs_session_id = s, rs_checkpoint_reference = ck_state_reference c, rs_attempt = ex_attempt x + 1\<rparr>,
         db\<lparr>ca_executions := ca_executions db @ [resumed_execution i t s adapter schema c x],
            ca_handoffs := (ca_handoffs db)\<lparr>hd_coord := (ca_coord db)\<lparr>
              db_sessions := update_where (\<lambda>r. ss_id r = s \<and> (True \<longrightarrow> ss_tenant_id r = t))
                (resumed_session now row) (db_sessions (ca_coord db))\<rparr>\<rparr>\<rparr>)"
proof (cases "\<exists>e. pg_resume True now i t s adapter schema db = (Inl e, db)")
  case True
  then show thesis using refused by blast
next
  case False
  then obtain row where row: "session_at (ca_coord db) (t, s) = Some row" "ss_state row = ''cancelled''"
    unfolding pg_resume_def session_rows_at [OF assms] by (auto split: option.splits if_splits)
  with False obtain c x rest where "latest_checkpoint True t s db = (c, x) # rest"
    unfolding pg_resume_def session_rows_at [OF assms] by (auto split: list.splits)
  with row False show thesis
    unfolding pg_resume_def session_rows_at [OF assms]
    by (intro resumed [of row c x rest]) (auto simp: pg_resume_def session_rows_at [OF assms] split: if_splits)
qed

lemma resume_step:
  assumes "sys_inv db"
  shows "sys_inv (snd (pg_resume True now i t s adapter schema db)) \<and> sys_later db (snd (pg_resume True now i t s adapter schema db))"
proof (cases "snd (pg_resume True now i t s adapter schema db) = db")
  case False
  let ?P = "\<lambda>r. ss_id r = s \<and> (True \<longrightarrow> ss_tenant_id r = t)"
  obtain row where eq: "ca_coord (snd (pg_resume True now i t s adapter schema db))
        = (ca_coord db)\<lparr>db_sessions := update_where ?P (resumed_session now row) (db_sessions (ca_coord db))\<rparr>"
      "ca_leases (snd (pg_resume True now i t s adapter schema db)) = ca_leases db"
    using False assms
    by (auto simp: sys_inv_def intro: pg_resume_cases [of db now i t s adapter schema])
  have log: "log_inv (ca_coord db)" using assms by (simp add: sys_inv_def)
  have keys: "session_key (resumed_session now row r) = session_key r" "ss_id (resumed_session now row r) = ss_id r"
      "ss_next_sequence (resumed_session now row r) = ss_next_sequence r" for r
    by (simp_all add: resumed_session_def session_key_def)
  let ?db = "(ca_coord db)\<lparr>db_sessions := update_where ?P (resumed_session now row) (db_sessions (ca_coord db))\<rparr>"
  have "numbered ?db (resumed_session now row r) = numbered (ca_coord db) r" "numbered ?db r = numbered (ca_coord db) r" for r
    by (simp_all add: numbered_def session_events_def keys)
  moreover have "session_key ` set (db_sessions ?db) = session_key ` set (db_sessions (ca_coord db))"
      "map ss_id (db_sessions ?db) = map ss_id (db_sessions (ca_coord db))"
    by (simp_all add: image_update_where map_update_where keys)
  ultimately have "log_inv ?db"
    using log unfolding log_inv_def distinct_ids_def list_all_iff by (auto simp: set_update_where)
  moreover have "log_later (ca_coord db) ?db"
    by (rule log_later_update [where f = "resumed_session now row" and P = ?P]) (simp_all add: keys)
  ultimately show ?thesis
    using assms by (simp add: sys_inv_def sys_later_def eq pg_repo.tokens_grow_refl)
qed (use assms in \<open>simp add: sys_later_refl\<close>)

lemma cancel_step:
  assumes "sys_inv db"
  shows "sys_inv (snd (pg_cancel True u now out t s reason db)) \<and> sys_later db (snd (pg_cancel True u now out t s reason db))"
proof -
  have inv: "log_inv (ca_coord db)" "pg_invar (ca_leases db)" using assms by (simp_all add: sys_inv_def)
  show ?thesis
  proof (rule pg_cancel_cases [OF inv(1), of u now out t s reason], goal_cases)
    case (1 r)
    then show ?case using assms by (simp add: sys_later_refl)
  next
    case (2 row res)
    note log = cancelled_log [where t = t and s = s, OF inv(1) 2(1) _ _ 2(4,5)]
    have "ca_leases (cancelled_db True u now out row res db)
        = cancel_leases True t (active_claims True t s (ca_leases db)) (ca_leases db)"
      by (simp add: cancelled_db_def Let_def 2(3))
    then show ?case
      using log cancel_leases_facts(1) [OF inv(2)] cancel_leases_grow [OF inv(2)]
      by (simp add: 2(3,6) sys_inv_def sys_later_def)
  qed
qed

lemma sys_step_later:
  assumes "sys_step u pub db db'" "sys_inv db"
  shows "sys_inv db' \<and> sys_later db db'"
  using assms
proof (induction rule: sys_step.induct)
  case (store db c)
  then show ?case
    using log_inv_step log_later_store by (simp add: sys_inv_def sys_later_def pg_repo.tokens_grow_refl)
next
  case (handoff db c)
  then show ?case
    using handoff_step_log [of "ca_handoffs db" u c] by (simp add: sys_inv_def sys_later_def pg_repo.tokens_grow_refl)
next
  case (transcript db now m messages)
  then show ?case
    using transcript_log [of "\<lparr>td_coord = ca_coord db, td_messages = messages\<rparr>" u now m]
    by (simp add: sys_inv_def sys_later_def pg_repo.tokens_grow_refl)
next
  case (lease db c)
  then show ?case
    using pg_repo.invar_step pg_repo.tokens_grow_step by (simp add: sys_inv_def sys_later_def)
next
  case (cancel db now out t s reason)
  then show ?case by (rule cancel_step)
next
  case (resume db i t s adapter schema)
  then show ?case by (rule resume_step)
next
  case (dispatch db dead ttl locked m now clk owner batch n w)
  then show ?case
    using dispatch_log [of "ca_coord db"] by (simp add: sys_inv_def sys_later_def pg_repo.tokens_grow_refl)
next
  case (environment works db xs cs)
  then show ?case
    using tokens_grow_work_items by (simp add: sys_inv_def sys_later_def pg_invar_def)
qed

lemma sys_run_later:
  assumes "(sys_step u pub)\<^sup>*\<^sup>* db db'" "sys_inv db"
  shows "sys_inv db' \<and> sys_later db db'"
  using assms
  by (induction rule: rtranclp_induct) (auto simp: sys_later_refl dest: sys_step_later intro: sys_later_trans)

end
