(* ===== verification/Cancel_Safety.thy ===== *)
theory Cancel_Safety
  imports Coord_System
begin

text \<open>
  What cancellation promises: it stops everything of the session that it knows of, the holders of its
  leases stay fenced whatever the system does afterwards, and it is written once.  The coordinator's
  wake-up is lost when it raises.
\<close>

section \<open>The log under all writers\<close>

text \<open>
  C30: whatever the session store, the handoff repository, the transcript, the lease repository, the
  cancellation repository and the dispatcher do in whatever order, the events of every session carry the numbers 1,
  2, 3, ... up to the session's next sequence number, every event has its outbox row in the same
  position, and events once written stay.
\<close>

theorem system_log_gap_free:
  assumes "sys_inv db" "(sys_step u pub)\<^sup>*\<^sup>* db db'" "r \<in> set (db_sessions (ca_coord db'))"
  shows "map ev_sequence (session_events (ca_coord db') (session_key r)) = map int [1..<nat (ss_next_sequence r)] \<and>
    map ob_event_id (db_outbox (ca_coord db')) = map ev_id (db_events (ca_coord db')) \<and>
    (\<exists>es. db_events (ca_coord db') = db_events (ca_coord db) @ es)"
  using sys_run_later [OF assms(2,1)] assms(3)
  by (simp add: sys_inv_def sys_later_def log_inv_def log_later_def list_all_iff numbered_def)

definition demo_leases :: pg_leases where
  "demo_leases = \<lparr>pg_work_items = [\<lparr>wi_id = ''w'', wi_tenant_id = ''t'', wi_session_id = ''s'', wi_state = ''running''\<rparr>],
     pg_claims = [\<lparr>cr_id = ''c'', cr_tenant_id = ''t'', cr_work_item_id = ''w'', cr_owner_agent_id = ''a'', cr_lease_id = ''l'',
       cr_fencing_token = 3, cr_heartbeat_at = 0, cr_lease_expires_at = 90, cr_state = ''active'', cr_version = 1\<rparr>]\<rparr>"

definition demo_execution :: execution_row where
  "demo_execution = \<lparr>ex_id = ''x'', ex_tenant_id = ''t'', ex_session_id = ''s'', ex_goal_id = ''g'', ex_adapter_id = ''ad'',
     ex_adapter_version = ''1'', ex_state_schema_version = 1, ex_profile_snapshot = JNull, ex_state = ''running'',
     ex_result = JNull, ex_cost = 0, ex_idempotency_key = ''k'', ex_deadline = None, ex_attempt = 1, ex_prior_execution_id = None\<rparr>"

definition demo_checkpoint :: checkpoint_row where
  "demo_checkpoint = \<lparr>ck_id = ''p'', ck_tenant_id = ''t'', ck_session_id = ''s'', ck_execution_id = ''x'', ck_sequence = 1,
     ck_pattern = ''moa'', ck_state_reference = (''k'', JNull), ck_version = 1\<rparr>"

definition demo_system :: cancel_db where
  "demo_system = \<lparr>ca_handoffs = \<lparr>hd_coord = demo_coord, hd_handoffs = [\<lparr>ho_record = demo_handoff, ho_transition_audit = []\<rparr>]\<rparr>,
     ca_leases = demo_leases, ca_executions = [demo_execution], ca_checkpoints = [demo_checkpoint]\<rparr>"

lemma demo_system_inv: "sys_inv demo_system"
  by (simp add: sys_inv_def demo_system_def demo_coord_log demo_leases_def pg_invar_def)

definition demo_cancelled :: cancel_db where
  "demo_cancelled = snd (pg_cancel True demo_uuid5 50 ''o'' ''t'' ''s'' ''stop'' demo_system)"

definition demo_result :: cancellation_result where
  "demo_result = \<lparr>cn_tenant_id = ''t'', cn_session_id = ''s'', cn_reason = ''stop'', cn_cancelled_children = [''x''],
     cn_invalidated_work_items = [''w'']\<rparr>"

lemma demo_cancel: "pg_cancel True demo_uuid5 50 ''o'' ''t'' ''s'' ''stop'' demo_system = (Inr (demo_result, True), demo_cancelled)"
proof -
  have "fst (pg_cancel True demo_uuid5 50 ''o'' ''t'' ''s'' ''stop'' demo_system) = Inr (demo_result, True)"
    by (simp add: pg_cancel_def demo_system_def demo_coord_def empty_db_def session_rows_def event_insert_ok_def outbox_insert_ok_def
        cancel_outcome_def running_children_def active_claims_def demo_leases_def demo_execution_def demo_result_def running_state_def Let_def)
  then show ?thesis by (simp add: demo_cancelled_def prod_eq_iff)
qed

lemma demo_system_step: "(sys_step demo_uuid5 None)\<^sup>*\<^sup>* demo_system demo_cancelled"
  unfolding demo_cancelled_def by (intro r_into_rtranclp sys_step.cancel)

theorem system_log_gap_free_witness:
  "\<exists>r \<in> set (db_sessions (ca_coord demo_cancelled)).
     map ev_sequence (session_events (ca_coord demo_cancelled) (session_key r)) = map int [1..<nat (ss_next_sequence r)]"
proof -
  have "length (db_sessions (ca_coord demo_cancelled)) = 1"
    using demo_cancel by (auto simp: demo_cancelled_def pg_cancel_def demo_system_def demo_coord_def empty_db_def
        cancelled_db_def Let_def split: if_splits sum.splits option.splits)
  then obtain r where "r \<in> set (db_sessions (ca_coord demo_cancelled))"
    by (cases "db_sessions (ca_coord demo_cancelled)") auto
  with system_log_gap_free [OF demo_system_inv demo_system_step this] show ?thesis by blast
qed

section \<open>What stops\<close>

text \<open>A cancellation that was created, in terms of the row it found.\<close>

lemma cancel_created:
  assumes "sys_inv db" "pg_cancel True u now out t s reason db = (Inr (res, True), db')"
  obtains row where "session_at (ca_coord db) (t, s) = Some row" "ss_state row \<notin> {''cancelled'', ''completed'', ''failed''}"
    "res = cancel_outcome True t s reason db" "db' = cancelled_db True u now out row res db"
    "sys_inv db'" "event_insert_ok (cancel_event u now row res) (db_events (ca_coord db))"
proof -
  have log: "log_inv (ca_coord db)" using assms(1) by (simp add: sys_inv_def)
  have inv: "sys_inv db'" using cancel_step [OF assms(1), of u now out t s reason] assms(2) by simp
  show thesis
  proof (rule pg_cancel_cases [OF log, of u now out t s reason], goal_cases)
    case (1 r)
    then show ?case using 1(2) [of res] assms(2) by simp
  next
    case (2 row res')
    then have "res' = res" "db' = cancelled_db True u now out row res db" using assms(2) by simp_all
    then show ?case using that [of row] 2 inv by simp
  qed
qed

lemma cancelled_session_at:
  assumes "log_inv (ca_coord db)" "session_at (ca_coord db) (t, s) = Some row" "cn_tenant_id res = t" "cn_session_id res = s"
  shows "session_at (ca_coord (cancelled_db True u now out row res db)) (t, s)
    = Some (cancelled_session row (cn_reason res) now row)"
  by (rule session_at_update [where f = "cancelled_session row (cn_reason res) now", OF assms(1,2)])
    (simp_all add: assms(3,4) cancelled_db_def cancelled_session_def session_key_def Let_def)

lemma cancel_executions_stop:
  "\<forall>x \<in> set xs. ex_tenant_id x = t \<and> ex_session_id x = s \<and> running_state (ex_state x) \<longrightarrow> ex_id x \<in> set ids \<Longrightarrow>
   filter (\<lambda>x. ex_session_id x = s \<and> running_state (ex_state x))
     (rls_rows True ex_tenant_id t (cancel_executions True t ids xs)) = []"
  by (induction xs) (auto simp: cancel_executions_def running_state_def)

lemma executions_stopped:
  assumes "ca_executions db' = cancel_executions True t (running_children True t s db) (ca_executions db)"
  shows "running_children True t s db' = []"
  unfolding running_children_def assms map_is_Nil_conv
  by (rule cancel_executions_stop) (auto simp: running_children_def)

lemma claims_stopped:
  assumes "pg_invar db"
  shows "active_claims True t s (cancel_leases True t (active_claims True t s db) db) = []"
proof -
  let ?db = "cancel_leases True t (active_claims True t s db) db"
  have items: "\<exists>w' \<in> set (pg_work_items db). wi_id w' = wi_id w \<and> wi_tenant_id w' = wi_tenant_id w \<and> wi_session_id w' = wi_session_id w"
    if "w \<in> set (pg_work_items ?db)" for w
    using that by (auto simp: cancel_leases_def Let_def set_update_where split: if_splits)
  have claims: "pg_claims ?db = update_where (\<lambda>r. r \<in> set (active_claims True t s db)) fenced (pg_claims db)"
    using assms by (simp add: cancel_leases_def Let_def) (intro fence_all, auto simp: active_claims_set pg_invar_def)
  have "c \<notin> set (active_claims True t s ?db)" for c
  proof
    assume "c \<in> set (active_claims True t s ?db)"
    then obtain w where c: "c \<in> set (pg_claims ?db)" "cr_tenant_id c = t" "cr_state c = ''active''"
      and w: "w \<in> set (pg_work_items ?db)" "wi_tenant_id w = t" "wi_id w = cr_work_item_id c" "wi_session_id w = s"
      unfolding active_claims_set [of t s ?db] by blast
    have "c \<in> set (pg_claims db)" "c \<notin> set (active_claims True t s db)"
      using c(1,3) unfolding claims set_update_where by (auto simp: fenced_def)
    then show False using c items [OF w(1)] w(2-4) unfolding active_claims_set [of t s db] by force
  qed
  then show ?thesis by (metis list.set_intros(1) neq_Nil_conv)
qed

lemma cancel_handoffs_stop:
  "filter (\<lambda>q. ho_tenant q = t \<and> hr_session_id (ho_record q) = s \<and> hr_state (ho_record q) \<in> {''requested'', ''accepted''})
     (cancel_handoffs True t s now qs) = []"
  "filter (\<lambda>q. hr_state (ho_record q) = ''executing'') (cancel_handoffs True t s now qs)
     = filter (\<lambda>q. hr_state (ho_record q) = ''executing'') qs"
  unfolding cancel_handoffs_def
  by (induction qs) auto



section \<open>Fenced for ever\<close>

text \<open>
  C32: cancelling a session fences the holders of its leases for ever.  Every active claim on a work
  item of the session is in the result's invalidated items, and after any later activity of the system
  a heartbeat, completion or release with the holder's token, or an older one, raises
  \<open>StaleFencingTokenError\<close>.
\<close>

theorem cancel_fences_holders:
  assumes "sys_inv db" "pg_cancel True u now out t s reason db = (Inr (res, True), db1)"
    and "w \<in> set (pg_work_items (ca_leases db))" "wi_tenant_id w = t" "wi_session_id w = s"
    and "pg_current (ca_leases db) (t, wi_id w) = Some c" "lc_state c = ''active''"
    and "(sys_step u pub)\<^sup>*\<^sup>* db1 db2" "presents_token cmd t (wi_id w) tok" "tok \<le> lc_fencing_token c"
  shows "wi_id w \<in> set (cn_invalidated_work_items res) \<and>
    fst (lease_step (pg_acquire True) (pg_mutate True) cmd (ca_leases db2)) = Inl (StaleFencingTokenError (wi_id w))"
proof -
  obtain row where row: "res = cancel_outcome True t s reason db" "db1 = cancelled_db True u now out row res db" "sys_inv db1"
    using cancel_created [OF assms(1,2)] .
  have inv: "pg_invar (ca_leases db)" using assms(1) by (simp add: sys_inv_def)
  obtain z where z: "pg_row (ca_leases db) (t, wi_id w) = Some z" "c = claim_of_row z"
    using assms(6) by (auto simp: pg_current_def)
  have mem: "z \<in> set (pg_claims (ca_leases db))" "cr_tenant_id z = t" "cr_work_item_id z = wi_id w"
    using pg_row_mem [OF z(1)] by (auto simp: pg_key_def)
  have act: "z \<in> set (active_claims True t s (ca_leases db))"
    using mem z(2) assms(3,4,5,7) by (force simp: active_claims_set claim_of_row_def)
  have "ca_leases db1 = cancel_leases True t (active_claims True t s (ca_leases db)) (ca_leases db)"
    by (simp add: row(1,2) cancelled_db_def Let_def)
  then have "pg_current (ca_leases db1) (t, wi_id w) = Some (claim_of_row (fenced z))"
    using cancel_leases_facts(2) [OF inv, of t s "(t, wi_id w)"] z(1) act by (simp add: pg_current_def)
  moreover have later: "sys_inv db2" "sys_later db1 db2" using sys_run_later [OF assms(8) row(3)] by simp_all
  ultimately obtain c' where c': "pg_current (ca_leases db2) (t, wi_id w) = Some c'"
      "lc_fencing_token (claim_of_row (fenced z)) \<le> lc_fencing_token c'"
    unfolding sys_later_def pg_repo.tokens_grow_def by blast
  then have "tok < lc_fencing_token c'" using assms(10) z(2) by (simp add: claim_of_row_def fenced_def)
  then have "fst (lease_step (pg_acquire True) (pg_mutate True) cmd (ca_leases db2)) = Inl (StaleFencingTokenError (wi_id w))"
    using pg_repo.stale_step [OF _ c'(1) _ assms(9)] later(1) by (simp add: sys_inv_def)
  moreover have "wi_id w \<in> set (cn_invalidated_work_items res)"
    using act mem(3) by (force simp: row(1))
  ultimately show ?thesis by simp
qed

theorem cancel_fences_holders_witness:
  "fst (lease_step (pg_acquire True) (pg_mutate True) (lease_command.Complete ''t'' ''w'' ''a'' 3 60) (ca_leases demo_cancelled))
     = Inl (StaleFencingTokenError ''w'')"
proof -
  have "pg_current demo_leases (''t'', ''w'') = Some \<lparr>lc_tenant_id = ''t'', lc_work_item_id = ''w'', lc_owner_agent_id = ''a'',
      lc_lease_id = ''l'', lc_fencing_token = 3, lc_heartbeat_at = 0, lc_lease_expires_at = 90, lc_state = ''active''\<rparr>"
    by (simp add: pg_current_def pg_row_def demo_leases_def pg_key_def claim_of_row_def)
  then show ?thesis
    using cancel_fences_holders [OF demo_system_inv demo_cancel, of "hd (pg_work_items demo_leases)" _ None demo_cancelled
        "lease_command.Complete ''t'' ''w'' ''a'' 3 60" 3]
    by (simp add: demo_system_def demo_leases_def)
qed

section \<open>Written once\<close>

lemma session_at_later:
  assumes "log_later a b" "session_at a k = Some r"
  obtains r' where "session_at b k = Some r'"
proof -
  have "k \<in> session_key ` set (db_sessions a)" using session_at_Some [OF assms(2)] by (auto simp: image_iff)
  then have "k \<in> session_key ` set (db_sessions b)" using assms(1) by (auto simp: log_later_def)
  then have "session_at b k \<noteq> None" by (simp add: session_at_def find_key_None)
  then show thesis using that by blast
qed

lemma cancel_event_recorded:
  assumes "cn_tenant_id res = t" "cn_session_id res = s" "sys_inv db'" "db' = cancelled_db b u now out row res db"
    and "event_insert_ok (cancel_event u now row res) (db_events (ca_coord db))"
  shows "event_at (ca_coord db') t (cancel_event_id u t s) = Some (cancel_event u now row res)"
proof -
  let ?e = "cancel_event u now row res"
  have e: "ev_id ?e = cancel_event_id u t s" "ev_tenant_id ?e = t"
    by (simp_all add: cancel_event_def allocated_event_def Let_def assms(1,2))
  have "event_at (ca_coord db) t (cancel_event_id u t s) = None"
  proof (rule ccontr)
    assume "event_at (ca_coord db) t (cancel_event_id u t s) \<noteq> None"
    then obtain e' where "e' \<in> set (db_events (ca_coord db))" "ev_id e' = ev_id ?e"
      using event_at_Some e(1) by fastforce
    then show False using assms(5) unfolding event_insert_ok_def by (metis image_eqI)
  qed
  then show ?thesis using e by (simp add: assms(4) cancelled_db_def Let_def event_at_def find_append)
qed

lemma cancel_replays:
  assumes "log_inv (ca_coord db)" "session_at (ca_coord db) (t, s) = Some row" "ss_state row = ''cancelled''"
    and "event_at (ca_coord db) t (cancel_event_id u t s) = Some (cancel_event u now r res)"
    and ids: "cn_tenant_id res = t" "cn_session_id res = s"
  shows "pg_cancel True u now' out t s reason db = (Inr (res, False), db)"
proof -
  have "persisted_result t s (ev_payload (cancel_event u now r res)) = Inr res"
    by (simp add: persisted_result_def cancel_event_def cancel_payload_def allocated_event_def Let_def flip: ids)
  then show ?thesis using pg_cancel_eq [OF assms(1), of u now' out t s reason] assms(2-4) by simp
qed

text \<open>
  C33: a session is cancelled through the repository at most once.  After a first cancellation, and
  after anything the system does, a further one changes nothing: while the session is cancelled it
  returns the first result, whatever reason it names; when the session has been resumed it fails with
  the primary key of the event, so a resumed session cannot be cancelled again; and a completed or
  failed session is refused.
\<close>

theorem cancel_happens_once:
  assumes "sys_inv db" "pg_cancel True u now out t s reason db = (Inr (res, True), db1)" "(sys_step u pub)\<^sup>*\<^sup>* db1 db2"
  shows "\<exists>row. session_at (ca_coord db2) (t, s) = Some row \<and>
    pg_cancel True u now' out' t s reason' db2 =
      (if ss_state row = ''cancelled'' then Inr (res, False)
       else if ss_state row \<in> {''completed'', ''failed''}
       then Inl (ResumeRejectedError ''terminal session cannot cancel'' (ss_state row))
       else Inl (IntegrityError ''coordination_events''), db2)"
proof -
  obtain row where row: "res = cancel_outcome True t s reason db" "db1 = cancelled_db True u now out row res db" "sys_inv db1"
      "event_insert_ok (cancel_event u now row res) (db_events (ca_coord db))"
      "session_at (ca_coord db) (t, s) = Some row"
    using cancel_created [OF assms(1,2)] .
  have ids: "cn_tenant_id res = t" "cn_session_id res = s" by (simp_all add: row(1))
  have later: "sys_inv db2" "log_later (ca_coord db1) (ca_coord db2)"
    using sys_run_later [OF assms(3) row(3)] by (simp_all add: sys_later_def)
  have ev: "event_at (ca_coord db2) t (cancel_event_id u t s) = Some (cancel_event u now row res)"
    by (rule event_at_later [OF later(2) cancel_event_recorded [OF ids row(3,2,4)]])
  have "log_later (ca_coord db) (ca_coord db1)"
    using cancel_step [OF assms(1), of u now out t s reason] assms(2) by (simp add: sys_later_def)
  then obtain row' where row': "session_at (ca_coord db2) (t, s) = Some row'"
    using session_at_later [OF log_later_trans [OF _ later(2)] row(5)] by blast
  have log: "log_inv (ca_coord db2)" using later(1) by (simp add: sys_inv_def)
  have "\<not> event_insert_ok (cancel_event u now' row' (cancel_outcome True t s reason' db2)) (db_events (ca_coord db2))"
    using event_at_Some [OF ev]
    by (auto simp: event_insert_ok_def cancel_event_def allocated_event_def Let_def ids image_iff intro!: bexI)
  then show ?thesis
    using cancel_replays [OF log row' _ ev ids] pg_cancel_eq [OF log, of u now' out' t s reason'] row' by (auto simp: Let_def)
qed

definition demo_resumed :: cancel_db where
  "demo_resumed = snd (pg_resume True 65 ''y'' ''t'' ''s'' ''1'' 1 demo_cancelled)"

lemmas demo_defs = demo_cancelled_def pg_cancel_def demo_system_def demo_coord_def empty_db_def session_rows_def
  event_insert_ok_def outbox_insert_ok_def cancel_outcome_def running_children_def active_claims_def demo_leases_def
  demo_execution_def demo_checkpoint_def running_state_def cancelled_db_def cancelled_session_def cancel_executions_def Let_def

lemma demo_states:
  "map ss_state (db_sessions (ca_coord demo_cancelled)) = [''cancelled'']"
  "map ss_state (db_sessions (ca_coord demo_resumed)) = [''active'']"
  "fst (pg_resume True 65 ''y'' ''t'' ''s'' ''1'' 1 demo_cancelled)
     = Inr \<lparr>rs_tenant_id = ''t'', rs_session_id = ''s'', rs_checkpoint_reference = (''k'', JNull), rs_attempt = 2\<rparr>"
  by (simp_all add: demo_defs demo_resumed_def pg_resume_def latest_checkpoint_def resumed_session_def)

theorem cancel_happens_once_witness:
  "fst (pg_cancel True demo_uuid5 70 ''o2'' ''t'' ''s'' ''other'' demo_cancelled) = Inr (demo_result, False) \<and>
   fst (pg_cancel True demo_uuid5 70 ''o2'' ''t'' ''s'' ''other'' demo_resumed) = Inl (IntegrityError ''coordination_events'')"
proof -
  have "(sys_step demo_uuid5 None)\<^sup>*\<^sup>* demo_cancelled demo_resumed"
    unfolding demo_resumed_def by (intro r_into_rtranclp sys_step.resume)
  note once = cancel_happens_once [OF demo_system_inv demo_cancel this, of 70 "''o2''" "''other''"]
    cancel_happens_once [OF demo_system_inv demo_cancel rtranclp.rtrancl_refl, of 70 "''o2''" "''other''"]
  have "ss_state r = ''active''" if "session_at (ca_coord demo_resumed) k = Some r" for k r
    using session_at_Some [OF that] demo_states(2) by (auto simp: map_eq_Cons_conv)
  moreover have "ss_state r = ''cancelled''" if "session_at (ca_coord demo_cancelled) k = Some r" for k r
    using session_at_Some [OF that] demo_states(1) by (auto simp: map_eq_Cons_conv)
  ultimately show ?thesis using once by auto
qed

section \<open>Resuming\<close>

lemma latest_checkpoint_hd:
  assumes "latest_checkpoint True t s db = (c, x) # rest"
  shows "c \<in> set (ca_checkpoints db)" "ck_tenant_id c = t" "ck_session_id c = s" "x \<in> set (ca_executions db)"
    "ex_tenant_id x = t" "ex_id x = ck_execution_id c"
    and "c' \<in> set (ca_checkpoints db) \<Longrightarrow> ck_tenant_id c' = t \<Longrightarrow> ck_session_id c' = s \<Longrightarrow>
      \<exists>x' \<in> set (ca_executions db). ex_tenant_id x' = t \<and> ex_id x' = ck_execution_id c' \<Longrightarrow> ck_sequence c' \<le> ck_sequence c"
proof -
  let ?all = "concat (map (\<lambda>c. map (\<lambda>x. (c, x)) (filter (\<lambda>x. ck_execution_id c = ex_id x)
          (rls_rows True ex_tenant_id t (ca_executions db))))
       (filter (\<lambda>c. ck_session_id c = s) (rls_rows True ck_tenant_id t (ca_checkpoints db))))"
  obtain ys where ys: "sort_key (\<lambda>(c, _). - ck_sequence c) ?all = (c, x) # ys"
    using assms unfolding latest_checkpoint_def by (cases "sort_key (\<lambda>(c, _). - ck_sequence c) ?all") auto
  have "(c, x) \<in> set ?all" using arg_cong [OF ys, of set] by auto
  then show "c \<in> set (ca_checkpoints db)" "ck_tenant_id c = t" "ck_session_id c = s" "x \<in> set (ca_executions db)"
    "ex_tenant_id x = t" "ex_id x = ck_execution_id c" by auto
  assume "c' \<in> set (ca_checkpoints db)" "ck_tenant_id c' = t" "ck_session_id c' = s"
    "\<exists>x' \<in> set (ca_executions db). ex_tenant_id x' = t \<and> ex_id x' = ck_execution_id c'"
  then obtain x' where "(c', x') \<in> set ?all" by fastforce
  from sort_key_hd_le [OF ys this] show "ck_sequence c' \<le> ck_sequence c" by simp
qed

text \<open>
  C34: a resumption starts one attempt more from the latest checkpoint.  It succeeds only on a
  cancelled session, with the adapter and the schema version of the execution that wrote the
  checkpoint of the greatest sequence number; it leaves all executions as they were and adds one,
  pending, with that execution as its predecessor and its attempt one higher; and the session is
  active again one version later, with its cancellation cleared.
\<close>

theorem resume_new_attempt:
  assumes "sys_inv db" "pg_resume True now i t s adapter schema db = (Inr res, db')"
  shows "\<exists>row c x new. session_at (ca_coord db) (t, s) = Some row \<and> ss_state row = ''cancelled'' \<and>
    c \<in> set (ca_checkpoints db) \<and> ck_tenant_id c = t \<and> ck_session_id c = s \<and>
    x \<in> set (ca_executions db) \<and> ex_id x = ck_execution_id c \<and> ex_adapter_version x = adapter \<and> ex_state_schema_version x = schema \<and>
    (\<forall>c' x'. c' \<in> set (ca_checkpoints db) \<and> ck_tenant_id c' = t \<and> ck_session_id c' = s \<and> x' \<in> set (ca_executions db) \<and>
       ex_tenant_id x' = t \<and> ex_id x' = ck_execution_id c' \<longrightarrow> ck_sequence c' \<le> ck_sequence c) \<and>
    rs_checkpoint_reference res = ck_state_reference c \<and> rs_attempt res = ex_attempt x + 1 \<and>
    ca_executions db' = ca_executions db @ [new] \<and> ex_id new = i \<and> ex_state new = ''pending'' \<and>
    ex_attempt new = ex_attempt x + 1 \<and> ex_prior_execution_id new = Some (ex_id x) \<and>
    session_at (ca_coord db') (t, s) = Some (row\<lparr>ss_state := ''active'', ss_cancellation_requested_at := None,
      ss_cancellation_reason := None, ss_version := ss_version row + 1, ss_updated_at := now\<rparr>)"
proof -
  have log: "log_inv (ca_coord db)" using assms(1) by (simp add: sys_inv_def)
  show ?thesis
  proof (rule pg_resume_cases [OF log, of now i t s adapter schema], goal_cases)
    case (1 e)
    then show ?case using assms(2) by simp
  next
    case (2 row c x rest)
    note ck = latest_checkpoint_hd [OF 2(3)]
    have "session_at (ca_coord db') (t, s) = Some (resumed_session now row row)"
      by (rule session_at_update [where f = "resumed_session now row", OF log 2(1)])
        (use 2(7) assms(2) in \<open>simp_all add: resumed_session_def session_key_def\<close>)
    then show ?case
      using 2 assms(2) ck
      by (intro exI [of _ row] exI [of _ c] exI [of _ x] exI [of _ "resumed_execution i t s adapter schema c x"])
        (simp add: resumed_execution_def resumed_session_def, blast)
  qed
qed

theorem resume_new_attempt_witness:
  "\<exists>new. ca_executions demo_resumed = ca_executions demo_cancelled @ [new] \<and> ex_id new = ''y'' \<and> ex_state new = ''pending''"
proof -
  have "sys_inv demo_cancelled" using sys_run_later [OF demo_system_step demo_system_inv] by simp
  moreover have "pg_resume True 65 ''y'' ''t'' ''s'' ''1'' 1 demo_cancelled = (Inr \<lparr>rs_tenant_id = ''t'', rs_session_id = ''s'',
      rs_checkpoint_reference = (''k'', JNull), rs_attempt = 2\<rparr>, demo_resumed)"
    using demo_states(3) by (simp add: demo_resumed_def prod_eq_iff)
  ultimately show ?thesis using resume_new_attempt by blast
qed

section \<open>The wake-up\<close>

text \<open>
  A wake-up that raises is lost.  The coordinator persists the cancellation before it wakes the
  participants; when the wake-up raises, the caller gets the exception although the session is
  cancelled, and a repeated call returns the result without waking anyone.
\<close>

theorem failed_wakeup_lost:
  assumes "sys_inv db" "pg_cancel True u now out t s reason db = (Inr (res, True), db1)" "wake s env = (Inl e, env1)"
  shows "coordinator_cancel (pg_cancel True u now out) (Some wake) t s reason (db, env) = (Inl e, (db1, env1)) \<and>
    coordinator_cancel (pg_cancel True u now' out') (Some wake) t s reason' (db1, env1) = (Inr res, (db1, env1))"
proof -
  obtain row where row: "res = cancel_outcome True t s reason db" "db1 = cancelled_db True u now out row res db" "sys_inv db1"
      "event_insert_ok (cancel_event u now row res) (db_events (ca_coord db))"
      "session_at (ca_coord db) (t, s) = Some row"
    using cancel_created [OF assms(1,2)] .
  have ids: "cn_tenant_id res = t" "cn_session_id res = s" by (simp_all add: row(1))
  have log: "log_inv (ca_coord db)" "log_inv (ca_coord db1)" using assms(1) row(3) by (simp_all add: sys_inv_def)
  have "session_at (ca_coord db1) (t, s) = Some (cancelled_session row reason now row)"
    using cancelled_session_at [OF log(1) row(5), of res] row(1,2) by simp
  then have "pg_cancel True u now' out' t s reason' db1 = (Inr (res, False), db1)"
    by (rule cancel_replays [OF log(2) _ _ cancel_event_recorded [OF ids row(3,2,4)] ids]) (simp add: cancelled_session_def)
  then show ?thesis using assms(2,3) by (simp add: coordinator_cancel_def)
qed

end
