(* ===== verification/Handoff_Resumption.thy ===== *)
theory Handoff_Resumption
  imports Handoff_Service Coord_System
begin

text \<open>
  Pausing and resuming the parent session of a handoff (\<open>handoffs/resumption.py\<close>), over the operations
  of the coordination service, a transcript and a live bus.  The read of the session and the command
  that follows are two transactions: \<open>env\<close> gives what the rest of the system does to the store before
  each of them.  A getter that returns no service is the value \<open>None\<close>.
\<close>

definition CAS_ATTEMPTS :: nat where
  "CAS_ATTEMPTS = 5"

definition step_key :: "handoff_record \<Rightarrow> string \<Rightarrow> string" where
  "step_key r step = ''handoff:'' @ hr_handoff_id r @ '':'' @ step"

fun optimistic_conflict :: "py_error \<Rightarrow> bool" where
  "optimistic_conflict (OptimisticConflictError _ _) = True"
| "optimistic_conflict (OptimisticConflictMessage _) = True"
| "optimistic_conflict _ = False"

fun invalid_transition :: "py_error \<Rightarrow> bool" where
  "invalid_transition (InvalidTransitionError _ _) = True"
| "invalid_transition _ = False"

fun key_error :: "py_error \<Rightarrow> bool" where
  "key_error (KeyError _) = True"
| "key_error _ = False"

record 's session_service =
  sv_get :: "string \<Rightarrow> string \<Rightarrow> 's \<Rightarrow> session_record result"
  sv_command :: "session_command \<Rightarrow> string \<Rightarrow> string \<Rightarrow> int \<Rightarrow> string \<Rightarrow> ('s, accepted_transition) op"

text \<open>The attempts from the \<open>i\<close>-th on, \<open>n\<close> of them left.\<close>

fun parent_attempts ::
  "'s session_service \<Rightarrow> (nat \<Rightarrow> 's \<Rightarrow> 's) \<Rightarrow> handoff_record \<Rightarrow> string \<Rightarrow> string \<Rightarrow> string \<Rightarrow> nat \<Rightarrow> nat \<Rightarrow>
   ('s, string option) op" where
  "parent_attempts sv env r target expected_state step i 0 s =
     (Inl (OptimisticConflictMessage (''parent session '' @ hr_session_id r @ '' kept changing; handoff '' @ step @ '' not applied'')), s)"
| "parent_attempts sv env r target expected_state step i (Suc n) s =
     (let s1 = env (2 * i) s in
      case sv_get sv (hr_tenant_id r) (hr_session_id r) s1 of
        Inl e \<Rightarrow> (if key_error e then Inr None else Inl e, s1)
      | Inr session \<Rightarrow>
          if sr_state session \<noteq> expected_state then (Inr (Some (sr_state session)), s1)
          else
            (case sv_command sv (if target = ''paused'' then Pause else Resume) (hr_tenant_id r) (hr_session_id r)
                    (sr_version session) (step_key r step) (env (2 * i + 1) s1) of
               (Inl e, s2) \<Rightarrow>
                 if optimistic_conflict e then parent_attempts sv env r target expected_state step (i + 1) n s2
                 else if invalid_transition e then (Inr (Some (sr_state session)), s2)
                 else (Inl e, s2)
             | (Inr acc, s2) \<Rightarrow> (Inr (Some (at_state acc)), s2)))"

definition transition_parent ::
  "'s session_service option \<Rightarrow> (nat \<Rightarrow> 's \<Rightarrow> 's) \<Rightarrow> handoff_record \<Rightarrow> string \<Rightarrow> string \<Rightarrow> string \<Rightarrow> ('s, string option) op" where
  "transition_parent sv env r target expected_state step s =
     (case sv of None \<Rightarrow> (Inl (RuntimeError ''coordination service unavailable; cannot move parent session''), s)
      | Some sv \<Rightarrow> parent_attempts sv env r target expected_state step 0 CAS_ATTEMPTS s)"

definition pause_parent :: "'s session_service option \<Rightarrow> (nat \<Rightarrow> 's \<Rightarrow> 's) \<Rightarrow> handoff_record \<Rightarrow> ('s, unit) op" where
  "pause_parent sv env r s = (case transition_parent sv env r ''paused'' ''active'' ''pause'' s of
     (Inl e, s') \<Rightarrow> (Inl e, s') | (Inr _, s') \<Rightarrow> (Inr (), s'))"

section \<open>The resumption\<close>

record transcript_entry =
  te_tenant_id :: string
  te_session_id :: string
  te_sender_agent_id :: string
  te_recipient_agent_ids :: "string list"
  te_message_type :: string
  te_content :: string
  te_classification :: string
  te_idempotency_key :: string
  te_provenance_chain :: "string list"

text \<open>
  The transcript returns the stored message's id and its JSON; the bus takes a frame.  Both act on the
  environment \<open>'w\<close>.
\<close>

record 'w live_services =
  lv_append :: "(transcript_entry \<Rightarrow> ('w, string \<times> json) op) option"
  lv_publish :: "(string \<Rightarrow> string \<Rightarrow> json \<Rightarrow> ('w, unit) op) option"

definition publish_frame :: "'w live_services \<Rightarrow> string \<Rightarrow> string \<Rightarrow> json \<Rightarrow> 'w \<Rightarrow> 'w" where
  "publish_frame lv t s fr w = (case lv_publish lv of None \<Rightarrow> w | Some p \<Rightarrow> snd (p t s fr w))"

text \<open>\<open>str(payload.get(k) or "")\<close> for the string entries the callers pass.\<close>

definition payload_str :: "string \<Rightarrow> (string \<times> json) list \<Rightarrow> string" where
  "payload_str k p = (case map_of p k of Some (JStr x) \<Rightarrow> x | _ \<Rightarrow> '''')"

definition emit_event :: "'w live_services \<Rightarrow> string \<Rightarrow> (string \<times> json) list \<Rightarrow> 'w \<Rightarrow> 'w" where
  "emit_event lv event_type payload w =
     (let t = payload_str ''tenant_id'' payload; s = payload_str ''session_id'' payload in
      if t = [] \<or> s = [] then w
      else publish_frame lv t s (JObj [(''type'', JStr ''event''), (''event_type'', JStr event_type), (''payload'', JObj payload)]) w)"

definition OUTCOME_TEXT :: "(string \<times> string) list" where
  "OUTCOME_TEXT = [(''completed'', ''completed''), (''failed'', ''failed''), (''cancelled'', ''cancelled''), (''expired'', ''expired'')]"

definition outcome_text :: "handoff_record \<Rightarrow> string" where
  "outcome_text r = (case map_of OUTCOME_TEXT (hr_state r) of None \<Rightarrow> hr_state r | Some x \<Rightarrow> x)"

text \<open>The arrow of the message is written in UTF-8.\<close>

definition resume_content :: "handoff_record \<Rightarrow> string" where
  "resume_content r = ''Handoff '' @ hr_handoff_id r @ '' '' @ outcome_text r @ '' by '' @ hr_target_agent_id r @ '' '' @
     [CHR 0xE2, CHR 0x86, CHR 0x92] @ '' parent resumed: control returns to '' @ hr_source_agent_id r @ ''.'' @
     (case hr_result_reference r of None \<Rightarrow> '''' | Some ref \<Rightarrow> if ref = [] then '''' else '' Result: '' @ ref @ ''.'')"

definition resume_entry :: "handoff_record \<Rightarrow> transcript_entry" where
  "resume_entry r = \<lparr>te_tenant_id = hr_tenant_id r, te_session_id = hr_session_id r, te_sender_agent_id = hr_target_agent_id r,
     te_recipient_agent_ids = [hr_source_agent_id r], te_message_type = ''decision'', te_content = resume_content r,
     te_classification = hr_classification r, te_idempotency_key = step_key r ''parent-resumed'',
     te_provenance_chain = [''handoff:'' @ hr_handoff_id r]\<rparr>"

definition resume_parent ::
  "'s session_service option \<Rightarrow> (nat \<Rightarrow> 's \<Rightarrow> 's) \<Rightarrow> 'w live_services \<Rightarrow> handoff_record \<Rightarrow> ('s \<times> 'w, unit) op" where
  "resume_parent sv env lv r sw =
     (case lv_append lv of
        None \<Rightarrow> (Inl (RuntimeError ''transcript service unavailable; cannot record handoff resume''), sw)
      | Some add_message \<Rightarrow>
     (case add_message (resume_entry r) (snd sw) of
        (Inl e, w) \<Rightarrow> (Inl e, (fst sw, w))
      | (Inr (message_id, message), w) \<Rightarrow>
     (case transition_parent sv env r ''active'' ''paused'' ''resume'' (fst sw) of
        (Inl e, s') \<Rightarrow> (Inl e, (s', w))
      | (Inr session_state, s') \<Rightarrow>
          let w1 = publish_frame lv (hr_tenant_id r) (hr_session_id r)
                (JObj [(''type'', JStr ''message''), (''message'', message)]) w;
              w2 = emit_event lv ''handoff.parent_resumed.v1''
                [(''tenant_id'', JStr (hr_tenant_id r)), (''session_id'', JStr (hr_session_id r)),
                 (''handoff_id'', JStr (hr_handoff_id r)), (''outcome'', JStr (outcome_text r)),
                 (''parent_agent_id'', JStr (hr_source_agent_id r)),
                 (''session_state'', case session_state of None \<Rightarrow> JNull | Some x \<Rightarrow> JStr x),
                 (''message_id'', JStr message_id)] w1
          in (Inr (), (s', w2)))))"

text \<open>The service over the PostgreSQL store; the clock and the outbox id are arguments.\<close>

definition pg_session_service :: "bool \<Rightarrow> (string \<Rightarrow> string \<Rightarrow> string) \<Rightarrow> instant \<Rightarrow> string \<Rightarrow> coord_db session_service" where
  "pg_session_service enforced u now rid = \<lparr>
     sv_get = service_get_session (pg_get_session enforced),
     sv_command = service_transition (\<lambda>t s v target k. pg_transition_session enforced u t s v target k now rid)\<rparr>"

section \<open>Properties\<close>

text \<open>What happens between the transactions keeps the log and only adds to it.\<close>

definition env_ok :: "(nat \<Rightarrow> coord_db \<Rightarrow> coord_db) \<Rightarrow> bool" where
  "env_ok env \<longleftrightarrow> (\<forall>i db. log_inv db \<longrightarrow> log_inv (env i db) \<and> log_later db (env i db))"

lemma env_okD: "env_ok env \<Longrightarrow> log_inv db \<Longrightarrow> log_inv (env i db)" "env_ok env \<Longrightarrow> log_inv db \<Longrightarrow> log_later db (env i db)"
  by (simp_all add: env_ok_def)

lemma service_get:
  assumes "log_inv db" "s \<noteq> []"
  shows "sv_get (pg_session_service True u now rid) t s db =
    (case session_at db (t, s) of None \<Rightarrow> Inl (KeyError s) | Some row \<Rightarrow> Inr (record_of_row row))"
  using session_query [of db s t True] log_inv_ids [OF assms(1)] assms(2)
  by (simp add: pg_session_service_def service_get_session_def pg_get_session_def distinct_ids_def split: option.split)

text \<open>
  C36: repeating a step of a handoff is a no-op.  Once the pause or the resumption of a handoff is
  recorded under its key, performing it again, on any replica and with other transactions before and
  between its own, does not raise and writes nothing: the database is what those transactions made it.
\<close>

theorem parent_step_repeats:
  assumes "log_inv db" "env_ok env" "hr_session_id r \<noteq> []"
    and "event_at db (hr_tenant_id r) (event_id_of u (hr_tenant_id r) (hr_session_id r) (step_key r step)) = Some e"
    and "ev_payload e = TransitionPayload f g acc"
  shows "\<exists>x. transition_parent (Some (pg_session_service True u now rid)) env r target st step db = (Inr x, env 0 db) \<or>
    transition_parent (Some (pg_session_service True u now rid)) env r target st step db = (Inr x, env 1 (env 0 db))"
proof -
  let ?t = "hr_tenant_id r" and ?s = "hr_session_id r"
  have inv: "log_inv (env 0 db)" "log_inv (env 1 (env 0 db))" by (intro env_okD(1) [OF assms(2)] assms(1))+
  have ev: "event_at (env 1 (env 0 db)) ?t (event_id_of u ?t ?s (step_key r step)) = Some e"
    by (intro event_at_later [OF env_okD(2) [OF assms(2) inv(1)]] event_at_later [OF env_okD(2) [OF assms(2,1)]] assms(4))
  have "pg_transition_session True u ?t ?s v tg (step_key r step) now rid (env 1 (env 0 db)) = (Inr acc, env 1 (env 0 db))" for v tg
    using event_query [of "env 1 (env 0 db)" "event_id_of u ?t ?s (step_key r step)" ?t True] ev assms(5) log_inv_ids [OF inv(2)]
    by (simp add: pg_transition_session_def distinct_ids_def)
  then have cmd: "sv_command (pg_session_service True u now rid) c ?t ?s v (step_key r step) (env 1 (env 0 db)) = (Inr acc, env 1 (env 0 db))" for c v
    using assms(3) by (simp add: pg_session_service_def service_transition_def step_key_def)
  then have cmd': "sv_command (pg_session_service True u now rid) c ?t ?s v (step_key r step) (env (Suc 0) (env 0 db))
      = (Inr acc, env (Suc 0) (env 0 db))" for c v by simp
  show ?thesis
    using service_get [OF inv(1) assms(3), of u now rid ?t]
    by (cases "session_at (env 0 db) (?t, ?s)") (auto simp: transition_parent_def CAS_ATTEMPTS_def numeral_eq_Suc cmd' Let_def)
qed

definition demo_paused :: coord_db where
  "demo_paused = snd (pg_transition_session True demo_uuid5 ''t'' ''s'' 2 ''paused'' ''handoff:h1:pause'' 10 ''o'' demo_coord)"

lemmas demo_paused_defs = demo_paused_def pg_transition_session_def demo_coord_def empty_db_def demo_uuid5_def event_name_def
  event_insert_ok_def outbox_insert_ok_def transition_event_def transition_outbox_def transition_session_def transition_in_def
  SESSION_TRANSITIONS_def Let_def

lemma demo_paused_log: "log_inv demo_paused"
  unfolding demo_paused_def by (rule log_inv_transition [OF demo_coord_log])

lemma env_ok_quiet: "env_ok (\<lambda>_ db. db)"
  by (simp add: env_ok_def)

theorem parent_step_repeats_witness:
  "snd (transition_parent (Some (pg_session_service True demo_uuid5 99 ''o2'')) (\<lambda>_ db. db) demo_handoff ''paused'' ''active'' ''pause'' demo_paused)
     = demo_paused"
proof -
  have "\<exists>e f g acc. event_at demo_paused ''t'' (event_id_of demo_uuid5 ''t'' ''s'' ''handoff:h1:pause'') = Some e \<and>
      ev_payload e = TransitionPayload f g acc"
    by (simp add: demo_paused_defs event_at_def)
  then obtain e f g acc where "event_at demo_paused ''t'' (event_id_of demo_uuid5 ''t'' ''s'' ''handoff:h1:pause'') = Some e"
      "ev_payload e = TransitionPayload f g acc" by blast
  then show ?thesis
    using parent_step_repeats [OF demo_paused_log env_ok_quiet, of demo_handoff demo_uuid5 "''pause''" e f g acc 99 "''o2''" "''paused''" "''active''"]
    by (auto simp: demo_handoff_def step_key_def)
qed

text \<open>A command that conflicts leaves the database, and does so only when the version has moved.\<close>

lemma command_conflict:
  assumes "log_inv db" "sv_command (pg_session_service True u now rid) c t s v k db = (Inl x, db')" "optimistic_conflict x"
  shows "db' = db" "session_at db (t, s) = Some row \<Longrightarrow> ss_version row \<noteq> v"
proof -
  have tr: "pg_transition_session True u t s v (command_target c) k now rid db = (Inl x, db')"
    using assms(2,3) by (auto simp: pg_session_service_def service_transition_def split: if_splits)
  show "db' = db"
    by (rule pg_transition_cases [OF log_inv_ids [OF assms(1)], of t u s k True v "command_target c" now rid]) (use tr in auto)
  have q: "one_or_none (filter (\<lambda>r. ss_id r = s \<and> ss_tenant_id r = t) (rls_rows True ss_tenant_id t (db_sessions db)))
      = Inr (session_at db (t, s))"
    "one_or_none (filter (\<lambda>e. ev_id e = event_id_of u t s k \<and> ev_tenant_id e = t) (rls_rows True ev_tenant_id t (db_events db)))
      = Inr (event_at db t (event_id_of u t s k))"
    using session_query [of db s t True] event_query [of db "event_id_of u t s k" t True] log_inv_ids [OF assms(1)]
    by (simp_all add: distinct_ids_def)
  have "\<not> optimistic_conflict y" if "transition_session a b = Inl y" for a b y
    using that by (auto simp: transition_session_def transition_in_def split: option.splits if_splits)
  then show "ss_version row \<noteq> v" if "session_at db (t, s) = Some row"
    using tr q that assms(3) unfolding pg_transition_session_def
    by (auto simp: Let_def split: sum.splits option.splits event_payload.splits if_splits)
qed

text \<open>
  C37: the resumer gives up only when it is disturbed in every attempt.  If in one of the five attempts
  nothing touches the session between the read and the command, the step settles: it does not raise
  an optimistic conflict, whatever happens in the other attempts.
\<close>

theorem parent_step_settles:
  assumes "log_inv db" "env_ok env" "hr_session_id r \<noteq> []" "j < CAS_ATTEMPTS"
    and "\<forall>db. session_at (env (2 * j + 1) db) (hr_tenant_id r, hr_session_id r) = session_at db (hr_tenant_id r, hr_session_id r)"
    and "fst (transition_parent (Some (pg_session_service True u now rid)) env r target st step db) = Inl x"
  shows "\<not> optimistic_conflict x"
proof -
  have main: "\<not> optimistic_conflict x" if "log_inv db" "i \<le> j" "j < i + n"
    "fst (parent_attempts (pg_session_service True u now rid) env r target st step i n db) = Inl x" for i n db
    using that
  proof (induction n arbitrary: i db)
    case (Suc n)
    let ?sv = "pg_session_service True u now rid" and ?t = "hr_tenant_id r" and ?s = "hr_session_id r"
    let ?d1 = "env (2 * i) db" and ?d2 = "env (2 * i + 1) (env (2 * i) db)"
    let ?cmd = "\<lambda>v. sv_command ?sv (if target = ''paused'' then Pause else Resume) ?t ?s v (step_key r step) ?d2"
    have inv: "log_inv ?d1" "log_inv ?d2" by (intro env_okD(1) [OF assms(2)] Suc.prems(1))+
    note get = service_get [OF inv(1) assms(3), of u now rid ?t]
    show ?case
    proof (cases "session_at ?d1 (?t, ?s)")
      case None
      then show ?thesis using Suc.prems(4) get by simp
    next
      case (Some row)
      have step: "parent_attempts ?sv env r target st step i (Suc n) db =
          (if ss_state row \<noteq> st then (Inr (Some (ss_state row)), ?d1)
           else case ?cmd (ss_version row) of
             (Inl e, s2) \<Rightarrow> if optimistic_conflict e then parent_attempts ?sv env r target st step (i + 1) n s2
               else if invalid_transition e then (Inr (Some (ss_state row)), s2) else (Inl e, s2)
           | (Inr acc, s2) \<Rightarrow> (Inr (Some (at_state acc)), s2))"
        using get Some by (simp add: record_of_row_def Let_def split: prod.split sum.split)
      show ?thesis
      proof (cases "?cmd (ss_version row)")
        case (Pair res d3)
        show ?thesis
        proof (cases "ss_state row = st \<and> (\<exists>y. res = Inl y \<and> optimistic_conflict y)")
          case False
          then show ?thesis using Suc.prems(4) unfolding step Pair by (cases res) (auto split: if_splits)
        next
          case True
          then obtain y where y: "res = Inl y" "optimistic_conflict y" by blast
          note conflict = command_conflict [OF inv(2) Pair [unfolded y(1)] y(2)]
          have "i \<noteq> j" using conflict(2) [of row] Some assms(5) by auto
          moreover have "fst (parent_attempts ?sv env r target st step (i + 1) n ?d2) = Inl x"
            using Suc.prems(4) True conflict(1) unfolding step Pair y(1) by (simp add: y(2))
          ultimately show ?thesis using Suc.IH [OF inv(2), of "i + 1"] Suc.prems(2,3) by simp
        qed
      qed
    qed
  qed simp
  show ?thesis using main [of db 0 CAS_ATTEMPTS] assms(1,4,6) by (simp add: transition_parent_def)
qed

theorem parent_step_settles_witness:
  "fst (transition_parent (Some (pg_session_service True demo_uuid5 99 ''o'')) (\<lambda>_ db. db) demo_handoff ''active'' ''paused'' ''resume'' demo_paused)
     = Inl (IntegrityError ''coordination_outbox'') \<and> \<not> optimistic_conflict (IntegrityError ''coordination_outbox'')"
proof -
  have "fst (transition_parent (Some (pg_session_service True demo_uuid5 99 ''o'')) (\<lambda>_ db. db) demo_handoff ''active'' ''paused'' ''resume'' demo_paused)
     = Inl (IntegrityError ''coordination_outbox'')"
    by (simp add: transition_parent_def CAS_ATTEMPTS_def numeral_eq_Suc pg_session_service_def service_get_session_def
        service_transition_def pg_get_session_def record_of_row_def demo_handoff_def step_key_def demo_paused_defs)
  then show ?thesis
    using parent_step_settles [OF demo_paused_log env_ok_quiet, of demo_handoff 0 demo_uuid5 99 "''o''" "''active''" "''paused''" "''resume''"]
    by (simp add: demo_handoff_def CAS_ATTEMPTS_def)
qed

end
