(* ===== verification/Transcript_Order.thy ===== *)
theory Transcript_Order
  imports Coord_System
begin

text \<open>
  The order and the validity of the transcript in PostgreSQL, while other transactions write to the
  same log.
\<close>

inductive tr_step :: "(string \<Rightarrow> string \<Rightarrow> string) \<Rightarrow> transcript_db \<Rightarrow> transcript_db \<Rightarrow> bool" for u where
  append: "new_message m = Inr m \<Longrightarrow> tr_step u db (snd (pg_transcript_append True u now m db))"
| other: "log_inv coord \<Longrightarrow> log_later (td_coord db) coord \<Longrightarrow> tr_step u db (db\<lparr>td_coord := coord\<rparr>)"

text \<open>The event of a message: it is in the message's session, with the message's number and content.\<close>

definition has_event :: "coord_db \<Rightarrow> transcript_message \<Rightarrow> bool" where
  "has_event coord m \<longleftrightarrow> (\<exists>e \<in> set (db_events coord). event_key e = tm_key m \<and> ev_sequence e = tm_sequence m \<and>
     ev_payload e = message_payload m)"

definition tr_command :: "transcript_message \<Rightarrow> string \<times> string \<times> string" where
  "tr_command m = (tm_tenant_id m, tm_session_id m, tm_idempotency_key m)"

definition tr_inv :: "transcript_db \<Rightarrow> bool" where
  "tr_inv db \<longleftrightarrow> log_inv (td_coord db) \<and> distinct (map tr_command (td_messages db)) \<and>
     list_all (has_event (td_coord db)) (td_messages db) \<and> list_all (\<lambda>m. new_message m = Inr m) (td_messages db) \<and>
     (\<forall>k. sorted_wrt (<) (map tm_sequence (filter (\<lambda>m. tm_key m = k) (td_messages db))))"

lemma has_event_later: "log_later a b \<Longrightarrow> has_event a m \<Longrightarrow> has_event b m"
  by (auto simp: log_later_def has_event_def)

text \<open>A number in the log is below the session's next number.\<close>

lemma event_number_bound:
  assumes "log_inv db" "e \<in> set (db_events db)" "session_at db (event_key e) = Some row"
  shows "ev_sequence e < ss_next_sequence row"
proof -
  have "row \<in> set (db_sessions db)" "session_key row = event_key e" using session_at_Some [OF assms(3)] by simp_all
  then have "map ev_sequence (session_events db (event_key e)) = map int [1..<nat (ss_next_sequence row)]"
    using assms(1) by (auto simp: log_inv_def list_all_iff numbered_def)
  moreover have "ev_sequence e \<in> set (map ev_sequence (session_events db (event_key e)))"
    using assms(2) by (simp add: session_events_def)
  ultimately show ?thesis by auto
qed

lemma next_sequence_positive: "log_inv db \<Longrightarrow> session_at db k = Some row \<Longrightarrow> 1 \<le> ss_next_sequence row"
  using session_at_Some [of db k row] by (auto simp: log_inv_def list_all_iff numbered_def)

lemma validate_stored:
  "validate_content_and_interval (m\<lparr>tm_sequence := n, tm_created_at := now\<rparr>)
     = map_sum id (\<lambda>_. m\<lparr>tm_sequence := n, tm_created_at := now\<rparr>) (validate_content_and_interval m)"
  unfolding validate_content_and_interval_def by (simp del: not_None_eq)

lemma new_message_iff: "new_message m = Inr m \<longleftrightarrow> fields_ok m \<and> validate_content_and_interval m = Inr m"
  by (simp add: new_message_def)

lemma stored_valid:
  assumes "new_message m = Inr m" "1 \<le> n"
  shows "new_message (m\<lparr>tm_sequence := n, tm_created_at := now\<rparr>) = Inr (m\<lparr>tm_sequence := n, tm_created_at := now\<rparr>)"
proof -
  have "fields_ok (m\<lparr>tm_sequence := n, tm_created_at := now\<rparr>)" if "fields_ok m"
    using that assms(2) unfolding fields_ok_def by simp
  then show ?thesis
    using assms(1) unfolding new_message_iff by (simp add: validate_stored)
qed

lemma tr_inv_append:
  assumes inv: "tr_inv db" and m: "new_message m = Inr m"
  shows "tr_inv (snd (pg_transcript_append True u now m db))"
proof -
  have log: "log_inv (td_coord db)" using inv by (simp add: tr_inv_def)
  show ?thesis
  proof (rule transcript_append_cases [OF log, of u now m], goal_cases)
    case (1 r)
    then show ?case using inv by simp
  next
    case (2 row n coord)
    let ?st = "m\<lparr>tm_sequence := ss_next_sequence row, tm_created_at := now\<rparr>"
    let ?db = "\<lparr>td_coord = coord, td_messages = td_messages db @ [?st]\<rparr>"
    note al = allocate_event_Inr [OF log 2(3)]
    have later: "log_later (td_coord db) coord" by (rule log_later_allocate [OF log 2(3)])
    have n: "n = ss_next_sequence row"
      using 2(1,3) enforced_session_query [OF log, of "tm_session_id m" "tm_tenant_id m"]
      by (auto simp: allocate_event_def tm_key_def Let_def split: if_splits)
    have "has_event coord ?st"
      unfolding has_event_def al(2) n by (simp add: allocated_event_def event_key_def tm_key_def)
    moreover have "tr_command ?st \<notin> tr_command ` set (td_messages db)"
      using 2(4) by (auto simp: tr_command_def filter_empty_conv)
    moreover have "new_message ?st = Inr ?st" by (rule stored_valid [OF m next_sequence_positive [OF log 2(1)]])
    moreover have "tm_sequence q < ss_next_sequence row" if q: "q \<in> set (td_messages db)" "tm_key q = tm_key m" for q
    proof -
      obtain e where "e \<in> set (db_events (td_coord db))" "event_key e = tm_key m" "ev_sequence e = tm_sequence q"
        using inv q unfolding tr_inv_def list_all_iff has_event_def by metis
      then show ?thesis using event_number_bound [OF log, of e row] 2(1) by simp
    qed
    moreover have "tm_key ?st = tm_key m" by (simp add: tm_key_def)
    ultimately have "tr_inv ?db"
      using inv al(1) has_event_later [OF later] by (auto simp: tr_inv_def list_all_iff sorted_wrt_append)
    then show ?case by (simp add: 2(5))
  qed
qed

lemma tr_inv_step: "tr_step u db db' \<Longrightarrow> tr_inv db \<Longrightarrow> tr_inv db'"
proof (induction rule: tr_step.induct)
  case (append m db now)
  then show ?case by (simp add: tr_inv_append)
next
  case (other coord db)
  then show ?case using has_event_later [OF other(2)] by (auto simp: tr_inv_def list_all_iff)
qed

lemma tr_inv_run: "(tr_step u)\<^sup>*\<^sup>* db db' \<Longrightarrow> tr_inv db \<Longrightarrow> tr_inv db'"
  by (induction rule: rtranclp_induct) (auto intro: tr_inv_step)

lemma tr_inv_empty: "log_inv coord \<Longrightarrow> tr_inv \<lparr>td_coord = coord, td_messages = []\<rparr>"
  by (simp add: tr_inv_def)

section \<open>Properties\<close>

text \<open>
  C38: the transcript is in order and in the log.  However appends and other writers of the log take
  turns, the stored messages of a session have strictly increasing sequence numbers in the order in
  which they were appended, and each one is in the event log of its session under the same number and
  with the same content.
\<close>

theorem transcript_in_order:
  assumes "log_inv coord" "(tr_step u)\<^sup>*\<^sup>* \<lparr>td_coord = coord, td_messages = []\<rparr> db"
  shows "sorted_wrt (<) (map tm_sequence (filter (\<lambda>m. tm_key m = k) (td_messages db))) \<and>
    (\<forall>m \<in> set (td_messages db). \<exists>e \<in> set (db_events (td_coord db)). event_key e = tm_key m \<and>
       ev_sequence e = tm_sequence m \<and> ev_payload e = message_payload m)"
  using tr_inv_run [OF assms(2) tr_inv_empty [OF assms(1)]] by (cases k) (simp add: tr_inv_def list_all_iff has_event_def)

definition demo_message :: transcript_message where
  "demo_message = \<lparr>tm_message_id = ''m'', tm_tenant_id = ''t'', tm_session_id = ''s'', tm_sequence = 1, tm_sender_agent_id = ''a'',
     tm_recipient_agent_ids = [], tm_message_type = ''decision'', tm_safe_content = Some ''go'', tm_artifact_reference = None,
     tm_classification = ''internal'', tm_trust_label = ''trusted'', tm_provenance_chain = [],
     tm_source_digest = replicate 64 CHR ''0'', tm_clearance_decision = ''allowed'', tm_compacts_from_sequence = None,
     tm_compacts_to_sequence = None, tm_idempotency_key = ''k'', tm_created_at = 0\<rparr>"

definition demo_transcript :: transcript_db where
  "demo_transcript = snd (pg_transcript_append True demo_uuid5 7 demo_message \<lparr>td_coord = demo_coord, td_messages = []\<rparr>)"

lemma demo_message_valid: "new_message demo_message = Inr demo_message"
  by (simp add: new_message_def fields_ok_def validate_content_and_interval_def demo_message_def hex_digest_def)

lemma demo_transcript_run: "(tr_step demo_uuid5)\<^sup>*\<^sup>* \<lparr>td_coord = demo_coord, td_messages = []\<rparr> demo_transcript"
  unfolding demo_transcript_def by (intro r_into_rtranclp tr_step.append demo_message_valid)

lemma demo_transcript_messages: "td_messages demo_transcript = [demo_message\<lparr>tm_created_at := 7\<rparr>]"
  by (simp add: demo_transcript_def pg_transcript_append_def demo_coord_def empty_db_def demo_message_def message_insert_ok_def
      allocate_event_def event_insert_ok_def outbox_insert_ok_def Let_def)

theorem transcript_in_order_witness:
  "\<exists>e \<in> set (db_events (td_coord demo_transcript)). event_key e = (''t'', ''s'') \<and> ev_sequence e = 1"
  using transcript_in_order [OF demo_coord_log demo_transcript_run, of "(''t'', ''s'')"]
  by (auto simp: demo_transcript_messages tm_key_def demo_message_def)

lemma append_replays:
  assumes inv: "tr_inv db" and m: "m \<in> set (td_messages db)" "tr_command q = tr_command m"
  shows "pg_transcript_append True u now q db = (message_from_row m, db)"
proof -
  have log: "log_inv (td_coord db)" and d: "distinct (map tr_command (td_messages db))" using inv by (simp_all add: tr_inv_def)
  have "has_event (td_coord db) m" using inv m(1) by (simp add: tr_inv_def list_all_iff)
  then have "tm_key m \<in> session_key ` set (db_sessions (td_coord db))"
    using log by (force simp: has_event_def log_inv_def)
  then have "session_at (td_coord db) (tm_tenant_id q, tm_session_id q) \<noteq> None"
    using m(2) by (simp add: session_at_def find_key_None tr_command_def tm_key_def)
  then obtain row where row: "one_or_none (filter (\<lambda>r. ss_id r = tm_session_id q)
      (rls_rows True ss_tenant_id (tm_tenant_id q) (db_sessions (td_coord db)))) = Inr (Some row)"
    using enforced_session_query [OF log, of "tm_session_id q" "tm_tenant_id q"] by auto
  have "filter (\<lambda>r. tm_session_id r = tm_session_id q \<and> tm_idempotency_key r = tm_idempotency_key q)
      (rls_rows True tm_tenant_id (tm_tenant_id q) (td_messages db)) = filter (\<lambda>r. tr_command r = tr_command m) (td_messages db)"
    unfolding m(2) [symmetric] by (auto simp: tr_command_def intro: filter_cong)
  moreover have "one_or_none (filter (\<lambda>r. tr_command r = tr_command m) (td_messages db)) = Inr (Some m)"
    using one_or_none_key [OF d, of "tr_command m"] find_key_unique [OF d m(1)] by simp
  ultimately show ?thesis using row by (simp add: pg_transcript_append_def del: rls_rows_simps)
qed

lemma collect_valid: "\<forall>r \<in> set rs. f r = Inr r \<Longrightarrow> collect_results (map f rs) = Inr rs"
  by (induction rs) auto

text \<open>
  C39: what is stored is well formed.  However appends and other writers take turns, every stored
  message satisfies the message model, so a page never raises: it is the session's messages above the
  cursor in order, up to the bound; and an append under a key that is taken returns the stored message
  and writes nothing.
\<close>

theorem transcript_well_formed:
  assumes "log_inv coord" "(tr_step u)\<^sup>*\<^sup>* \<lparr>td_coord = coord, td_messages = []\<rparr> db"
  shows "(\<forall>m \<in> set (td_messages db). fields_ok m \<and> validate_content_and_interval m = Inr m) \<and>
    pg_transcript_page True t s after limit db = Inr (take (bounded_limit limit)
      (filter (\<lambda>m. tm_key m = (t, s) \<and> after < tm_sequence m) (td_messages db))) \<and>
    (\<forall>m \<in> set (td_messages db). \<forall>q. tr_command q = tr_command m \<longrightarrow>
       pg_transcript_append True u now q db = (Inr m, db))"
proof -
  have inv: "tr_inv db" by (rule tr_inv_run [OF assms(2) tr_inv_empty [OF assms(1)]])
  have valid: "\<forall>m \<in> set (td_messages db). message_from_row m = Inr m"
    using inv by (auto simp: tr_inv_def list_all_iff message_from_row_def)
  have "fields_ok m \<and> validate_content_and_interval m = Inr m" if "m \<in> set (td_messages db)" for m
    using valid that by (auto simp: message_from_row_def new_message_def split: if_splits)
  moreover have "pg_transcript_page True t s after limit db = Inr (take (bounded_limit limit)
      (filter (\<lambda>m. tm_key m = (t, s) \<and> after < tm_sequence m) (td_messages db)))"
  proof -
    let ?ms = "filter (\<lambda>m. tm_key m = (t, s) \<and> after < tm_sequence m) (td_messages db)"
    have eq: "filter (\<lambda>r. tm_session_id r = s \<and> tm_sequence r > after) (rls_rows True tm_tenant_id t (td_messages db)) = ?ms"
      by (auto simp: tm_key_def intro: filter_cong)
    have "sorted_wrt (<) (map tm_sequence (filter (\<lambda>m. tm_key m = (t, s)) (td_messages db)))"
      using inv by (simp add: tr_inv_def)
    then have "sorted (map tm_sequence (filter (\<lambda>m. after < tm_sequence m) (filter (\<lambda>m. tm_key m = (t, s)) (td_messages db))))"
      by (intro sorted_filter [of tm_sequence "filter (\<lambda>m. tm_key m = (t, s)) (td_messages db)"] strict_sorted_imp_sorted)
    then have sorted: "sort_key tm_sequence ?ms = ?ms" by (simp add: conj_commute sort_key_id_if_sorted)
    show ?thesis unfolding pg_transcript_page_def eq sorted
      by (rule collect_valid) (use valid in \<open>auto dest: in_set_takeD\<close>)
  qed
  moreover have "pg_transcript_append True u now q db = (Inr m, db)"
    if "m \<in> set (td_messages db)" "tr_command q = tr_command m" for m q
    using append_replays [OF inv that] valid that(1) by simp
  ultimately show ?thesis by blast
qed

theorem transcript_well_formed_witness:
  "pg_transcript_page True ''t'' ''s'' 0 10 demo_transcript = Inr [demo_message\<lparr>tm_created_at := 7\<rparr>] \<and>
   pg_transcript_append True demo_uuid5 9 (demo_message\<lparr>tm_safe_content := Some ''other''\<rparr>) demo_transcript
     = (Inr (demo_message\<lparr>tm_created_at := 7\<rparr>), demo_transcript)"
  using transcript_well_formed [OF demo_coord_log demo_transcript_run, of "''t''" "''s''" 0 10 9]
  by (simp add: demo_transcript_messages tm_key_def demo_message_def tr_command_def bounded_limit_def)

end
