(* ===== verification/Handoff_Recovery.thy ===== *)
theory Handoff_Recovery
  imports Handoff_Tokens Handoff_Resumption Transcript_Order
begin

text \<open>
  The second half of the sweep: ended handoffs whose parent session is still paused.  The list is
  exact up to its limit; a handoff that has just ended is on it, so a resumption that failed without
  touching the session is repeated.  A resumption that fails after it wrote its message is not.
\<close>

section \<open>The list\<close>

lemma collect_records_ok:
  "list_all (\<lambda>q. handoff_record_ok (ho_record q)) rows \<Longrightarrow> collect_records rows = Inr (map ho_record rows)"
  unfolding collect_records_def by (auto simp: list_all_iff filter_empty_conv record_from_row_def)

definition waiting :: "instant \<Rightarrow> handoff_db \<Rightarrow> handoff_record list" where
  "waiting since db = concat (map (\<lambda>q. map (\<lambda>_. ho_record q) (filter (awaits_resume since db (ho_record q)) (db_sessions (hd_coord db))))
     (hd_handoffs db))"

lemma set_waiting:
  "set (waiting since db) = {ho_record q | q s. q \<in> set (hd_handoffs db) \<and> s \<in> set (db_sessions (hd_coord db)) \<and> awaits_resume since db (ho_record q) s}"
  by (auto simp: waiting_def)

lemma length_waiting:
  assumes "distinct_ids (hd_coord db)"
  shows "length (waiting since db) \<le> length (hd_handoffs db)"
proof -
  have one: "length (filter (awaits_resume since db r) (db_sessions (hd_coord db))) \<le> 1" for r
  proof -
    have "distinct (map ss_id (db_sessions (hd_coord db)))" using assms by (simp add: distinct_ids_def)
    from this have "length (filter (\<lambda>s. ss_id s = hr_session_id r \<and> awaits_resume since db r s) (db_sessions (hd_coord db))) \<le> 1"
      by (rule distinct_map_filter_le_1)
    moreover have "filter (\<lambda>s. ss_id s = hr_session_id r \<and> awaits_resume since db r s) (db_sessions (hd_coord db))
        = filter (awaits_resume since db r) (db_sessions (hd_coord db))"
      by (rule filter_cong) (auto simp: awaits_resume_def)
    ultimately show ?thesis by simp
  qed
  have "length (concat (map (\<lambda>q. map (\<lambda>_. ho_record q) (filter (awaits_resume since db (ho_record q)) ss)) qs)) \<le> length qs"
    if "\<And>r. length (filter (awaits_resume since db r) ss) \<le> 1" for qs :: "handoff_row list" and ss
  proof (induction qs)
    case (Cons q qs)
    then show ?case using that [of "ho_record q"] by simp
  qed simp
  from this [OF one] show ?thesis by (simp add: waiting_def)
qed

lemma released_list:
  assumes "rows_ok db"
  shows "pg_list_released_awaiting_resume since limit db =
    Inr (map ho_record (filter (\<lambda>q. hr_handoff_id (ho_record q) \<in> set (released_ids since limit db)) (hd_handoffs db)))"
  using assms collect_records_ok [of "filter (\<lambda>q. hr_handoff_id (ho_record q) \<in> set (released_ids since limit db)) (hd_handoffs db)"]
  by (auto simp: pg_list_released_awaiting_resume_def Let_def rows_ok_def list_all_iff)

lemma released_subset:
  assumes "rows_ok db" "pg_list_released_awaiting_resume since limit db = Inr rs"
  shows "set rs \<subseteq> ho_record ` set (hd_handoffs db)"
  using assms(2) by (auto simp: released_list [OF assms(1)])

lemma released_waiting:
  assumes ok: "rows_ok db" and rs: "pg_list_released_awaiting_resume since limit db = Inr rs" "r \<in> set rs"
  shows "\<exists>s \<in> set (db_sessions (hd_coord db)). awaits_resume since db r s"
proof -
  obtain q where q: "q \<in> set (hd_handoffs db)" "r = ho_record q" "hr_handoff_id r \<in> set (released_ids since limit db)"
    using rs by (auto simp: released_list [OF ok])
  then obtain p where p: "p \<in> set (waiting since db)" "hr_handoff_id p = hr_handoff_id r"
    unfolding released_ids_def waiting_def [symmetric] by (auto dest: in_set_takeD)
  then obtain q' s where q': "q' \<in> set (hd_handoffs db)" "p = ho_record q'" "s \<in> set (db_sessions (hd_coord db))" "awaits_resume since db p s"
    by (auto simp: set_waiting)
  have "q' = q" using ok q(1,2) q'(1,2) p(2) by (auto simp: rows_ok_def distinct_map inj_on_def)
  with q(2) q' show ?thesis by blast
qed

lemma waiting_released:
  assumes ok: "rows_ok db" and d: "distinct_ids (hd_coord db)" and l: "length (hd_handoffs db) \<le> limit"
    and q: "q \<in> set (hd_handoffs db)" "s \<in> set (db_sessions (hd_coord db))" "awaits_resume since db (ho_record q) s"
  shows "\<exists>rs. pg_list_released_awaiting_resume since limit db = Inr rs \<and> ho_record q \<in> set rs"
proof -
  have "ho_record q \<in> set (waiting since db)" using q by (auto simp: set_waiting)
  then have "hr_handoff_id (ho_record q) \<in> set (released_ids since limit db)"
    using length_waiting [OF d, of since] l unfolding released_ids_def waiting_def [symmetric] by simp
  then show ?thesis using q(1) by (auto simp: released_list [OF ok])
qed

section \<open>What a numbered event does to its session\<close>

lemma allocate_session:
  assumes inv: "log_inv db" and row: "session_at db (t, s) = Some row"
    and al: "allocate_event True u t s i ty k cls p now db = (Inr n, db')"
  shows "session_at db' (t, s) = Some (row\<lparr>ss_next_sequence := ss_next_sequence row + 1, ss_updated_at := now\<rparr>)"
  by (rule session_at_update [where f = "\<lambda>r. r\<lparr>ss_next_sequence := ss_next_sequence row + 1, ss_updated_at := now\<rparr>", OF inv row])
    (use al enforced_session_query [OF inv, of s t] row in
      \<open>auto simp: allocate_event_def Let_def session_key_def split: if_splits\<close>)

lemma session_row_unique:
  assumes "log_inv db" "session_at db (t, s) = Some row" "r \<in> set (db_sessions db)" "ss_id r = s"
  shows "r = row"
  using log_inv_ids [OF assms(1)] session_at_Some [OF assms(2)] assms(3,4)
  by (auto simp: distinct_ids_def distinct_map inj_on_def session_key_def)

section \<open>A handoff that ends is found\<close>


definition demo_delegated :: handoff_db where
  "demo_delegated = \<lparr>hd_coord = demo_paused, hd_handoffs =
     [\<lparr>ho_record = demo_handoff\<lparr>hr_state := ''executing'', hr_version := 3\<rparr>, ho_transition_audit = []\<rparr>]\<rparr>"

definition demo_ended :: handoff_db where
  "demo_ended = snd (pg_handoff_transition True demo_uuid5 40 ''t'' ''h1'' ''completed'' 3 ''done'' None demo_delegated)"

lemma demo_delegated_ok: "rows_ok demo_delegated"
  using demo_handoff_ok by (simp add: rows_ok_def demo_delegated_def handoff_record_ok_def HANDOFF_STATE_TRANSITIONS_def)

lemma demo_ended_move:
  "map_sum id (\<lambda>(r, ev, replayed). (hr_session_id r, hr_state r, replayed))
     (fst (pg_handoff_transition True demo_uuid5 40 ''t'' ''h1'' ''completed'' 3 ''done'' None demo_delegated))
   = Inr (''s'', ''completed'', False)"
  by code_simp


section \<open>A message hides it\<close>

text \<open>
  C18: a new transcript message of a session takes every handoff of the session that ended before it
  off the list of the sweep, for every window and limit, although the session is still paused.  The
  resumer writes such a message before it moves the parent, so when the move then fails no sweep
  repeats it.
\<close>

theorem message_hides_ended_handoff:
  assumes "log_inv (td_coord tdb)" "pg_transcript_append True u now m tdb = (Inr stored, tdb')" "tdb' \<noteq> tdb"
    and "rows_ok db" "hd_coord db = td_coord tdb'"
    and "\<forall>q \<in> set (hd_handoffs db). (ho_tenant q, hr_session_id (ho_record q)) = tm_key m \<longrightarrow> hr_updated_at (ho_record q) < now"
    and "pg_list_released_awaiting_resume since limit db = Inr rs"
  shows "\<forall>r \<in> set rs. (hr_tenant_id r, hr_session_id r) \<noteq> tm_key m"
proof -
  obtain row where row: "session_at (hd_coord db) (tm_key m) = Some row" "ss_updated_at row = now"
  proof (rule transcript_append_cases [OF assms(1), of u now m], goal_cases)
    case (1 r)
    then show ?case using assms(2,3) by simp
  next
    case (2 row n coord)
    from allocate_session [OF assms(1) _ 2(4)] 2(2) have "session_at coord (tm_key m) =
        Some (row\<lparr>ss_next_sequence := ss_next_sequence row + 1, ss_updated_at := now\<rparr>)" by (simp add: tm_key_def)
    with 2(1,6) assms(2,5) show ?case by simp
  qed
  have log: "log_inv (hd_coord db)" using transcript_log [OF assms(1), of u now m] assms(2,5) by simp
  show ?thesis
  proof (intro ballI notI)
    fix r
    assume r: "r \<in> set rs" "(hr_tenant_id r, hr_session_id r) = tm_key m"
    obtain s where s: "s \<in> set (db_sessions (hd_coord db))" "awaits_resume since db r s"
      using released_waiting [OF assms(4,7) r(1)] by blast
    have "s = row" by (rule session_row_unique [OF log, of "hr_tenant_id r" "hr_session_id r"])
      (use row r(2) s in \<open>simp_all add: awaits_resume_def\<close>)
    moreover have "hr_updated_at r < now" using assms(6) r released_subset [OF assms(4,7)] by auto
    ultimately show False using s(2) row(2) by (simp add: awaits_resume_def)
  qed
qed

definition demo_noted :: transcript_db where
  "demo_noted = snd (pg_transcript_append True demo_uuid5 41 demo_message \<lparr>td_coord = hd_coord demo_ended, td_messages = []\<rparr>)"

theorem message_hides_ended_handoff_witness:
  "pg_list_released_awaiting_resume 0 10 (demo_ended\<lparr>hd_coord := td_coord demo_noted\<rparr>) = Inr [] \<and>
   map ss_state (db_sessions (td_coord demo_noted)) = [''paused'']"
proof -
  let ?db = "demo_ended\<lparr>hd_coord := td_coord demo_noted\<rparr>"
  have rows: "map (\<lambda>q. (ho_tenant q, hr_session_id (ho_record q), hr_updated_at (ho_record q))) (hd_handoffs demo_ended) = [(''t'', ''s'', 40)]"
    by code_simp
  have ok: "rows_ok ?db"
    using pg_transition_view [OF demo_delegated_ok, of demo_uuid5 40 "''t''" "''h1''" "''completed''" 3 "''done''" None]
    by (simp add: demo_ended_def rows_ok_def)
  have app: "map_sum id tm_message_id (fst (pg_transcript_append True demo_uuid5 41 demo_message \<lparr>td_coord = hd_coord demo_ended, td_messages = []\<rparr>))
      = Inr ''m''" "map tm_message_id (td_messages demo_noted) = [''m'']"
    by code_simp+
  then obtain st where st: "pg_transcript_append True demo_uuid5 41 demo_message \<lparr>td_coord = hd_coord demo_ended, td_messages = []\<rparr> = (Inr st, demo_noted)"
    unfolding demo_noted_def
    by (cases "pg_transcript_append True demo_uuid5 41 demo_message \<lparr>td_coord = hd_coord demo_ended, td_messages = []\<rparr>") (auto simp: map_sum_Inr)
  have log: "log_inv (hd_coord demo_ended)"
    using handoff_step_log [of demo_delegated demo_uuid5 "MoveHandoff 40 ''t'' ''h1'' ''completed'' 3 ''done'' None"] demo_paused_log
    by (simp add: demo_ended_def demo_delegated_def)
  have new: "demo_noted \<noteq> \<lparr>td_coord = hd_coord demo_ended, td_messages = []\<rparr>"
  proof
    assume "demo_noted = \<lparr>td_coord = hd_coord demo_ended, td_messages = []\<rparr>"
    then have "td_messages demo_noted = []" by (rule ssubst) (rule transcript_db.select_convs(2))
    with app(2) show False by simp
  qed
  define rs where "rs = projr (pg_list_released_awaiting_resume 0 10 ?db)"
  have list: "pg_list_released_awaiting_resume 0 10 ?db = Inr rs" by (simp add: rs_def released_list [OF ok])
  obtain q where q: "hd_handoffs demo_ended = [q]" "ho_tenant q = ''t''" "hr_session_id (ho_record q) = ''s''" "hr_updated_at (ho_record q) = 40"
    using rows by (auto simp: map_eq_Cons_conv)
  have "\<forall>r \<in> set rs. (hr_tenant_id r, hr_session_id r) \<noteq> tm_key demo_message"
    by (rule message_hides_ended_handoff [OF _ st new ok _ _ list]) (simp_all add: log q)
  moreover have "set rs \<subseteq> {ho_record q}" using released_subset [OF ok list] q(1) by simp
  ultimately have "rs = []" using q(2,3) by (cases rs) (auto simp: tm_key_def demo_message_def)
  with list have "pg_list_released_awaiting_resume 0 10 ?db = Inr []" by simp
  moreover have "map ss_state (db_sessions (td_coord demo_noted)) = [''paused'']" by code_simp
  ultimately show ?thesis by blast
qed

end
