(* ===== verification/Ledger.thy ===== *)
theory Ledger
  imports Session_Refinement
begin

text \<open>
  The append-only progress ledger (\<open>app/coordination/ledger\<close>): revisions, the in-memory repository and
  the one over \<open>progress_ledger_revisions\<close>.  The JSON text of the \<open>state\<close> column is represented by
  the revision it encodes; a confidence is the exact value of the float.  A dictionary entry that
  \<open>setdefault\<close> creates empty is the same as none.
\<close>

record ledger_revision =
  lr_tenant_id :: string
  lr_session_id :: string
  lr_version :: int
  lr_objective :: string
  lr_open_work :: "string list"
  lr_completed_work :: "string list"
  lr_claimed_completed_work :: "string list"
  lr_verified_facts :: "string list"
  lr_evidence_references :: "string list"
  lr_blockers :: "string list"
  lr_satisfaction_criteria :: "string list"
  lr_satisfied_criteria :: "string list"
  lr_last_action_signature :: string
  lr_assignment_history :: "string list"
  lr_confidence :: rat
  lr_reset_count :: int
  lr_predecessor_version :: "int option"
  lr_stall_evidence_references :: "string list"
  lr_idempotency_key :: string
  lr_created_at :: instant

definition revision_ok :: "ledger_revision \<Rightarrow> bool" where
  "revision_ok r \<longleftrightarrow> lr_tenant_id r \<noteq> [] \<and> lr_session_id r \<noteq> [] \<and> 0 < lr_version r \<and> lr_objective r \<noteq> [] \<and>
     length (lr_objective r) \<le> 4000 \<and> 0 \<le> lr_confidence r \<and> lr_confidence r \<le> 1 \<and> 0 \<le> lr_reset_count r \<and>
     (case lr_predecessor_version r of None \<Rightarrow> True | Some v \<Rightarrow> 1 \<le> v) \<and> lr_idempotency_key r \<noteq> []"

definition lr_key :: "ledger_revision \<Rightarrow> string \<times> string" where
  "lr_key r = (lr_tenant_id r, lr_session_id r)"

definition lr_command :: "ledger_revision \<Rightarrow> string \<times> string \<times> string" where
  "lr_command r = (lr_tenant_id r, lr_session_id r, lr_idempotency_key r)"

text \<open>The accepted copy: \<open>current or None\<close> as its predecessor.\<close>

definition accepted_revision :: "ledger_revision \<Rightarrow> int \<Rightarrow> ledger_revision" where
  "accepted_revision r current = r\<lparr>lr_predecessor_version := (if current = 0 then None else Some current)\<rparr>"

section \<open>In memory\<close>

record mem_ledger =
  ml_revisions :: "string \<times> string \<Rightarrow> ledger_revision list"
  ml_commands :: "string \<times> string \<times> string \<rightharpoonup> ledger_revision"

definition last_version :: "ledger_revision list \<Rightarrow> int" where
  "last_version h = (if h = [] then 0 else lr_version (last h))"

definition mem_ledger_append :: "ledger_revision \<Rightarrow> int \<Rightarrow> (mem_ledger, ledger_revision) op" where
  "mem_ledger_append r expected st =
     (case ml_commands st (lr_command r) of
        Some prior \<Rightarrow> (Inr prior, st)
      | None \<Rightarrow>
          let history = ml_revisions st (lr_key r); current = last_version history
          in if current \<noteq> expected then (Inl (OptimisticConflictError expected current), st)
             else if lr_version r \<noteq> current + 1 then (Inl (ValueError ''ledger revision version must be contiguous''), st)
             else (Inr (accepted_revision r current),
               \<lparr>ml_revisions = (ml_revisions st)(lr_key r := history @ [accepted_revision r current]),
                ml_commands = (ml_commands st)(lr_command r \<mapsto> accepted_revision r current)\<rparr>))"

definition mem_ledger_current :: "string \<Rightarrow> string \<Rightarrow> mem_ledger \<Rightarrow> ledger_revision option" where
  "mem_ledger_current t s st = (let h = ml_revisions st (t, s) in if h = [] then None else Some (last h))"

definition page_bound :: "int \<Rightarrow> nat" where
  "page_bound limit = nat (max 1 (min limit 500))"

definition mem_ledger_revisions :: "string \<Rightarrow> string \<Rightarrow> int \<Rightarrow> int \<Rightarrow> mem_ledger \<Rightarrow> ledger_revision list" where
  "mem_ledger_revisions t s after limit st =
     take (page_bound limit) (filter (\<lambda>r. lr_version r > after) (ml_revisions st (t, s)))"

section \<open>PostgreSQL\<close>

record ledger_row =
  lg_id :: string
  lg_tenant_id :: string
  lg_session_id :: string
  lg_objective :: string
  lg_state :: ledger_revision
  lg_version :: int

definition revision_from_row :: "ledger_row \<Rightarrow> ledger_revision result" where
  "revision_from_row row = (if revision_ok (lg_state row) then Inr (lg_state row) else Inl (ValueError ''LedgerRevision''))"

definition latest_revision_row :: "bool \<Rightarrow> string \<Rightarrow> string \<Rightarrow> ledger_row list \<Rightarrow> ledger_row option" where
  "latest_revision_row enforced t s rows = (case sort_key (\<lambda>r. - lg_version r)
       (filter (\<lambda>r. lg_session_id r = s) (rls_rows enforced lg_tenant_id t rows)) of [] \<Rightarrow> None | r # _ \<Rightarrow> Some r)"

definition ledger_row_id :: "(string \<Rightarrow> string \<Rightarrow> string) \<Rightarrow> ledger_revision \<Rightarrow> string" where
  "ledger_row_id u r = u ''NAMESPACE_URL'' (''ledger:'' @ lr_tenant_id r @ '':'' @ lr_session_id r @ '':'' @ str_int (lr_version r))"

definition ledger_row_of :: "(string \<Rightarrow> string \<Rightarrow> string) \<Rightarrow> ledger_revision \<Rightarrow> ledger_row" where
  "ledger_row_of u r = \<lparr>lg_id = ledger_row_id u r, lg_tenant_id = lr_tenant_id r, lg_session_id = lr_session_id r,
     lg_objective = lr_objective r, lg_state = r, lg_version = lr_version r\<rparr>"

definition pg_ledger_append ::
  "bool \<Rightarrow> (string \<Rightarrow> string \<Rightarrow> string) \<Rightarrow> ledger_revision \<Rightarrow> int \<Rightarrow> (ledger_row list, ledger_revision) op" where
  "pg_ledger_append enforced u r expected rows =
     (let fresh = (\<lambda>current.
        if current \<noteq> expected then (Inl (OptimisticConflictError expected current), rows)
        else if lr_version r \<noteq> current + 1 then (Inl (ValueError ''ledger revision version must be contiguous''), rows)
        else let row = ledger_row_of u (accepted_revision r current)
             in if lg_id row \<in> lg_id ` set rows then (Inl (IntegrityError ''progress_ledger_revisions''), rows)
                else (Inr (accepted_revision r current), rows @ [row]))
      in case latest_revision_row enforced (lr_tenant_id r) (lr_session_id r) rows of
           None \<Rightarrow> fresh 0
         | Some row \<Rightarrow>
             (case revision_from_row row of
                Inl e \<Rightarrow> (Inl e, rows)
              | Inr current \<Rightarrow>
                  if lr_idempotency_key current = lr_idempotency_key r then (Inr current, rows)
                  else fresh (lr_version current)))"

definition pg_ledger_current :: "bool \<Rightarrow> string \<Rightarrow> string \<Rightarrow> ledger_row list \<Rightarrow> ledger_revision option result" where
  "pg_ledger_current enforced t s rows =
     (case latest_revision_row enforced t s rows of None \<Rightarrow> Inr None | Some row \<Rightarrow> map_sum id Some (revision_from_row row))"

fun all_revisions :: "ledger_row list \<Rightarrow> ledger_revision list result" where
  "all_revisions [] = Inr []"
| "all_revisions (row # rows) = (case revision_from_row row of Inl e \<Rightarrow> Inl e | Inr r \<Rightarrow> map_sum id (Cons r) (all_revisions rows))"

definition pg_ledger_revisions ::
  "bool \<Rightarrow> string \<Rightarrow> string \<Rightarrow> int \<Rightarrow> int \<Rightarrow> ledger_row list \<Rightarrow> ledger_revision list result" where
  "pg_ledger_revisions enforced t s after limit rows = all_revisions (take (page_bound limit) (sort_key lg_version
     (filter (\<lambda>r. lg_session_id r = s \<and> lg_version r > after) (rls_rows enforced lg_tenant_id t rows))))"

section \<open>Commands\<close>

datatype ledger_op = AppendRevision ledger_revision int | CurrentRevision string string | ListRevisions string string int int

datatype ledger_reply = Appended "ledger_revision result" | Latest "ledger_revision option result"
  | Revisions "ledger_revision list result"

fun mem_ledger_step :: "ledger_op \<Rightarrow> mem_ledger \<Rightarrow> ledger_reply \<times> mem_ledger" where
  "mem_ledger_step (AppendRevision r v) st = map_prod Appended id (mem_ledger_append r v st)"
| "mem_ledger_step (CurrentRevision t s) st = (Latest (Inr (mem_ledger_current t s st)), st)"
| "mem_ledger_step (ListRevisions t s a l) st = (Revisions (Inr (mem_ledger_revisions t s a l st)), st)"

fun pg_ledger_step :: "bool \<Rightarrow> (string \<Rightarrow> string \<Rightarrow> string) \<Rightarrow> ledger_op \<Rightarrow> ledger_row list \<Rightarrow> ledger_reply \<times> ledger_row list" where
  "pg_ledger_step b u (AppendRevision r v) rows = map_prod Appended id (pg_ledger_append b u r v rows)"
| "pg_ledger_step b u (CurrentRevision t s) rows = (Latest (pg_ledger_current b t s rows), rows)"
| "pg_ledger_step b u (ListRevisions t s a l) rows = (Revisions (pg_ledger_revisions b t s a l rows), rows)"

section \<open>The table as the histories\<close>

definition history :: "ledger_row list \<Rightarrow> string \<times> string \<Rightarrow> ledger_revision list" where
  "history rows k = filter (\<lambda>r. lr_key r = k) (map lg_state rows)"

definition abs_ledger :: "ledger_row list \<Rightarrow> mem_ledger" where
  "abs_ledger rows = \<lparr>ml_revisions = history rows,
     ml_commands = (\<lambda>c. find (\<lambda>r. lr_command r = c) (map lg_state rows))\<rparr>"

definition ledger_inv :: "(string \<Rightarrow> string \<Rightarrow> string) \<Rightarrow> ledger_row list \<Rightarrow> bool" where
  "ledger_inv u rows \<longleftrightarrow> rows = map (ledger_row_of u) (map lg_state rows) \<and>
     list_all (\<lambda>r. revision_ok r \<and> plain_id (lr_tenant_id r) \<and> plain_id (lr_session_id r)) (map lg_state rows) \<and>
     distinct (map lr_command (map lg_state rows)) \<and>
     (\<forall>k. map lr_version (history rows k) = map int [1..<Suc (length (history rows k))])"

text \<open>
  Admissible: identifiers without a colon, a validated revision, and an idempotency key that is new in
  the session or that of its latest revision.
\<close>

fun ledger_op_ok :: "ledger_row list \<Rightarrow> ledger_op \<Rightarrow> bool" where
  "ledger_op_ok rows (AppendRevision r v) \<longleftrightarrow> revision_ok r \<and> plain_id (lr_tenant_id r) \<and> plain_id (lr_session_id r) \<and>
     (lr_command r \<in> lr_command ` set (map lg_state rows) \<longrightarrow>
        lr_command (last (history rows (lr_key r))) = lr_command r)"
| "ledger_op_ok rows _ \<longleftrightarrow> True"

lemma ledger_row_simps [simp]:
  "lg_state (ledger_row_of u r) = r" "lg_version (ledger_row_of u r) = lr_version r"
  "lg_tenant_id (ledger_row_of u r) = lr_tenant_id r" "lg_session_id (ledger_row_of u r) = lr_session_id r"
  "lg_id (ledger_row_of u r) = ledger_row_id u r"
  by (simp_all add: ledger_row_of_def)

lemma accepted_simps [simp]:
  "lr_key (accepted_revision r c) = lr_key r" "lr_command (accepted_revision r c) = lr_command r"
  "lr_version (accepted_revision r c) = lr_version r" "lr_tenant_id (accepted_revision r c) = lr_tenant_id r"
  "lr_session_id (accepted_revision r c) = lr_session_id r" "ledger_row_id u (accepted_revision r c) = ledger_row_id u r"
  by (simp_all add: accepted_revision_def lr_key_def lr_command_def ledger_row_id_def)

lemma session_rows_history:
  assumes "ledger_inv u rows"
  shows "filter (\<lambda>r. lg_session_id r = s) (rls_rows True lg_tenant_id t rows) = map (ledger_row_of u) (history rows (t, s))"
proof -
  let ?f = "filter (\<lambda>r. lg_tenant_id r = t \<and> lg_session_id r = s)"
  have "?f rows = ?f (map (ledger_row_of u) (map lg_state rows))"
    using assms unfolding ledger_inv_def by (metis (no_types))
  also have "\<dots> = map (ledger_row_of u) (history rows (t, s))"
    by (simp only: history_def filter_map) (simp add: comp_def lr_key_def)
  finally show ?thesis by (simp add: conj_commute)
qed

lemma history_versions:
  assumes "ledger_inv u rows"
  shows "map lr_version (history rows k) = map int [1..<Suc (length (history rows k))]"
  using assms unfolding ledger_inv_def by blast

lemma version_of_nth:
  assumes "ledger_inv u rows" "i < length (history rows k)"
  shows "lr_version (history rows k ! i) = int i + 1"
proof -
  have "map lr_version (history rows k) ! i = map int [1..<Suc (length (history rows k))] ! i"
    by (simp only: history_versions [OF assms(1)])
  then show ?thesis using assms(2) by (simp del: upt_Suc)
qed

lemma last_version_length:
  assumes "ledger_inv u rows"
  shows "last_version (history rows k) = int (length (history rows k))"
  using version_of_nth [OF assms, of "length (history rows k) - 1" k]
  by (cases "history rows k = []") (auto simp: last_version_def last_conv_nth simp flip: length_greater_0_conv)

lemma latest_is_last:
  assumes inv: "ledger_inv u rows"
  shows "latest_revision_row True t s rows = (if history rows (t, s) = [] then None else Some (ledger_row_of u (last (history rows (t, s)))))"
proof (cases "history rows (t, s) = []")
  case True
  then show ?thesis using session_rows_history [OF inv, of s t] by (simp add: latest_revision_row_def)
next
  case False
  let ?h = "history rows (t, s)" and ?g = "\<lambda>r. - lg_version r"
  have "sort_key ?g (map (ledger_row_of u) ?h) \<noteq> []" using False by (metis map_is_Nil_conv set_empty set_sort)
  then obtain y ys where y: "sort_key ?g (map (ledger_row_of u) ?h) = y # ys" by (cases "sort_key ?g (map (ledger_row_of u) ?h)") auto
  have "y \<in> set (map (ledger_row_of u) ?h)" using arg_cong [OF y, of set] by auto
  then obtain i where i: "i < length ?h" "y = ledger_row_of u (?h ! i)" by (auto simp: in_set_conv_nth)
  have "last ?h \<in> set ?h" using False by simp
  then have "- lg_version y \<le> - lr_version (last ?h)" using sort_key_hd_le [OF y, of "ledger_row_of u (last ?h)"] by simp
  moreover have "lr_version (last ?h) = int (length ?h)" using last_version_length [OF inv, of "(t, s)"] False by (simp add: last_version_def)
  ultimately have "i = length ?h - 1" using version_of_nth [OF inv i(1)] i by simp
  then have "y = ledger_row_of u (last ?h)" using i(2) False by (simp add: last_conv_nth)
  then show ?thesis using session_rows_history [OF inv, of s t] y False by (simp add: latest_revision_row_def)
qed

lemma history_mem: "r \<in> set (history rows k) \<longleftrightarrow> r \<in> set (map lg_state rows) \<and> lr_key r = k"
  by (auto simp: history_def)

lemma history_valid: "ledger_inv u rows \<Longrightarrow> r \<in> set (history rows k) \<Longrightarrow> revision_from_row (ledger_row_of u r) = Inr r"
  by (auto simp: ledger_inv_def history_mem list_all_iff revision_from_row_def)

lemma all_revisions_valid: "\<forall>r \<in> set rs. revision_from_row (ledger_row_of u r) = Inr r \<Longrightarrow> all_revisions (map (ledger_row_of u) rs) = Inr rs"
  by (induction rs) auto

lemma current_refines:
  "ledger_inv u rows \<Longrightarrow> pg_ledger_current True t s rows = Inr (mem_ledger_current t s (abs_ledger rows))"
  using latest_is_last [of u rows t s] history_valid [of u rows "last (history rows (t, s))" "(t, s)"]
  by (auto simp: pg_ledger_current_def mem_ledger_current_def abs_ledger_def Let_def)

lemma revisions_refine:
  assumes inv: "ledger_inv u rows"
  shows "pg_ledger_revisions True t s a l rows = Inr (mem_ledger_revisions t s a l (abs_ledger rows))"
proof -
  let ?h = "filter (\<lambda>r. lr_version r > a) (history rows (t, s))"
  have "filter (\<lambda>r. lg_session_id r = s \<and> lg_version r > a) (rls_rows True lg_tenant_id t rows)
      = filter (\<lambda>r. lg_version r > a) (filter (\<lambda>r. lg_session_id r = s) (rls_rows True lg_tenant_id t rows))"
    by (simp add: conj_ac)
  also have "\<dots> = map (ledger_row_of u) ?h" unfolding session_rows_history [OF inv] by (simp add: filter_map comp_def)
  finally have eq: "filter (\<lambda>r. lg_session_id r = s \<and> lg_version r > a) (rls_rows True lg_tenant_id t rows) = map (ledger_row_of u) ?h" .
  have "sorted (map lr_version (history rows (t, s)))"
    unfolding history_versions [OF inv] by (simp add: sorted_iff_nth_mono del: upt_Suc)
  then have "sorted (map lg_version (map (ledger_row_of u) ?h))" by (simp add: comp_def sorted_filter)
  then have sorted: "sort_key lg_version (map (ledger_row_of u) ?h) = map (ledger_row_of u) ?h" by (rule sort_key_id_if_sorted)
  have "\<forall>r \<in> set (take (page_bound l) ?h). revision_from_row (ledger_row_of u r) = Inr r"
  proof
    fix r assume "r \<in> set (take (page_bound l) ?h)"
    then have "r \<in> set (history rows (t, s))" using in_set_takeD by fastforce
    then show "revision_from_row (ledger_row_of u r) = Inr r" by (rule history_valid [OF inv])
  qed
  then show ?thesis
    unfolding pg_ledger_revisions_def eq sorted take_map
    by (simp add: all_revisions_valid mem_ledger_revisions_def abs_ledger_def)
qed

section \<open>Appending\<close>

fun digits_value :: "string \<Rightarrow> nat" where
  "digits_value [] = 0"
| "digits_value (c # cs) = of_char c - 48 + 10 * digits_value cs"

lemma digits_value_nat_digits: "digits_value (rev (nat_digits n)) = n"
proof (induction n rule: nat_digits.induct)
  case (1 n)
  have digit: "of_char (char_of (48 + d :: nat)) - (48 :: nat) = d" if "d < 10" for d
    using that by (simp add: of_char_of)
  show ?case
  proof (cases "n < 10")
    case True
    then show ?thesis by (subst nat_digits.simps) (simp add: digit)
  next
    case False
    then show ?thesis using 1 by (subst nat_digits.simps) (simp add: digit)
  qed
qed

lemma str_int_inj: "0 \<le> a \<Longrightarrow> 0 \<le> b \<Longrightarrow> str_int a = str_int b \<longleftrightarrow> a = b"
  by (auto simp: str_int_def) (metis digits_value_nat_digits nat_eq_iff)

lemma ledger_row_id_inj:
  assumes "inj (u ''NAMESPACE_URL'')" "plain_id (lr_tenant_id a)" "plain_id (lr_tenant_id b)" "plain_id (lr_session_id a)"
    "plain_id (lr_session_id b)" "0 < lr_version a" "0 < lr_version b"
  shows "ledger_row_id u a = ledger_row_id u b \<longleftrightarrow> lr_key a = lr_key b \<and> lr_version a = lr_version b"
  using assms str_int_inj [of "lr_version a" "lr_version b"]
  by (auto simp: ledger_row_id_def inj_eq plain_id_def separator_split lr_key_def)

lemma ledger_inv_snoc:
  assumes inv: "ledger_inv u rows" and r: "revision_ok r" "plain_id (lr_tenant_id r)" "plain_id (lr_session_id r)"
    and new: "lr_command r \<notin> lr_command ` set (map lg_state rows)" and v: "lr_version r = last_version (history rows (lr_key r)) + 1"
  shows "ledger_inv u (rows @ [ledger_row_of u r])"
proof -
  have hist: "history (rows @ [ledger_row_of u r]) k = history rows k @ (if lr_key r = k then [r] else [])" for k
    by (simp add: history_def)
  have "map lr_version (history (rows @ [ledger_row_of u r]) k) = map int [1..<Suc (length (history (rows @ [ledger_row_of u r]) k))]" for k
  proof (cases "lr_key r = k")
    case True
    then show ?thesis
      using history_versions [OF inv, of k] v last_version_length [OF inv, of k] by (simp add: hist)
  next
    case False
    then show ?thesis using history_versions [OF inv, of k] by (simp add: hist)
  qed
  then show ?thesis
    using inv r new by (simp add: ledger_inv_def image_image del: upt_Suc)
qed

lemma accepted_ok:
  assumes "revision_ok r" "0 \<le> c"
  shows "revision_ok (accepted_revision r c)"
  using assms by (auto simp: revision_ok_def accepted_revision_def)

lemma find_command_last:
  assumes inv: "ledger_inv u rows" and h: "history rows (lr_key r) \<noteq> []" "lr_command (last (history rows (lr_key r))) = lr_command r"
  shows "find (\<lambda>q. lr_command q = lr_command r) (map lg_state rows) = Some (last (history rows (lr_key r)))"
proof -
  have "last (history rows (lr_key r)) \<in> set (map lg_state rows)" using h(1) last_in_set history_mem by blast
  moreover have "distinct (map lr_command (map lg_state rows))" using inv by (simp add: ledger_inv_def)
  ultimately show ?thesis using find_key_unique h(2) by metis
qed

lemma command_key: "lr_command q = lr_command r \<Longrightarrow> lr_key q = lr_key r"
  by (simp add: lr_command_def lr_key_def)

lemma abs_ledger_snoc:
  assumes "lr_command a \<notin> lr_command ` set (map lg_state rows)"
  shows "abs_ledger (rows @ [ledger_row_of u a]) = \<lparr>ml_revisions = (history rows)(lr_key a := history rows (lr_key a) @ [a]),
    ml_commands = (ml_commands (abs_ledger rows))(lr_command a \<mapsto> a)\<rparr>"
proof -
  have "history (rows @ [ledger_row_of u a]) = (history rows)(lr_key a := history rows (lr_key a) @ [a])"
    by (rule ext) (simp add: history_def)
  moreover have "find (\<lambda>r. lr_command r = c) (map lg_state (rows @ [ledger_row_of u a]))
      = ((\<lambda>c. find (\<lambda>r. lr_command r = c) (map lg_state rows))(lr_command a \<mapsto> a)) c" for c
  proof (cases "c = lr_command a")
    case True
    have "find (\<lambda>r. lr_command r = lr_command a) (map lg_state rows) = None" using assms unfolding find_key_None .
    then show ?thesis using True by (simp add: find_append)
  next
    case False
    then show ?thesis by (simp add: find_append split: option.split)
  qed
  ultimately show ?thesis by (simp add: abs_ledger_def fun_eq_iff)
qed

lemma ledger_id_fresh:
  assumes inv: "ledger_inv u rows" and inj: "inj (u ''NAMESPACE_URL'')"
    and r: "revision_ok r" "plain_id (lr_tenant_id r)" "plain_id (lr_session_id r)"
    and v: "lr_version r = int (length (history rows (lr_key r))) + 1"
  shows "ledger_row_id u r \<notin> lg_id ` set rows"
proof
  assume "ledger_row_id u r \<in> lg_id ` set rows"
  then obtain row where row: "row \<in> set rows" "ledger_row_id u r = lg_id row" by (rule imageE) simp
  have "map id rows = map (\<lambda>x. ledger_row_of u (lg_state x)) rows"
    using inv by (simp only: ledger_inv_def list.map_id map_map comp_def)
  then have "row = ledger_row_of u (lg_state row)" using row(1) unfolding map_eq_conv by simp
  then have id: "ledger_row_id u r = ledger_row_id u (lg_state row)" using row(2) ledger_row_simps(5) by metis
  define q where "q = lg_state row"
  have q: "q \<in> set (map lg_state rows)" "ledger_row_id u r = ledger_row_id u q" using row(1) id by (simp_all add: q_def)
  have "revision_ok q" "plain_id (lr_tenant_id q)" "plain_id (lr_session_id q)"
    using inv q(1) unfolding ledger_inv_def list_all_iff by blast+
  then have eq: "lr_key q = lr_key r" "lr_version q = lr_version r"
    using q(2) ledger_row_id_inj [of u r q, OF inj] r by (auto simp: revision_ok_def)
  then obtain i where "i < length (history rows (lr_key r))" "q = history rows (lr_key r) ! i"
    using q(1) history_mem [of q rows "lr_key r"] unfolding in_set_conv_nth by metis
  then show False using version_of_nth [OF inv, of i "lr_key r"] eq(2) v by simp
qed

lemma append_refines:
  assumes inv: "ledger_inv u rows" and inj: "inj (u ''NAMESPACE_URL'')" and ok: "ledger_op_ok rows (AppendRevision r v)"
  shows "map_prod id abs_ledger (pg_ledger_append True u r v rows) = mem_ledger_append r v (abs_ledger rows) \<and>
    ledger_inv u (snd (pg_ledger_append True u r v rows))"
proof -
  let ?h = "history rows (lr_key r)"
  have lat: "latest_revision_row True (lr_tenant_id r) (lr_session_id r) rows = (if ?h = [] then None else Some (ledger_row_of u (last ?h)))"
    using latest_is_last [OF inv] by (simp add: lr_key_def)
  show ?thesis
  proof (cases "lr_command r \<in> lr_command ` set (map lg_state rows)")
    case True
    then have last: "lr_command (last ?h) = lr_command r" using ok by simp
    obtain q where "q \<in> set (map lg_state rows)" "lr_command r = lr_command q" using True by blast
    then have "q \<in> set ?h" unfolding history_mem using command_key [of q r] by simp
    then have h: "?h \<noteq> []" by (metis empty_iff empty_set)
    then have "revision_from_row (ledger_row_of u (last ?h)) = Inr (last ?h)" by (rule history_valid [OF inv last_in_set])
    then have "pg_ledger_append True u r v rows = (Inr (last ?h), rows)"
      using lat h last by (simp add: pg_ledger_append_def lr_command_def)
    moreover have "ml_commands (abs_ledger rows) (lr_command r) = Some (last ?h)"
      using find_command_last [OF inv h last] by (simp add: abs_ledger_def)
    ultimately show ?thesis using inv by (simp add: mem_ledger_append_def)
  next
    case False
    let ?c = "last_version ?h" and ?a = "accepted_revision r (last_version ?h)"
    have c: "?c = int (length ?h)" by (rule last_version_length [OF inv])
    have nokey: "lr_idempotency_key (last ?h) \<noteq> lr_idempotency_key r" if h: "?h \<noteq> []"
    proof
      assume "lr_idempotency_key (last ?h) = lr_idempotency_key r"
      moreover have "last ?h \<in> set (map lg_state rows)" "lr_key (last ?h) = lr_key r" using last_in_set [OF h] unfolding history_mem by simp_all
      ultimately have "lr_command (last ?h) = lr_command r" by (simp add: lr_command_def lr_key_def)
      then show False using False \<open>last ?h \<in> set (map lg_state rows)\<close> by (metis imageI)
    qed
    have none: "ml_commands (abs_ledger rows) (lr_command r) = None"
      using False by (simp add: abs_ledger_def find_key_None)
    have pg: "pg_ledger_append True u r v rows = (if ?c \<noteq> v then (Inl (OptimisticConflictError v ?c), rows)
        else if lr_version r \<noteq> ?c + 1 then (Inl (ValueError ''ledger revision version must be contiguous''), rows)
        else if ledger_row_id u r \<in> lg_id ` set rows then (Inl (IntegrityError ''progress_ledger_revisions''), rows)
        else (Inr ?a, rows @ [ledger_row_of u ?a]))"
      using lat nokey history_valid [OF inv, of "last ?h" "lr_key r"] by (auto simp: pg_ledger_append_def last_version_def Let_def)
    show ?thesis
    proof (cases "?c = v \<and> lr_version r = ?c + 1")
      case True
      have fresh: "ledger_row_id u r \<notin> lg_id ` set rows"
        using ledger_id_fresh [OF inv inj] True ok c by simp
      have res: "pg_ledger_append True u r v rows = (Inr ?a, rows @ [ledger_row_of u ?a])" using pg True fresh by simp
      have "ledger_inv u (rows @ [ledger_row_of u ?a])"
        using True False ok c by (intro ledger_inv_snoc [OF inv]) (auto simp: accepted_ok)
      moreover have "abs_ledger (rows @ [ledger_row_of u ?a]) = \<lparr>ml_revisions = (history rows)(lr_key r := ?h @ [?a]),
          ml_commands = (ml_commands (abs_ledger rows))(lr_command r \<mapsto> ?a)\<rparr>"
        using abs_ledger_snoc [of ?a rows u] False by simp
      ultimately show ?thesis using res none True by (simp add: mem_ledger_append_def abs_ledger_def Let_def)
    next
      case False
      then show ?thesis using pg none inv by (auto simp: mem_ledger_append_def abs_ledger_def Let_def)
    qed
  qed
qed

lemma ledger_inv_empty: "ledger_inv u []"
  by (simp add: ledger_inv_def history_def)

lemma ledger_step_refines:
  assumes "inj (u ''NAMESPACE_URL'')" "ledger_inv u rows" "ledger_op_ok rows c"
  shows "map_prod id abs_ledger (pg_ledger_step True u c rows) = mem_ledger_step c (abs_ledger rows) \<and>
    ledger_inv u (snd (pg_ledger_step True u c rows))"
proof (cases c)
  case (AppendRevision r v)
  then show ?thesis
    using append_refines [OF assms(2,1), of r v] assms(3)
    by (cases "pg_ledger_append True u r v rows"; cases "mem_ledger_append r v (abs_ledger rows)") auto
qed (use assms(2) in \<open>simp_all add: current_refines revisions_refine\<close>)

lemma ledger_run_inv:
  assumes "inj (u ''NAMESPACE_URL'')" "admissible_run (pg_ledger_step True u) ledger_op_ok rows ops" "ledger_inv u rows"
  shows "ledger_inv u (run_ops (pg_ledger_step True u) rows ops)"
  using assms(2,3)
proof (induction ops arbitrary: rows)
  case (Cons c ops)
  then show ?case using ledger_step_refines [of u, OF assms(1), of rows c] by simp
qed simp

definition demo_revision :: ledger_revision where
  "demo_revision = \<lparr>lr_tenant_id = ''t'', lr_session_id = ''s'', lr_version = 1, lr_objective = ''goal'', lr_open_work = [],
     lr_completed_work = [], lr_claimed_completed_work = [], lr_verified_facts = [], lr_evidence_references = [], lr_blockers = [],
     lr_satisfaction_criteria = [], lr_satisfied_criteria = [], lr_last_action_signature = [], lr_assignment_history = [],
     lr_confidence = 0, lr_reset_count = 0, lr_predecessor_version = None, lr_stall_evidence_references = [],
     lr_idempotency_key = ''k'', lr_created_at = 0\<rparr>"

text \<open>
  C40: the ledger table is the in-memory ledger.  For every sequence of appends, reads and listings in
  which a repeated command repeats the latest revision of its session, the PostgreSQL repository
  gives the replies of the in-memory one; revisions of a session are numbered 1, 2, 3, ...
\<close>

theorem ledger_refines_memory:
  assumes "inj (u ''NAMESPACE_URL'')" "admissible_run (pg_ledger_step True u) ledger_op_ok [] ops"
  shows "trace_ops (pg_ledger_step True u) [] ops = trace_ops mem_ledger_step (abs_ledger []) ops \<and>
    map lr_version (history (run_ops (pg_ledger_step True u) [] ops) k)
      = map int [1..<Suc (length (history (run_ops (pg_ledger_step True u) [] ops) k))]"
proof -
  have inv: "ledger_inv u (run_ops (pg_ledger_step True u) [] ops)"
    by (rule ledger_run_inv [OF assms ledger_inv_empty])
  have "trace_ops (pg_ledger_step True u) [] ops = trace_ops mem_ledger_step (abs_ledger []) ops"
    using admissible_simulation [where I = "ledger_inv u" and ok = ledger_op_ok and f = abs_ledger, OF ledger_step_refines [of u, OF assms(1)]
        ledger_inv_empty assms(2)] by simp
  then show ?thesis using history_versions [OF inv] by simp
qed

theorem ledger_refines_memory_witness:
  "trace_ops (pg_ledger_step True demo_uuid5) [] [AppendRevision demo_revision 0, CurrentRevision ''t'' ''s'']
   = trace_ops mem_ledger_step (abs_ledger []) [AppendRevision demo_revision 0, CurrentRevision ''t'' ''s'']"
proof -
  have "admissible_run (pg_ledger_step True demo_uuid5) ledger_op_ok [] [AppendRevision demo_revision 0, CurrentRevision ''t'' ''s'']"
    by (simp add: demo_revision_def revision_ok_def plain_id_def)
  from ledger_refines_memory [OF demo_uuid5_inj this] show ?thesis by simp
qed

end
