(* ===== verification/Task_Graph.thy ===== *)
theory Task_Graph
  imports Prelude "HOL-Library.While_Combinator" "HOL-Library.Product_Lexorder" "HOL-Library.Multiset"
begin

text \<open>
  The dependency order of work items (\<open>topological_order\<close> of
  \<open>app/agent/patterns/reasoning_contracts.py\<close>).  The dictionaries over item ids are functions; the
  loop over the ready list is \<open>while_option\<close>, whose value \<open>None\<close> would mean that it does not return.
\<close>

section \<open>The algorithm\<close>

fun check_ids :: "('a \<Rightarrow> string) \<Rightarrow> string set \<Rightarrow> 'a list \<Rightarrow> unit result" where
  "check_ids id_of seen [] = Inr ()"
| "check_ids id_of seen (x # xs) =
     (if id_of x \<in> seen then Inl (ReasoningContractError (''duplicate ID: '' @ id_of x))
      else check_ids id_of (insert (id_of x) seen) xs)"

fun check_dependencies :: "string set \<Rightarrow> string \<Rightarrow> string list \<Rightarrow> unit result" where
  "check_dependencies ids i [] = Inr ()"
| "check_dependencies ids i (d # ds) =
     (if d = i then Inl (ReasoningContractError (''self dependency: '' @ i))
      else if d \<notin> ids then Inl (ReasoningContractError (''unknown dependency: '' @ d))
      else check_dependencies ids i ds)"

fun check_items :: "('a \<Rightarrow> string) \<Rightarrow> ('a \<Rightarrow> string list) \<Rightarrow> string set \<Rightarrow> 'a list \<Rightarrow> unit result" where
  "check_items id_of deps ids [] = Inr ()"
| "check_items id_of deps ids (x # xs) =
     (if \<not> distinct (deps x) then Inl (ReasoningContractError (''duplicate dependency for '' @ id_of x))
      else case check_dependencies ids (id_of x) (deps x) of
             Inl e \<Rightarrow> Inl e | Inr _ \<Rightarrow> check_items id_of deps ids xs)"

definition ordinal :: "('a \<Rightarrow> string) \<Rightarrow> 'a list \<Rightarrow> string \<Rightarrow> nat" where
  "ordinal id_of items i = length (takeWhile (\<lambda>x. id_of x \<noteq> i) items)"

definition incoming_counts :: "('a \<Rightarrow> string) \<Rightarrow> ('a \<Rightarrow> string list) \<Rightarrow> 'a list \<Rightarrow> string \<Rightarrow> int" where
  "incoming_counts id_of deps items i =
     (case find (\<lambda>x. id_of x = i) items of None \<Rightarrow> 0 | Some x \<Rightarrow> int (length (deps x)))"

definition children_of :: "('a \<Rightarrow> string) \<Rightarrow> ('a \<Rightarrow> string list) \<Rightarrow> 'a list \<Rightarrow> string \<Rightarrow> string list" where
  "children_of id_of deps items d = concat (map (\<lambda>x. map (\<lambda>_. id_of x) (filter (\<lambda>e. e = d) (deps x))) items)"

record topo_state =
  tp_incoming :: "string \<Rightarrow> int"
  tp_level :: "string \<Rightarrow> nat"
  tp_ready :: "string list"
  tp_result :: "string list"

definition release_child :: "string \<Rightarrow> string \<Rightarrow> topo_state \<Rightarrow> topo_state" where
  "release_child i child st =
     (let st1 = st\<lparr>tp_incoming := (tp_incoming st)(child := tp_incoming st child - 1),
            tp_level := (tp_level st)(child := max (tp_level st child) (tp_level st i + 1))\<rparr>
      in if tp_incoming st1 child = 0 then st1\<lparr>tp_ready := tp_ready st1 @ [child]\<rparr> else st1)"

text \<open>The result keeps the ids in place of the items \<open>by_id\<close> maps them to.\<close>

definition topo_step :: "('a \<Rightarrow> string) \<Rightarrow> ('a \<Rightarrow> string list) \<Rightarrow> 'a list \<Rightarrow> topo_state \<Rightarrow> topo_state" where
  "topo_step id_of deps items st =
     (let i = hd (tp_ready st);
          st1 = st\<lparr>tp_ready := tl (tp_ready st), tp_result := tp_result st @ [i]\<rparr>;
          st2 = fold (release_child i) (sort_key (\<lambda>c. (ordinal id_of items c, c)) (children_of id_of deps items i)) st1
      in st2\<lparr>tp_ready := sort_key (\<lambda>c. (tp_level st2 c, ordinal id_of items c, c)) (tp_ready st2)\<rparr>)"

definition topo_start :: "('a \<Rightarrow> string) \<Rightarrow> ('a \<Rightarrow> string list) \<Rightarrow> 'a list \<Rightarrow> topo_state" where
  "topo_start id_of deps items =
     \<lparr>tp_incoming = incoming_counts id_of deps items, tp_level = (\<lambda>_. 0),
      tp_ready = sort_key (\<lambda>c. (ordinal id_of items c, c))
        (filter (\<lambda>i. incoming_counts id_of deps items i = 0) (map id_of items)),
      tp_result = []\<rparr>"

definition lookup_item :: "('a \<Rightarrow> string) \<Rightarrow> 'a list \<Rightarrow> string \<Rightarrow> 'a" where
  "lookup_item id_of items i = the (find (\<lambda>x. id_of x = i) items)"

definition topological_order :: "('a \<Rightarrow> string) \<Rightarrow> ('a \<Rightarrow> string list) \<Rightarrow> 'a list \<Rightarrow> 'a list result option" where
  "topological_order id_of deps items =
     (case check_ids id_of {} items of
        Inl e \<Rightarrow> Some (Inl e)
      | Inr _ \<Rightarrow>
     (case check_items id_of deps (id_of ` set items) items of
        Inl e \<Rightarrow> Some (Inl e)
      | Inr _ \<Rightarrow>
     (case while_option (\<lambda>st. tp_ready st \<noteq> []) (topo_step id_of deps items) (topo_start id_of deps items) of
        None \<Rightarrow> None
      | Some st \<Rightarrow> Some (if length (tp_result st) \<noteq> length items
          then Inl (ReasoningContractError ''dependency graph contains a cycle'')
          else Inr (map (lookup_item id_of items) (tp_result st))))))"

section \<open>Well-formed graphs\<close>

definition depends_on :: "('a \<Rightarrow> string) \<Rightarrow> ('a \<Rightarrow> string list) \<Rightarrow> 'a list \<Rightarrow> (string \<times> string) set" where
  "depends_on id_of deps items = {(d, id_of x) | d x. x \<in> set items \<and> d \<in> set (deps x)}"

definition graph_ok :: "('a \<Rightarrow> string) \<Rightarrow> ('a \<Rightarrow> string list) \<Rightarrow> 'a list \<Rightarrow> bool" where
  "graph_ok id_of deps items \<longleftrightarrow> distinct (map id_of items) \<and>
     list_all (\<lambda>x. distinct (deps x) \<and> id_of x \<notin> set (deps x) \<and> set (deps x) \<subseteq> id_of ` set items) items"

lemma check_ids_iff: "check_ids id_of seen xs = Inr () \<longleftrightarrow> distinct (map id_of xs) \<and> id_of ` set xs \<inter> seen = {}"
  by (induction xs arbitrary: seen) auto

lemma check_dependencies_iff: "check_dependencies ids i ds = Inr () \<longleftrightarrow> i \<notin> set ds \<and> set ds \<subseteq> ids"
  by (induction ds) auto

lemma check_items_iff:
  "check_items id_of deps ids xs = Inr () \<longleftrightarrow>
     list_all (\<lambda>x. distinct (deps x) \<and> id_of x \<notin> set (deps x) \<and> set (deps x) \<subseteq> ids) xs"
proof (induction xs)
  case (Cons x xs)
  then show ?case
    using check_dependencies_iff [of ids "id_of x" "deps x"] by (auto split: sum.splits)
qed simp

lemma checks_iff:
  "check_ids id_of {} items = Inr () \<and> check_items id_of deps (id_of ` set items) items = Inr () \<longleftrightarrow> graph_ok id_of deps items"
  by (simp add: check_ids_iff check_items_iff graph_ok_def)

section \<open>The loop\<close>

text \<open>Releasing children one by one decrements each count and appends those that reach zero.\<close>

lemma fold_release:
  assumes "distinct cs"
  shows "tp_incoming (fold (release_child i) cs st) = (\<lambda>c. if c \<in> set cs then tp_incoming st c - 1 else tp_incoming st c) \<and>
    tp_ready (fold (release_child i) cs st) = tp_ready st @ filter (\<lambda>c. tp_incoming st c = 1) cs \<and>
    tp_result (fold (release_child i) cs st) = tp_result st"
  using assms
proof (induction cs arbitrary: st)
  case (Cons c cs)
  have "filter (\<lambda>x. tp_incoming (release_child i c st) x = 1) cs = filter (\<lambda>x. tp_incoming st x = 1) cs"
    using Cons.prems by (intro filter_cong) (auto simp: release_child_def Let_def)
  with Cons show ?case by (auto simp: release_child_def Let_def fun_eq_iff)
qed simp

lemma filter_single: "distinct ds \<Longrightarrow> map (\<lambda>_. y) (filter (\<lambda>e. e = d) ds) = (if d \<in> set ds then [y] else [])"
  by (induction ds) (auto simp: filter_empty_conv)

lemma children_of_distinct:
  assumes "graph_ok id_of deps items"
  shows "distinct (children_of id_of deps items d)"
    and "set (children_of id_of deps items d) = {id_of x | x. x \<in> set items \<and> d \<in> set (deps x)}"
proof -
  have dep: "distinct (deps x)" if "x \<in> set items" for x using assms that by (simp add: graph_ok_def list_all_iff)
  have eq: "children_of id_of deps items d = map id_of (filter (\<lambda>x. d \<in> set (deps x)) items)"
    unfolding children_of_def using dep by (induction items) (auto simp: filter_single)
  have "distinct (map id_of items)" using assms by (simp add: graph_ok_def)
  then show "distinct (children_of id_of deps items d)" by (simp add: eq distinct_map_filter)
  show "set (children_of id_of deps items d) = {id_of x | x. x \<in> set items \<and> d \<in> set (deps x)}"
    by (auto simp: eq)
qed

text \<open>
  What the loop keeps: results and ready items are different, an item's count is the number of its
  dependencies that are not yet in the result, the items with count zero are those that are done or
  ready, and every result comes after its dependencies.
\<close>

definition after_dependencies :: "('a \<Rightarrow> string) \<Rightarrow> ('a \<Rightarrow> string list) \<Rightarrow> 'a list \<Rightarrow> string list \<Rightarrow> bool" where
  "after_dependencies id_of deps items rs \<longleftrightarrow>
     (\<forall>k < length rs. \<forall>x \<in> set items. id_of x = rs ! k \<longrightarrow> set (deps x) \<subseteq> set (take k rs))"

definition open_dependencies :: "string set \<Rightarrow> string list \<Rightarrow> int" where
  "open_dependencies finished ds = int (length (filter (\<lambda>d. d \<notin> finished) ds))"

definition topo_inv :: "('a \<Rightarrow> string) \<Rightarrow> ('a \<Rightarrow> string list) \<Rightarrow> 'a list \<Rightarrow> topo_state \<Rightarrow> bool" where
  "topo_inv id_of deps items st \<longleftrightarrow> distinct (tp_result st @ tp_ready st) \<and>
     (\<forall>x \<in> set items. tp_incoming st (id_of x) = open_dependencies (set (tp_result st)) (deps x)) \<and>
     set (tp_result st) \<union> set (tp_ready st) = {id_of x | x. x \<in> set items \<and> tp_incoming st (id_of x) = 0} \<and>
     after_dependencies id_of deps items (tp_result st)"

lemma open_dependencies_0: "open_dependencies finished ds = 0 \<longleftrightarrow> set ds \<subseteq> finished"
  by (auto simp: open_dependencies_def filter_empty_conv)

lemma open_dependencies_insert:
  "distinct ds \<Longrightarrow> d \<notin> finished \<Longrightarrow>
   open_dependencies (insert d finished) ds = open_dependencies finished ds - (if d \<in> set ds then 1 else 0)"
  by (induction ds) (auto simp: open_dependencies_def)

lemma after_dependencies_snoc:
  "after_dependencies id_of deps items (rs @ [i]) \<longleftrightarrow> after_dependencies id_of deps items rs \<and>
     (\<forall>x \<in> set items. id_of x = i \<longrightarrow> set (deps x) \<subseteq> set rs)"
  by (simp add: after_dependencies_def All_less_Suc nth_append conj_commute)

lemma incoming_start:
  assumes "graph_ok id_of deps items" "x \<in> set items"
  shows "incoming_counts id_of deps items (id_of x) = int (length (deps x))"
  using assms find_key_unique [of id_of items x] by (simp add: incoming_counts_def graph_ok_def)

lemma topo_inv_start: "graph_ok id_of deps items \<Longrightarrow> topo_inv id_of deps items (topo_start id_of deps items)"
  by (auto simp: topo_inv_def topo_start_def incoming_start open_dependencies_def after_dependencies_def graph_ok_def)

lemma topo_step_eq:
  assumes ok: "graph_ok id_of deps items"
  shows "tp_result (topo_step id_of deps items st) = tp_result st @ [hd (tp_ready st)]"
    "mset (tp_ready (topo_step id_of deps items st)) = mset (tl (tp_ready st)) +
       mset (filter (\<lambda>c. tp_incoming st c = 1) (children_of id_of deps items (hd (tp_ready st))))"
    "tp_incoming (topo_step id_of deps items st) = (\<lambda>c. if c \<in> set (children_of id_of deps items (hd (tp_ready st)))
       then tp_incoming st c - 1 else tp_incoming st c)"
proof -
  let ?cs = "sort_key (\<lambda>c. (ordinal id_of items c, c)) (children_of id_of deps items (hd (tp_ready st)))"
  let ?st = "st\<lparr>tp_ready := tl (tp_ready st), tp_result := tp_result st @ [hd (tp_ready st)]\<rparr>"
  have "distinct ?cs" using children_of_distinct(1) [OF ok] by simp
  note f = fold_release [OF this, of "hd (tp_ready st)" ?st]
  show "tp_result (topo_step id_of deps items st) = tp_result st @ [hd (tp_ready st)]"
    using f by (simp add: topo_step_def Let_def)
  show "mset (tp_ready (topo_step id_of deps items st)) = mset (tl (tp_ready st)) +
       mset (filter (\<lambda>c. tp_incoming st c = 1) (children_of id_of deps items (hd (tp_ready st))))"
    using f by (simp add: topo_step_def Let_def)
  show "tp_incoming (topo_step id_of deps items st) = (\<lambda>c. if c \<in> set (children_of id_of deps items (hd (tp_ready st)))
       then tp_incoming st c - 1 else tp_incoming st c)"
    using f by (simp add: topo_step_def Let_def fun_eq_iff)
qed

lemma topo_inv_step:
  assumes ok: "graph_ok id_of deps items" and inv: "topo_inv id_of deps items st" and ne: "tp_ready st \<noteq> []"
  shows "topo_inv id_of deps items (topo_step id_of deps items st)"
proof -
  obtain i q where q: "tp_ready st = i # q" using ne by (cases "tp_ready st") auto
  let ?s = "topo_step id_of deps items st" and ?done = "set (tp_result st)"
  note eq = topo_step_eq [OF ok, of st, unfolded q list.sel]
  let ?cs = "children_of id_of deps items i"
  let ?new = "filter (\<lambda>c. tp_incoming st c = 1) ?cs"
  note cs = children_of_distinct [OF ok, of i]
  have cnt: "tp_incoming st (id_of x) = open_dependencies ?done (deps x)" if "x \<in> set items" for x
    using inv that by (simp add: topo_inv_def)
  have zero: "?done \<union> set (tp_ready st) = {id_of x | x. x \<in> set items \<and> tp_incoming st (id_of x) = 0}"
    using inv by (simp add: topo_inv_def)
  have i: "i \<notin> ?done" using inv by (simp add: topo_inv_def q)
  have dep: "distinct (deps x)" if "x \<in> set items" for x using ok that by (simp add: graph_ok_def list_all_iff)
  have same: "x = y" if "x \<in> set items" "y \<in> set items" "id_of x = id_of y" for x y
    using ok that by (auto simp: graph_ok_def distinct_map inj_on_def)
  have child: "id_of x \<in> set ?cs \<longleftrightarrow> i \<in> set (deps x)" if "x \<in> set items" for x
    using that same by (auto simp: cs(2))
  have cnt': "tp_incoming ?s (id_of x) = open_dependencies (set (tp_result ?s)) (deps x)" if x: "x \<in> set items" for x
    using open_dependencies_insert [OF dep [OF x] i] cnt [OF x] child [OF x] by (simp add: eq)
  have set_ready: "set (tp_ready ?s) = set q \<union> set ?new" using eq(2) by (metis mset_append set_append set_mset_mset)
  have len: "distinct (tp_ready ?s) \<longleftrightarrow> distinct (q @ ?new)" using eq(2) by (metis mset_append mset_eq_imp_distinct_iff)
  have "c \<notin> ?done \<union> set (tp_ready st)" if "c \<in> set ?new" for c
    using that cs(2) zero same by auto
  then have "distinct (tp_result ?s @ tp_ready ?s)"
    using inv cs(1) len set_ready by (auto simp: topo_inv_def q eq(1))
  moreover have "set (tp_result ?s) \<union> set (tp_ready ?s) = {id_of x | x. x \<in> set items \<and> tp_incoming ?s (id_of x) = 0}"
  proof -
    have "set (tp_result ?s) \<union> set (tp_ready ?s) = (?done \<union> set (tp_ready st)) \<union> set ?new"
      by (auto simp: eq(1) set_ready q)
    also have "\<dots> = {id_of x | x. x \<in> set items \<and> (tp_incoming st (id_of x) = 0 \<or> i \<in> set (deps x) \<and> tp_incoming st (id_of x) = 1)}"
      unfolding zero using cs(2) by auto
    also have "\<dots> = {id_of x | x. x \<in> set items \<and> tp_incoming ?s (id_of x) = 0}"
    proof -
      have "tp_incoming ?s (id_of x) = 0 \<longleftrightarrow> tp_incoming st (id_of x) = 0 \<or> i \<in> set (deps x) \<and> tp_incoming st (id_of x) = 1"
        if x: "x \<in> set items" for x
        using child [OF x] cnt [OF x] i open_dependencies_0 [of ?done "deps x"] by (auto simp: eq(3))
      then show ?thesis by blast
    qed
    finally show ?thesis .
  qed
  moreover have "after_dependencies id_of deps items (tp_result ?s)"
  proof -
    have "i \<in> {id_of x | x. x \<in> set items \<and> tp_incoming st (id_of x) = 0}" using zero q by auto
    then have "set (deps x) \<subseteq> ?done" if "x \<in> set items" "id_of x = i" for x
      using that cnt [of x] open_dependencies_0 [of ?done "deps x"] by auto
    moreover have "after_dependencies id_of deps items (tp_result st)" using inv by (simp add: topo_inv_def)
    ultimately show ?thesis by (auto simp: eq(1) after_dependencies_snoc)
  qed
  ultimately show ?thesis using cnt' by (simp add: topo_inv_def)
qed

text \<open>The loop ends: every round moves one id to the result, and results are different ids.\<close>

lemma topo_inv_result:
  assumes "topo_inv id_of deps items st"
  shows "set (tp_result st) \<union> set (tp_ready st) \<subseteq> id_of ` set items"
    and "length (tp_result st) + length (tp_ready st) \<le> length items"
proof -
  show sub: "set (tp_result st) \<union> set (tp_ready st) \<subseteq> id_of ` set items" using assms by (auto simp: topo_inv_def)
  have "length (tp_result st) + length (tp_ready st) = card (set (tp_result st @ tp_ready st))"
    using assms distinct_card [of "tp_result st @ tp_ready st"] by (simp only: topo_inv_def length_append)
  also have "\<dots> \<le> card (id_of ` set items)" using sub by (intro card_mono) auto
  also have "\<dots> \<le> length items" using card_image_le [of "set items" id_of] card_length [of items] by simp
  finally show "length (tp_result st) + length (tp_ready st) \<le> length items" .
qed

lemma topo_loop:
  assumes ok: "graph_ok id_of deps items"
  obtains st where "while_option (\<lambda>st. tp_ready st \<noteq> []) (topo_step id_of deps items) (topo_start id_of deps items) = Some st"
    "topo_inv id_of deps items st" "tp_ready st = []"
proof -
  let ?b = "\<lambda>st. tp_ready st \<noteq> []" and ?c = "topo_step id_of deps items" and ?s = "topo_start id_of deps items"
  let ?P = "topo_inv id_of deps items"
  have "?P (?c s) \<and> length items - length (tp_result (?c s)) < length items - length (tp_result s)" if "?P s" "?b s" for s
  proof -
    have "length (tp_result s) < length items" using topo_inv_result(2) [OF that(1)] that(2) by (cases "tp_ready s") auto
    then show ?thesis using topo_inv_step [OF ok that] topo_step_eq(1) [OF ok, of s] by simp
  qed
  then obtain st where st: "while_option ?b ?c ?s = Some st"
    using measure_while_option_Some [of ?P ?b ?c "\<lambda>s. length items - length (tp_result s)" ?s] topo_inv_start [OF ok] by blast
  moreover have "?P st"
    using while_option_rule [where P = ?P, OF _ st topo_inv_start [OF ok]] topo_inv_step [OF ok] by blast
  ultimately show thesis using that while_option_stop [OF st] by blast
qed

section \<open>Correctness\<close>

lemma finite_depends_on: "finite (depends_on id_of deps items)"
proof -
  have "depends_on id_of deps items = (\<Union>x \<in> set items. (\<lambda>d. (d, id_of x)) ` set (deps x))"
    by (auto simp: depends_on_def)
  then show ?thesis by simp
qed

text \<open>Once nothing is ready, the ids outside the result each wait for another such id.\<close>

lemma stuck_cyclic:
  assumes ok: "graph_ok id_of deps items" and inv: "topo_inv id_of deps items st" and stop: "tp_ready st = []"
    and ac: "acyclic (depends_on id_of deps items)"
  shows "set (tp_result st) = id_of ` set items"
proof (rule ccontr)
  let ?R = "id_of ` set items - set (tp_result st)"
  assume "set (tp_result st) \<noteq> id_of ` set items"
  then have "?R \<noteq> {}" using topo_inv_result(1) [OF inv] by auto
  moreover have "wf (depends_on id_of deps items)" using finite_acyclic_wf [OF finite_depends_on ac] .
  ultimately obtain i where i: "i \<in> ?R" and min: "\<And>d. (d, i) \<in> depends_on id_of deps items \<Longrightarrow> d \<notin> ?R"
    using wfE_min' [of "depends_on id_of deps items" ?R] by blast
  then obtain x where x: "x \<in> set items" "i = id_of x" by blast
  have "set (deps x) \<subseteq> id_of ` set items" using ok x by (auto simp: graph_ok_def list_all_iff)
  moreover have "d \<notin> ?R" if "d \<in> set (deps x)" for d using min that x by (auto simp: depends_on_def)
  ultimately have "open_dependencies (set (tp_result st)) (deps x) = 0" by (auto simp: open_dependencies_0)
  then have "tp_incoming st i = 0" using inv x by (simp add: topo_inv_def)
  then have "i \<in> set (tp_result st)" using inv stop x by (auto simp: topo_inv_def)
  then show False using i by simp
qed

lemma ordered_acyclic:
  assumes ok: "graph_ok id_of deps items" and d: "distinct rs" and all: "set rs = id_of ` set items"
    and after: "after_dependencies id_of deps items rs"
  shows "acyclic (depends_on id_of deps items)"
proof -
  let ?pos = "\<lambda>i. LEAST k. k < length rs \<and> rs ! k = i"
  have pos: "?pos (rs ! k) = k" if "k < length rs" for k
    using d that by (intro Least_equality) (auto simp: nth_eq_iff_index_eq)
  have "depends_on id_of deps items \<subseteq> measure ?pos"
  proof
    fix e assume "e \<in> depends_on id_of deps items"
    then obtain a x where e: "e = (a, id_of x)" "x \<in> set items" "a \<in> set (deps x)" by (auto simp: depends_on_def)
    then obtain k where k: "k < length rs" "rs ! k = id_of x" using all by (metis imageI in_set_conv_nth)
    then have "set (deps x) \<subseteq> set (take k rs)" using after e(2) by (simp add: after_dependencies_def)
    then have "a \<in> set (take k rs)" using e(3) by blast
    then obtain j where "j < k" "rs ! j = a" using k by (auto simp: in_set_conv_nth)
    then show "e \<in> measure ?pos" using pos [of j] pos [of k] k e by simp
  qed
  then show ?thesis using acyclic_subset wf_acyclic wf_measure by metis
qed

lemma lookup_item: "distinct (map id_of items) \<Longrightarrow> x \<in> set items \<Longrightarrow> lookup_item id_of items (id_of x) = x"
  using find_key_unique [of id_of items x] by (simp add: lookup_item_def)

lemma map_lookup_item:
  assumes d: "distinct (map id_of items)" and rs: "distinct rs" "set rs = id_of ` set items"
  shows "map id_of (map (lookup_item id_of items) rs) = rs" "mset (map (lookup_item id_of items) rs) = mset items"
proof -
  have "id_of (lookup_item id_of items i) = i" if "i \<in> set rs" for i
    using that rs(2) lookup_item [OF d] by auto
  then show eq: "map id_of (map (lookup_item id_of items) rs) = rs" by (simp add: map_idI)
  have "mset rs = mset (map id_of items)" using rs d by (metis list.set_map set_eq_iff_mset_eq_distinct)
  then have "mset (map (lookup_item id_of items) rs) = mset (map (lookup_item id_of items) (map id_of items))"
    by (metis mset_map)
  also have "map (lookup_item id_of items) (map id_of items) = items" using lookup_item [OF d] by (simp add: map_idI)
  finally show "mset (map (lookup_item id_of items) rs) = mset items" .
qed

lemma topological_order_ok:
  assumes ok: "graph_ok id_of deps items"
  shows "(case topological_order id_of deps items of
            None \<Rightarrow> False
          | Some (Inl _) \<Rightarrow> \<not> acyclic (depends_on id_of deps items)
          | Some (Inr r) \<Rightarrow> acyclic (depends_on id_of deps items) \<and> mset r = mset items \<and>
              after_dependencies id_of deps items (map id_of r))"
proof -
  obtain st where st: "while_option (\<lambda>st. tp_ready st \<noteq> []) (topo_step id_of deps items) (topo_start id_of deps items) = Some st"
    "topo_inv id_of deps items st" "tp_ready st = []" by (rule topo_loop [OF ok])
  let ?rs = "tp_result st"
  have chk: "check_ids id_of {} items = Inr ()" "check_items id_of deps (id_of ` set items) items = Inr ()"
    using ok checks_iff by blast+
  have d: "distinct (map id_of items)" using ok by (simp add: graph_ok_def)
  have inv: "distinct ?rs" "after_dependencies id_of deps items ?rs" using st(2) by (simp_all add: topo_inv_def)
  have card: "card (id_of ` set items) = length items" using d by (metis distinct_card length_map list.set_map)
  have full: "length ?rs = length items \<longleftrightarrow> set ?rs = id_of ` set items"
    using inv(1) card topo_inv_result(1) [OF st(2)] card_subset_eq [of "id_of ` set items" "set ?rs"] distinct_card [of ?rs]
    by auto
  have res: "topological_order id_of deps items = Some (if length ?rs \<noteq> length items
      then Inl (ReasoningContractError ''dependency graph contains a cycle'') else Inr (map (lookup_item id_of items) ?rs))"
    by (simp add: topological_order_def chk st(1))
  show ?thesis
  proof (cases "length ?rs = length items")
    case True
    with full have all: "set ?rs = id_of ` set items" by simp
    then show ?thesis
      using True ordered_acyclic [OF ok inv(1) all inv(2)] map_lookup_item [OF d inv(1) all] inv(2) by (simp add: res)
  next
    case False
    then show ?thesis using full stuck_cyclic [OF ok st(2,3)] by (auto simp: res)
  qed
qed

lemma topological_order_spec:
  "(case topological_order id_of deps items of
      None \<Rightarrow> False
    | Some (Inl _) \<Rightarrow> \<not> (graph_ok id_of deps items \<and> acyclic (depends_on id_of deps items))
    | Some (Inr r) \<Rightarrow> graph_ok id_of deps items \<and> acyclic (depends_on id_of deps items) \<and> mset r = mset items \<and>
        after_dependencies id_of deps items (map id_of r))"
proof (cases "graph_ok id_of deps items")
  case True
  then show ?thesis using topological_order_ok [OF True] by (simp split: option.splits sum.splits)
next
  case False
  then have "check_ids id_of {} items \<noteq> Inr () \<or> check_items id_of deps (id_of ` set items) items \<noteq> Inr ()"
    using checks_iff by blast
  then show ?thesis using False by (auto simp: topological_order_def split: sum.split)
qed


lemma topological_order_returns: "topological_order id_of deps items \<noteq> None"
  using topological_order_spec [of id_of deps items] by (auto split: option.splits)


text \<open>
  C16: the order of work items.  Ordering always returns.  It raises exactly when an id or a
  dependency is repeated, a dependency is unknown or the item itself, or the dependencies have a
  cycle; otherwise it returns all items, each once, every item after all its dependencies.
\<close>

theorem topological_order_correct:
  "(case topological_order id_of deps items of
      None \<Rightarrow> False
    | Some (Inl _) \<Rightarrow> \<not> (graph_ok id_of deps items \<and> acyclic (depends_on id_of deps items))
    | Some (Inr r) \<Rightarrow> graph_ok id_of deps items \<and> acyclic (depends_on id_of deps items) \<and> mset r = mset items \<and>
        after_dependencies id_of deps items (map id_of r))"
  by (rule topological_order_spec)

end
