(* ===== verification/Supervisor.thy ===== *)
theory Supervisor
  imports Task_Graph "HOL-Library.AList"
begin

text \<open>
  The supervisor pattern (\<open>app/coordination/patterns/common.py\<close>, \<open>supervisor_adapter.py\<close> and
  \<open>goal_tree_adapter.py\<close>): work items with dependencies, executed in waves of at most
  \<open>maximum_parallel\<close> children, a checkpoint after every wave.  The callbacks (\<open>decompose\<close>,
  \<open>run_child\<close>, \<open>synthesize\<close>, the cancellation event) are parameters that act on a state
  \<open>'w\<close> of their own; the children of one wave are run in list order.  A loop that does not return is
  the value \<open>None\<close> of the \<open>partial_function\<close>.
\<close>

section \<open>Work items, states and the checkpoint store\<close>

datatype dw_status = DW_Pending | DW_Running | DW_Completed | DW_Failed | DW_Cancelled

record durable_work_item =
  dw_id :: string
  dw_summary :: string
  dw_dependencies :: "string list"
  dw_state :: dw_status
  dw_child_goal_id :: "string option"
  dw_result_reference :: "string option"
  dw_evidence_references :: "string list"
  dw_attempt :: nat

record durable_pattern_state =
  ps_session_id :: string
  ps_execution_id :: string
  ps_phase :: string
  ps_work_items :: "durable_work_item list"
  ps_synthesis_reference :: "string option"
  ps_synthesis_output :: "string option"
  ps_terminal_reason :: "string option"
  ps_checkpoint_version :: int

type_synonym checkpoints = "string \<times> string \<Rightarrow> durable_pattern_state option"

definition ordered_work_items :: "durable_work_item list \<Rightarrow> durable_work_item list result option" where
  "ordered_work_items items = topological_order dw_id dw_dependencies items"

definition save_checkpoint :: "durable_pattern_state \<Rightarrow> checkpoints \<Rightarrow> checkpoints" where
  "save_checkpoint st store = store((ps_session_id st, ps_execution_id st) \<mapsto> st)"

definition load_checkpoint :: "string \<Rightarrow> string \<Rightarrow> checkpoints \<Rightarrow> durable_pattern_state option" where
  "load_checkpoint sid eid store = store (sid, eid)"

section \<open>Waves\<close>

text \<open>The mapping a child returns; \<open>None\<close> is an absent key.\<close>

record child_result =
  ch_child_goal_id :: "string option"
  ch_result_reference :: "string option"
  ch_evidence_references :: "string list option"

definition clamp_parallel :: "int \<Rightarrow> nat" where
  "clamp_parallel maximum = nat (max 1 (min maximum 8))"

definition completed_ids :: "durable_work_item list \<Rightarrow> string set" where
  "completed_ids items = set (map dw_id (filter (\<lambda>x. dw_state x = DW_Completed) items))"

definition ready_items :: "nat \<Rightarrow> string set \<Rightarrow> durable_work_item list \<Rightarrow> durable_work_item list" where
  "ready_items m finished items =
     take m (filter (\<lambda>x. dw_state x = DW_Pending \<and> set (dw_dependencies x) \<subseteq> finished) items)"

fun gather_children :: "(durable_work_item \<Rightarrow> ('w, child_result) op) \<Rightarrow> durable_work_item list \<Rightarrow> 'w \<Rightarrow> child_result result list \<times> 'w" where
  "gather_children run_child [] w = ([], w)"
| "gather_children run_child (x # xs) w =
     (case run_child x w of (r, w1) \<Rightarrow> (case gather_children run_child xs w1 of (rs, w2) \<Rightarrow> (r # rs, w2)))"

fun settle_item :: "durable_work_item \<Rightarrow> child_result result \<Rightarrow> durable_work_item result" where
  "settle_item x (Inl _) = Inr (x\<lparr>dw_state := DW_Failed, dw_attempt := dw_attempt x + 1\<rparr>)"
| "settle_item x (Inr child) =
     (case ch_child_goal_id child of
        None \<Rightarrow> Inl (KeyError ''child_goal_id'')
      | Some g \<Rightarrow>
     (case ch_result_reference child of
        None \<Rightarrow> Inl (KeyError ''result_reference'')
      | Some ref \<Rightarrow> Inr (x\<lparr>dw_state := DW_Completed, dw_attempt := dw_attempt x + 1, dw_child_goal_id := Some g,
          dw_result_reference := Some ref,
          dw_evidence_references := (case ch_evidence_references child of None \<Rightarrow> [] | Some es \<Rightarrow> es)\<rparr>)))"

fun apply_results :: "(durable_work_item \<times> child_result result) list \<Rightarrow> string set \<Rightarrow> (string \<times> durable_work_item) list \<Rightarrow>
    (string set \<times> (string \<times> durable_work_item) list) result" where
  "apply_results [] finished by_id = Inr (finished, by_id)"
| "apply_results ((x, r) # ps) finished by_id =
     (case settle_item x r of
        Inl e \<Rightarrow> Inl e
      | Inr u \<Rightarrow> apply_results ps (if raised r then finished else insert (dw_id x) finished) (AList.update (dw_id x) u by_id))"

text \<open>The loop's variables and the checkpoint store beside the callbacks' state.\<close>

record wave_state =
  wv_state :: durable_pattern_state
  wv_completed :: "string set"
  wv_items :: "(string \<times> durable_work_item) list"

type_synonym supervisor_answer = "(durable_pattern_state \<times> string option) result"

definition supervisor_wave :: "nat \<Rightarrow> (durable_work_item \<Rightarrow> ('w, child_result) op) \<Rightarrow> ('w \<Rightarrow> bool) option \<Rightarrow>
    wave_state \<Rightarrow> checkpoints \<times> 'w \<Rightarrow> (supervisor_answer + wave_state) \<times> checkpoints \<times> 'w" where
  "supervisor_wave m run_child cancelled v sw =
     (case sw of (store, w) \<Rightarrow>
      let st = wv_state v in
      if cancelled \<noteq> None \<and> the cancelled w
      then (let stopped = st\<lparr>ps_phase := ''cancelled'', ps_terminal_reason := Some ''cancelled''\<rparr>
            in (Inl (Inr (stopped, None)), save_checkpoint stopped store, w))
      else
      let ready = ready_items m (wv_completed v) (ps_work_items st) in
      if ready = []
      then (let failed = st\<lparr>ps_phase := ''failed'', ps_terminal_reason := Some ''dependency_deadlock''\<rparr>
            in (Inl (Inr (failed, None)), save_checkpoint failed store, w))
      else
      case gather_children run_child ready w of (results, w1) \<Rightarrow>
      case apply_results (zip ready results) (wv_completed v) (wv_items v) of
        Inl e \<Rightarrow> (Inl (Inl e), store, w1)
      | Inr (finished, by_id) \<Rightarrow>
        let st1 = st\<lparr>ps_phase := ''executing'', ps_work_items := map (\<lambda>x. the (map_of by_id (dw_id x))) (ps_work_items st)\<rparr>;
            store1 = save_checkpoint st1 store in
        if list_ex (\<lambda>x. dw_state x = DW_Failed) (ps_work_items st1)
        then (let failed = st1\<lparr>ps_phase := ''failed'', ps_terminal_reason := Some ''child_failed''\<rparr>
              in (Inl (Inr (failed, None)), save_checkpoint failed store1, w1))
        else (Inr \<lparr>wv_state = st1, wv_completed = finished, wv_items = by_id\<rparr>, store1, w1))"

partial_function (option) supervisor_waves :: "nat \<Rightarrow> (durable_work_item \<Rightarrow> ('w, child_result) op) \<Rightarrow> ('w \<Rightarrow> bool) option \<Rightarrow>
    wave_state \<Rightarrow> checkpoints \<times> 'w \<Rightarrow> ((supervisor_answer + wave_state) \<times> checkpoints \<times> 'w) option" where
  "supervisor_waves m run_child cancelled v sw =
     (if card (wv_completed v) < length (wv_items v)
      then case supervisor_wave m run_child cancelled v sw of
             (Inl answer, sw1) \<Rightarrow> Some (Inl answer, sw1)
           | (Inr v1, sw1) \<Rightarrow> supervisor_waves m run_child cancelled v1 sw1
      else Some (Inr v, sw))"

declare supervisor_waves.simps [code]

definition items_by_id :: "durable_work_item list \<Rightarrow> (string \<times> durable_work_item) list" where
  "items_by_id items = fold (\<lambda>x m. AList.update (dw_id x) x m) items []"

definition start_waves :: "durable_pattern_state \<Rightarrow> wave_state" where
  "start_waves st = \<lparr>wv_state = st, wv_completed = completed_ids (ps_work_items st), wv_items = items_by_id (ps_work_items st)\<rparr>"

definition finish_supervisor :: "string \<Rightarrow> (durable_work_item list \<Rightarrow> ('w, string) op) \<Rightarrow>
    durable_pattern_state \<Rightarrow> checkpoints \<times> 'w \<Rightarrow> supervisor_answer \<times> checkpoints \<times> 'w" where
  "finish_supervisor eid synthesize st sw =
     (case sw of (store, w) \<Rightarrow>
      (case synthesize (ps_work_items st) w of
         (Inl e, w1) \<Rightarrow> (Inl e, store, w1)
       | (Inr answer, w1) \<Rightarrow>
           let final = st\<lparr>ps_phase := ''completed'', ps_synthesis_reference := Some (''result://'' @ eid),
                 ps_synthesis_output := Some (take 8000 answer)\<rparr>
           in (Inr (final, Some answer), save_checkpoint final store, w1)))"

definition begin_supervisor :: "string \<Rightarrow> string \<Rightarrow> string \<Rightarrow> (string \<Rightarrow> ('w, durable_work_item list) op) \<Rightarrow>
    checkpoints \<times> 'w \<Rightarrow> (durable_pattern_state result \<times> checkpoints \<times> 'w) option" where
  "begin_supervisor sid eid goal decompose sw =
     (case sw of (store, w) \<Rightarrow>
      (case decompose goal w of
         (Inl e, w1) \<Rightarrow> Some (Inl e, store, w1)
       | (Inr raw, w1) \<Rightarrow>
           (case ordered_work_items raw of
              None \<Rightarrow> None
            | Some (Inl e) \<Rightarrow> Some (Inl e, store, w1)
            | Some (Inr items) \<Rightarrow>
                let st = \<lparr>ps_session_id = sid, ps_execution_id = eid, ps_phase = ''decomposed'', ps_work_items = items,
                      ps_synthesis_reference = None, ps_synthesis_output = None, ps_terminal_reason = None,
                      ps_checkpoint_version = 1\<rparr>
                in Some (Inr st, save_checkpoint st store, w1))))"

definition run_supervisor :: "nat \<Rightarrow> string \<Rightarrow> (durable_work_item \<Rightarrow> ('w, child_result) op) \<Rightarrow> (durable_work_item list \<Rightarrow> ('w, string) op) \<Rightarrow>
    ('w \<Rightarrow> bool) option \<Rightarrow> durable_pattern_state \<Rightarrow> checkpoints \<times> 'w \<Rightarrow> (supervisor_answer \<times> checkpoints \<times> 'w) option" where
  "run_supervisor m eid run_child synthesize cancelled st sw =
     (case supervisor_waves m run_child cancelled (start_waves st) sw of
        None \<Rightarrow> None
      | Some (Inl answer, sw1) \<Rightarrow> Some (answer, sw1)
      | Some (Inr v, sw1) \<Rightarrow> Some (finish_supervisor eid synthesize (wv_state v) sw1))"

definition supervisor_execute :: "int \<Rightarrow> string \<Rightarrow> string \<Rightarrow> string \<Rightarrow> (string \<Rightarrow> ('w, durable_work_item list) op) \<Rightarrow>
    (durable_work_item \<Rightarrow> ('w, child_result) op) \<Rightarrow> (durable_work_item list \<Rightarrow> ('w, string) op) \<Rightarrow> ('w \<Rightarrow> bool) option \<Rightarrow>
    checkpoints \<times> 'w \<Rightarrow> (supervisor_answer \<times> checkpoints \<times> 'w) option" where
  "supervisor_execute maximum sid eid goal decompose run_child synthesize cancelled sw =
     (case load_checkpoint sid eid (fst sw) of
        Some st \<Rightarrow>
          if ps_phase st = ''completed'' then Some (Inr (st, ps_synthesis_output st), sw)
          else run_supervisor (clamp_parallel maximum) eid run_child synthesize cancelled st sw
      | None \<Rightarrow>
          (case begin_supervisor sid eid goal decompose sw of
             None \<Rightarrow> None
           | Some (Inl e, sw1) \<Rightarrow> Some (Inl e, sw1)
           | Some (Inr st, sw1) \<Rightarrow> run_supervisor (clamp_parallel maximum) eid run_child synthesize cancelled st sw1))"


section \<open>The loop's variables follow the checkpointed items\<close>

definition skeleton :: "durable_work_item list \<Rightarrow> (string \<times> string list) list" where
  "skeleton items = map (\<lambda>x. (dw_id x, dw_dependencies x)) items"

definition replace_item :: "durable_work_item \<Rightarrow> durable_work_item list \<Rightarrow> durable_work_item list" where
  "replace_item u items = map (\<lambda>x. if dw_id x = dw_id u then u else x) items"

definition entries :: "durable_work_item list \<Rightarrow> (string \<times> durable_work_item) list" where
  "entries items = map (\<lambda>x. (dw_id x, x)) items"

fun settle_all :: "(durable_work_item \<times> child_result result) list \<Rightarrow> durable_work_item list \<Rightarrow> durable_work_item list result" where
  "settle_all [] items = Inr items"
| "settle_all ((x, r) # ps) items = (case settle_item x r of Inl e \<Rightarrow> Inl e | Inr u \<Rightarrow> settle_all ps (replace_item u items))"

abbreviation pending :: "durable_work_item \<Rightarrow> bool" where
  "pending x \<equiv> dw_state x = DW_Pending"

lemma skeleton_ids: "skeleton xs = skeleton ys \<Longrightarrow> map dw_id xs = map dw_id ys"
proof -
  assume "skeleton xs = skeleton ys"
  then have "map fst (skeleton xs) = map fst (skeleton ys)" by simp
  then show ?thesis by (simp add: skeleton_def o_def)
qed

lemma graph_skeleton:
  "graph_ok dw_id dw_dependencies xs = graph_ok fst snd (skeleton xs)"
  "depends_on dw_id dw_dependencies xs = depends_on fst snd (skeleton xs)"
  by (auto simp: graph_ok_def depends_on_def skeleton_def list_all_iff o_def image_image)

lemma replace_item_skeleton:
  "\<lbrakk>distinct (map dw_id ys); x \<in> set ys; dw_id u = dw_id x; dw_dependencies u = dw_dependencies x\<rbrakk>
   \<Longrightarrow> skeleton (replace_item u ys) = skeleton ys"
  by (auto simp: skeleton_def replace_item_def distinct_map inj_on_def)

lemma set_replace_item: "x \<in> set ys \<Longrightarrow> dw_id u = dw_id x \<Longrightarrow> set (replace_item u ys) = insert u {y \<in> set ys. dw_id y \<noteq> dw_id u}"
  by (auto simp: replace_item_def image_iff)

lemma update_entries:
  "distinct (map dw_id ys) \<Longrightarrow> dw_id u \<in> dw_id ` set ys \<Longrightarrow> AList.update (dw_id u) u (entries ys) = entries (replace_item u ys)"
proof (induction ys)
  case (Cons y ys)
  show ?case
  proof (cases "dw_id y = dw_id u")
    case True
    then have "dw_id u \<notin> dw_id ` set ys" using Cons.prems(1) by simp
    then have "replace_item u ys = ys" unfolding replace_item_def by (intro map_idI) (metis image_eqI)
    then show ?thesis using True by (simp add: entries_def replace_item_def)
  next
    case False
    then show ?thesis using Cons by (auto simp: entries_def replace_item_def)
  qed
qed simp

lemma items_by_id_entries: "distinct (map dw_id ys) \<Longrightarrow> items_by_id ys = entries ys"
proof (induction ys rule: rev_induct)
  case (snoc y ys)
  then have "items_by_id ys = entries ys" "dw_id y \<notin> dw_id ` set ys" by auto
  then show ?case using alist_update_new [of "dw_id y" "entries ys" y]
    by (simp add: items_by_id_def entries_def image_image)
qed (simp add: items_by_id_def entries_def)

lemma lookup_entries:
  "distinct (map dw_id ys) \<Longrightarrow> map dw_id xs = map dw_id ys \<Longrightarrow> map (\<lambda>x. the (map_of (entries ys) (dw_id x))) xs = ys"
proof -
  assume d: "distinct (map dw_id ys)" and ids: "map dw_id xs = map dw_id ys"
  have "map_of (entries ys) (dw_id y) = Some y" if "y \<in> set ys" for y
    using that d by (intro map_of_is_SomeI) (auto simp: entries_def o_def)
  then have "map (\<lambda>y. the (map_of (entries ys) (dw_id y))) ys = ys" by (simp add: map_idI)
  moreover have "map (\<lambda>x. the (map_of (entries ys) (dw_id x))) xs = map (\<lambda>i. the (map_of (entries ys) i)) (map dw_id ys)"
    by (simp flip: ids)
  ultimately show ?thesis by (simp add: o_def)
qed

lemma completed_ids_iff: "i \<in> completed_ids ys \<longleftrightarrow> (\<exists>y \<in> set ys. dw_state y = DW_Completed \<and> dw_id y = i)"
  by (auto simp: completed_ids_def)

text \<open>Settling one child: its id and dependencies stay, its state tells whether the child raised.\<close>

lemma settle_item_ok:
  "settle_item x r = Inr u \<Longrightarrow> dw_id u = dw_id x \<and> dw_dependencies u = dw_dependencies x \<and>
     dw_state u = (if raised r then DW_Failed else DW_Completed)"
  by (cases "(x, r)" rule: settle_item.cases) (auto split: option.splits)

definition wave_ready :: "(durable_work_item \<times> child_result result) list \<Rightarrow> durable_work_item list \<Rightarrow> bool" where
  "wave_ready ps ys \<longleftrightarrow> distinct (map dw_id ys) \<and> distinct (map (dw_id \<circ> fst) ps) \<and> (\<forall>p \<in> set ps. fst p \<in> set ys \<and> pending (fst p))"

lemma wave_ready_tl:
  assumes w: "wave_ready ((x, r) # ps) ys" and s: "settle_item x r = Inr u"
  shows "wave_ready ps (replace_item u ys)" "skeleton (replace_item u ys) = skeleton ys"
    "set (replace_item u ys) = insert u {y \<in> set ys. dw_id y \<noteq> dw_id x}"
    "completed_ids (replace_item u ys) = (if raised r then completed_ids ys else insert (dw_id x) (completed_ids ys))"
proof -
  have x: "x \<in> set ys" "pending x" "distinct (map dw_id ys)" and ps: "\<forall>p \<in> set ps. fst p \<in> set ys \<and> pending (fst p) \<and> dw_id (fst p) \<noteq> dw_id x"
    and d: "distinct (map (dw_id \<circ> fst) ps)"
    using w by (auto simp: wave_ready_def image_iff)
  note u = settle_item_ok [OF s]
  show sk: "skeleton (replace_item u ys) = skeleton ys" using replace_item_skeleton x u by blast
  show st: "set (replace_item u ys) = insert u {y \<in> set ys. dw_id y \<noteq> dw_id x}" using set_replace_item [of x ys u] x u by simp
  show "wave_ready ps (replace_item u ys)"
    using skeleton_ids [OF sk] x(3) ps d by (auto simp: wave_ready_def st)
  have same: "y = x" if "y \<in> set ys" "dw_id y = dw_id x" for y using x that by (auto simp: distinct_map inj_on_def)
  have keep: "dw_id y \<noteq> dw_id x" if "y \<in> set ys" "dw_state y = DW_Completed" for y using same [of y] that x(2) by auto
  show "completed_ids (replace_item u ys) = (if raised r then completed_ids ys else insert (dw_id x) (completed_ids ys))"
  proof (cases "raised r")
    case True
    then have "dw_state u \<noteq> DW_Completed" using u by simp
    then show ?thesis using True keep unfolding set_eq_iff completed_ids_iff st by (auto simp: completed_ids_iff)
  next
    case False
    then have "dw_state u = DW_Completed" using u by simp
    then show ?thesis using False u keep unfolding set_eq_iff completed_ids_iff st by (auto simp: completed_ids_iff)
  qed
qed

lemma apply_results_settle:
  "wave_ready ps ys \<Longrightarrow> apply_results ps (completed_ids ys) (entries ys) =
     map_sum id (\<lambda>zs. (completed_ids zs, entries zs)) (settle_all ps ys)"
proof (induction ps arbitrary: ys)
  case (Cons p ps)
  obtain x r where p: "p = (x, r)" by fastforce
  show ?case
  proof (cases "settle_item x r")
    case (Inr u)
    note w = wave_ready_tl [OF Cons.prems [unfolded p] Inr]
    have "AList.update (dw_id x) u (entries ys) = entries (replace_item u ys)"
      using update_entries [of ys u] Cons.prems settle_item_ok [OF Inr] by (auto simp: wave_ready_def p)
    then show ?thesis using Cons.IH [OF w(1)] w(4) by (simp add: p Inr)
  qed (simp add: p)
qed simp

lemma settle_all_ok:
  "wave_ready ps ys \<Longrightarrow> settle_all ps ys = Inr zs \<Longrightarrow>
     skeleton zs = skeleton ys \<and>
     completed_ids zs = completed_ids ys \<union> {dw_id (fst p) | p. p \<in> set ps \<and> \<not> raised (snd p)} \<and>
     {z \<in> set zs. pending z} = {y \<in> set ys. pending y \<and> dw_id y \<notin> (dw_id \<circ> fst) ` set ps} \<and>
     ((\<exists>z \<in> set zs. dw_state z = DW_Failed) \<longleftrightarrow> (\<exists>y \<in> set ys. dw_state y = DW_Failed) \<or> (\<exists>p \<in> set ps. raised (snd p)))"
proof (induction ps arbitrary: ys)
  case (Cons p ps)
  obtain x r where p: "p = (x, r)" by fastforce
  obtain u where u: "settle_item x r = Inr u" using Cons.prems(2) by (cases "settle_item x r") (auto simp: p)
  note w = wave_ready_tl [OF Cons.prems(1) [unfolded p] u]
  have x: "x \<in> set ys" "pending x" and same: "\<And>y. y \<in> set ys \<Longrightarrow> dw_id y = dw_id x \<Longrightarrow> y = x"
    using Cons.prems(1) by (auto simp: wave_ready_def p distinct_map inj_on_def)
  have "settle_all ps (replace_item u ys) = Inr zs" using Cons.prems(2) u by (simp add: p)
  note ih = Cons.IH [OF w(1) this]
  have u_state: "\<not> pending u" "dw_state u = DW_Failed \<longleftrightarrow> raised r" "dw_id u = dw_id x" using settle_item_ok [OF u] by simp_all
  have "{z \<in> set zs. pending z} = {y \<in> set (replace_item u ys). pending y \<and> dw_id y \<notin> (dw_id \<circ> fst) ` set ps}"
    using ih by blast
  then have "{z \<in> set zs. pending z} = {y \<in> set ys. pending y \<and> dw_id y \<notin> (dw_id \<circ> fst) ` set (p # ps)}"
    using u_state by (auto simp: w(3) p)
  moreover have "(\<exists>z \<in> set zs. dw_state z = DW_Failed) \<longleftrightarrow>
      (\<exists>y \<in> set ys. dw_state y = DW_Failed) \<or> (\<exists>q \<in> set (p # ps). raised (snd q))"
  proof -
    have "(\<exists>z \<in> set zs. dw_state z = DW_Failed) \<longleftrightarrow> (\<exists>y \<in> set (replace_item u ys). dw_state y = DW_Failed) \<or> (\<exists>p \<in> set ps. raised (snd p))"
      using ih by blast
    moreover have "dw_id y \<noteq> dw_id x" if "y \<in> set ys" "dw_state y = DW_Failed" for y using same [of y] that x(2) by auto
    ultimately show ?thesis using u_state by (auto simp: w(3) p)
  qed
  moreover have "completed_ids zs = completed_ids ys \<union> {dw_id (fst q) | q. q \<in> set (p # ps) \<and> \<not> raised (snd q)}"
  proof -
    have "completed_ids zs = completed_ids (replace_item u ys) \<union> {dw_id (fst p) | p. p \<in> set ps \<and> \<not> raised (snd p)}"
      using ih by blast
    then show ?thesis by (auto simp: w(4) p)
  qed
  ultimately show ?case using ih w(2) by simp
qed simp

lemma gather_length: "gather_children run_child xs w = (rs, w') \<Longrightarrow> length rs = length xs"
  by (induction xs arbitrary: w rs w') (auto split: prod.splits)

lemma ready_zip:
  assumes "distinct (map dw_id ys)" "length rs = length (ready_items m finished ys)"
  shows "wave_ready (zip (ready_items m finished ys) rs) ys"
proof -
  let ?rd = "ready_items m finished ys"
  have "map (dw_id \<circ> fst) (zip ?rd rs) = map dw_id ?rd" using assms(2) by (metis map_fst_zip map_map)
  moreover have "distinct (map dw_id ?rd)"
    using assms(1) by (simp add: ready_items_def take_map [symmetric] distinct_map_filter)
  ultimately show ?thesis
    using assms(1) by (auto simp: wave_ready_def ready_items_def dest!: set_zip_leftD in_set_takeD)
qed


section \<open>One wave and the whole loop\<close>

definition cancel_requested :: "('w \<Rightarrow> bool) option \<Rightarrow> 'w \<Rightarrow> bool" where
  "cancel_requested cancelled w \<longleftrightarrow> cancelled \<noteq> None \<and> the cancelled w"

definition with_items :: "durable_work_item list \<Rightarrow> durable_pattern_state \<Rightarrow> durable_pattern_state" where
  "with_items items st = st\<lparr>ps_phase := ''executing'', ps_work_items := items\<rparr>"

definition stopped_as :: "string \<Rightarrow> string \<Rightarrow> durable_pattern_state \<Rightarrow> durable_pattern_state" where
  "stopped_as phase reason st = st\<lparr>ps_phase := phase, ps_terminal_reason := Some reason\<rparr>"

lemma wave_eq:
  assumes d: "distinct (map dw_id (ps_work_items st))"
  shows "supervisor_wave m run_child cancelled (start_waves st) (store, w) =
    (let ready = ready_items m (completed_ids (ps_work_items st)) (ps_work_items st) in
     if cancel_requested cancelled w
     then (Inl (Inr (stopped_as ''cancelled'' ''cancelled'' st, None)), save_checkpoint (stopped_as ''cancelled'' ''cancelled'' st) store, w)
     else if ready = []
     then (Inl (Inr (stopped_as ''failed'' ''dependency_deadlock'' st, None)),
           save_checkpoint (stopped_as ''failed'' ''dependency_deadlock'' st) store, w)
     else case gather_children run_child ready w of (rs, w1) \<Rightarrow>
       (case settle_all (zip ready rs) (ps_work_items st) of
          Inl e \<Rightarrow> (Inl (Inl e), store, w1)
        | Inr items \<Rightarrow>
            if list_ex (\<lambda>x. dw_state x = DW_Failed) items
            then (Inl (Inr (stopped_as ''failed'' ''child_failed'' (with_items items st), None)),
              save_checkpoint (stopped_as ''failed'' ''child_failed'' (with_items items st)) (save_checkpoint (with_items items st) store), w1)
            else (Inr (start_waves (with_items items st)), save_checkpoint (with_items items st) store, w1)))"
proof -
  let ?ys = "ps_work_items st"
  let ?rd = "ready_items m (completed_ids ?ys) ?ys"
  obtain rs w1 where g: "gather_children run_child ?rd w = (rs, w1)" by fastforce
  have wr: "wave_ready (zip ?rd rs) ?ys" using ready_zip [OF d gather_length [OF g]] .
  note ap = apply_results_settle [OF wr]
  have "distinct (map dw_id zs)" "map dw_id zs = map dw_id ?ys" if "settle_all (zip ?rd rs) ?ys = Inr zs" for zs
    using settle_all_ok [OF wr that] skeleton_ids d by metis+
  note z = this
  have look: "map (\<lambda>x. the (map_of (entries zs) (dw_id x))) ?ys = zs" if "settle_all (zip ?rd rs) ?ys = Inr zs" for zs
    using lookup_entries z [OF that] by metis
  show ?thesis
    by (cases "settle_all (zip ?rd rs) ?ys")
      (simp_all add: supervisor_wave_def start_waves_def Let_def cancel_requested_def stopped_as_def with_items_def g ap
        items_by_id_entries d z look)
qed

lemma waves_pending_less:
  assumes d: "distinct (map dw_id (ps_work_items st))"
    and "supervisor_wave m run_child cancelled (start_waves st) (store, w) = (Inr v, sw1)"
  obtains rs w1 items where "gather_children run_child (ready_items m (completed_ids (ps_work_items st)) (ps_work_items st)) w = (rs, w1)"
    "v = start_waves (with_items items st)" "sw1 = (save_checkpoint (with_items items st) store, w1)"
    "settle_all (zip (ready_items m (completed_ids (ps_work_items st)) (ps_work_items st)) rs) (ps_work_items st) = Inr items"
    "ready_items m (completed_ids (ps_work_items st)) (ps_work_items st) \<noteq> []"
    "\<not> list_ex (\<lambda>x. dw_state x = DW_Failed) items"
  using assms(2) unfolding wave_eq [OF d]
  by (auto simp: Let_def split: if_splits prod.splits sum.splits)

lemma settle_pending_less:
  assumes w: "wave_ready ps ys" and s: "settle_all ps ys = Inr zs" and ne: "ps \<noteq> []"
  shows "card {z \<in> set zs. pending z} < card {y \<in> set ys. pending y}"
proof (rule psubset_card_mono)
  obtain x r qs where "ps = (x, r) # qs" using ne by (cases ps) auto
  then have "x \<in> {y \<in> set ys. pending y}" "x \<notin> {y \<in> set ys. pending y \<and> dw_id y \<notin> (dw_id \<circ> fst) ` set ps}"
    using w by (auto simp: wave_ready_def)
  then show "{z \<in> set zs. pending z} \<subset> {y \<in> set ys. pending y}" using settle_all_ok [OF w s] by blast
qed simp

text \<open>
  The loop ends: a wave that goes on leaves fewer pending items.  So a property that every wave
  keeps holds of what the loop returns.
\<close>

lemma waves_rule:
  assumes "distinct (map dw_id (ps_work_items st))" "J st store w"
    and step: "\<And>st store w v store1 w1. \<lbrakk>distinct (map dw_id (ps_work_items st)); J st store w; card (completed_ids (ps_work_items st)) < length (ps_work_items st);
        supervisor_wave m run_child cancelled (start_waves st) (store, w) = (Inr v, store1, w1)\<rbrakk> \<Longrightarrow> J (wv_state v) store1 w1"
    and stop: "\<And>st store w answer store1 w1. \<lbrakk>distinct (map dw_id (ps_work_items st)); J st store w; card (completed_ids (ps_work_items st)) < length (ps_work_items st);
        supervisor_wave m run_child cancelled (start_waves st) (store, w) = (Inl answer, store1, w1)\<rbrakk> \<Longrightarrow> Q (Inl answer) store1 w1"
    and leave: "\<And>st store w. \<lbrakk>distinct (map dw_id (ps_work_items st)); J st store w;
        \<not> card (completed_ids (ps_work_items st)) < length (ps_work_items st)\<rbrakk> \<Longrightarrow> Q (Inr st) store w"
  shows "\<exists>r store1 w1. supervisor_waves m run_child cancelled (start_waves st) (store, w) = Some (r, store1, w1) \<and> Q (map_sum id wv_state r) store1 w1"
  using assms(1,2)
proof (induction "card {y \<in> set (ps_work_items st). pending y}" arbitrary: st store w rule: less_induct)
  case less
  note d = less.prems(1) and J = less.prems(2)
  have len: "length (wv_items (start_waves st)) = length (ps_work_items st)" "wv_completed (start_waves st) = completed_ids (ps_work_items st)"
    "wv_state (start_waves st) = st"
    by (simp_all add: start_waves_def items_by_id_entries [OF d] entries_def)
  show ?case
  proof (cases "card (completed_ids (ps_work_items st)) < length (ps_work_items st)")
    case False
    then show ?thesis using leave [OF d J] by (subst supervisor_waves.simps) (simp add: len)
  next
    case guard: True
    obtain r sw1 where wave: "supervisor_wave m run_child cancelled (start_waves st) (store, w) = (r, sw1)"
      by (metis surj_pair)
    obtain store1 w1 where sw1: "sw1 = (store1, w1)" by (metis surj_pair)
    show ?thesis
    proof (cases r)
      case (Inl answer)
      then show ?thesis using stop [OF d J guard, of answer] wave sw1 guard by (subst supervisor_waves.simps) (simp add: len)
    next
      case (Inr v)
      let ?rd = "ready_items m (completed_ids (ps_work_items st)) (ps_work_items st)"
      obtain rs w2 items where o: "gather_children run_child ?rd w = (rs, w2)" "v = start_waves (with_items items st)"
        "settle_all (zip ?rd rs) (ps_work_items st) = Inr items" "?rd \<noteq> []"
        using waves_pending_less [OF d wave [unfolded Inr]] by metis
      have wr: "wave_ready (zip ?rd rs) (ps_work_items st)" using ready_zip [OF d gather_length [OF o(1)]] .
      have "zip ?rd rs \<noteq> []" using gather_length [OF o(1)] o(4) by (cases rs) auto
      then have fewer: "card {y \<in> set (ps_work_items (with_items items st)). pending y} < card {y \<in> set (ps_work_items st). pending y}"
        using settle_pending_less [OF wr o(3)] by (simp add: with_items_def)
      have d': "distinct (map dw_id (ps_work_items (with_items items st)))"
        using settle_all_ok [OF wr o(3)] skeleton_ids [of items "ps_work_items st"] d by (simp add: with_items_def)
      have "J (with_items items st) store1 w1" using step [OF d J guard] wave Inr sw1 o(2) by (simp add: start_waves_def)
      then show ?thesis using less.hyps [OF fewer d'] guard wave sw1 Inr o(2)
        by (subst supervisor_waves.simps) (simp add: len)
    qed
  qed
qed

end
