(* ===== verification/Supervisor_Order.thy ===== *)
theory Supervisor_Order
  imports Supervisor
begin

text \<open>
  What the supervisor's waves do with the children: the calls of \<open>run_child\<close> are recorded by an
  instrumented callback, and the record shows that each child is run at most once, after its
  dependencies, never again after a restart, and (when children succeed) that all of them are run.
\<close>

section \<open>Recorded calls\<close>

type_synonym calls = "(durable_work_item \<times> child_result result) list"

definition logged :: "(durable_work_item \<Rightarrow> ('w, child_result) op) \<Rightarrow> durable_work_item \<Rightarrow> ('w \<times> calls, child_result) op" where
  "logged run_child x s = (case run_child x (fst s) of (r, w1) \<Rightarrow> (r, w1, snd s @ [(x, r)]))"

definition silent :: "('a \<Rightarrow> ('w, 'b) op) \<Rightarrow> 'a \<Rightarrow> ('w \<times> calls, 'b) op" where
  "silent f x s = (case f x (fst s) of (r, w1) \<Rightarrow> (r, w1, snd s))"

definition succeeded :: "calls \<Rightarrow> string set" where
  "succeeded cs = set (map (dw_id \<circ> fst) (filter (\<lambda>p. \<not> raised (snd p)) cs))"

definition called :: "calls \<Rightarrow> string set" where
  "called cs = set (map (dw_id \<circ> fst) cs)"

definition calls_in_order :: "string set \<Rightarrow> calls \<Rightarrow> bool" where
  "calls_in_order finished cs \<longleftrightarrow> distinct (map (dw_id \<circ> fst) cs) \<and>
     (\<forall>k < length cs. dw_id (fst (cs ! k)) \<notin> finished \<and>
        set (dw_dependencies (fst (cs ! k))) \<subseteq> finished \<union> succeeded (take k cs))"

lemma succeeded_append [simp]: "succeeded (xs @ ys) = succeeded xs \<union> succeeded ys"
  by (simp add: succeeded_def image_Un)

lemma called_append [simp]: "called (xs @ ys) = called xs \<union> called ys"
  by (simp add: called_def image_Un)

lemma succeeded_called: "succeeded cs \<subseteq> called cs"
  by (auto simp: succeeded_def called_def)

lemma succeeded_Collect: "succeeded ps = {dw_id (fst p) | p. p \<in> set ps \<and> \<not> raised (snd p)}"
  unfolding succeeded_def setcompr_eq_image by (simp add: comp_def)

lemma gather_logged:
  "gather_children (logged f) xs (w, cs) = (case gather_children f xs w of (rs, w1) \<Rightarrow> (rs, w1, cs @ zip xs rs))"
  by (induction xs arbitrary: w cs) (auto simp: logged_def split: prod.splits)

lemma calls_fresh: "calls_in_order finished cs \<Longrightarrow> called cs \<inter> finished = {}"
proof -
  assume c: "calls_in_order finished cs"
  have "dw_id (fst p) \<notin> finished" if "p \<in> set cs" for p
    using c that by (auto simp only: calls_in_order_def in_set_conv_nth)
  then show ?thesis by (auto simp: called_def)
qed

lemma calls_in_order_append:
  assumes "calls_in_order finished cs" "distinct (map (dw_id \<circ> fst) new)" "called new \<inter> (called cs \<union> finished) = {}"
    and "\<And>p. p \<in> set new \<Longrightarrow> set (dw_dependencies (fst p)) \<subseteq> finished \<union> succeeded cs"
  shows "calls_in_order finished (cs @ new)"
  unfolding calls_in_order_def
proof (intro conjI allI impI)
  show "distinct (map (dw_id \<circ> fst) (cs @ new))" using assms(1-3) by (auto simp: calls_in_order_def called_def)
  fix k assume k: "k < length (cs @ new)"
  let ?p = "(cs @ new) ! k"
  show "dw_id (fst ?p) \<notin> finished"
    using assms(1,3) k by (auto simp: calls_in_order_def called_def nth_append disjoint_iff)
  show "set (dw_dependencies (fst ?p)) \<subseteq> finished \<union> succeeded (take k (cs @ new))"
  proof (cases "k < length cs")
    case True
    then show ?thesis using assms(1) by (simp add: calls_in_order_def nth_append)
  next
    case False
    then have "?p \<in> set new" using k by (simp add: nth_append)
    then show ?thesis using assms(4) [of ?p] False by auto
  qed
qed

text \<open>Settling results of children that did not raise only completes items.\<close>

lemma settle_states:
  "wave_ready ps ys \<Longrightarrow> settle_all ps ys = Inr zs \<Longrightarrow> \<forall>p \<in> set ps. \<not> raised (snd p) \<Longrightarrow>
   z \<in> set zs \<Longrightarrow> dw_state z = DW_Completed \<or> z \<in> set ys"
proof (induction ps arbitrary: ys)
  case (Cons p ps)
  obtain x r where p: "p = (x, r)" by fastforce
  obtain u where u: "settle_item x r = Inr u" using Cons.prems(2) by (cases "settle_item x r") (auto simp: p)
  note w = wave_ready_tl [OF Cons.prems(1) [unfolded p] u]
  have "dw_state u = DW_Completed" using settle_item_ok [OF u] Cons.prems(3) by (simp add: p)
  then show ?case using Cons.IH [OF w(1)] Cons.prems u by (auto simp: p w(3))
qed simp

section \<open>Every wave calls children in order\<close>

definition log_inv :: "string set \<Rightarrow> durable_pattern_state \<Rightarrow> calls \<Rightarrow> bool" where
  "log_inv finished st cs \<longleftrightarrow> calls_in_order finished cs \<and> completed_ids (ps_work_items st) = finished \<union> succeeded cs \<and>
     (\<forall>y \<in> set (ps_work_items st). pending y \<longrightarrow> dw_id y \<notin> called cs) \<and> called cs \<subseteq> dw_id ` set (ps_work_items st)"

lemma log_invD:
  assumes "log_inv finished st cs"
  shows "calls_in_order finished cs" "completed_ids (ps_work_items st) = finished \<union> succeeded cs" "called cs \<subseteq> dw_id ` set (ps_work_items st)"
  using assms by (simp_all add: log_inv_def)

lemma skeleton_id_set: "skeleton xs = skeleton ys \<Longrightarrow> dw_id ` set xs = dw_id ` set ys"
  using skeleton_ids by (metis list.set_map)

lemma log_inv_start: "log_inv (completed_ids (ps_work_items st)) st []"
  by (simp add: log_inv_def calls_in_order_def succeeded_def called_def)

lemma ready_items_in:
  "x \<in> set (ready_items m finished ys) \<Longrightarrow> x \<in> set ys \<and> pending x \<and> set (dw_dependencies x) \<subseteq> finished"
  using in_set_takeD [of x m "filter (\<lambda>x. pending x \<and> set (dw_dependencies x) \<subseteq> finished) ys"] by (simp add: ready_items_def)

lemma called_zip: "length rs = length xs \<Longrightarrow> called (zip xs rs) = dw_id ` set xs"
  unfolding called_def by (metis list.set_map map_fst_zip map_map)

lemma ready_calls:
  assumes d: "distinct (map dw_id (ps_work_items st))" and inv: "log_inv finished st cs"
    and len: "length rs = length (ready_items m (completed_ids (ps_work_items st)) (ps_work_items st))"
  shows "calls_in_order finished (cs @ zip (ready_items m (completed_ids (ps_work_items st)) (ps_work_items st)) rs)"
proof (rule calls_in_order_append)
  let ?rd = "ready_items m (completed_ids (ps_work_items st)) (ps_work_items st)"
  show "calls_in_order finished cs" using inv by (simp add: log_inv_def)
  show "distinct (map (dw_id \<circ> fst) (zip ?rd rs))" using ready_zip [OF d len] by (simp add: wave_ready_def)
  have "dw_id x \<notin> completed_ids (ps_work_items st)" if "x \<in> set ?rd" for x
  proof
    assume "dw_id x \<in> completed_ids (ps_work_items st)"
    then obtain y where "y \<in> set (ps_work_items st)" "dw_state y = DW_Completed" "dw_id y = dw_id x"
      by (auto simp: completed_ids_iff)
    then show False using d ready_items_in [OF that] by (auto simp: distinct_map inj_on_def)
  qed
  then have "dw_id x \<notin> finished" "dw_id x \<notin> called cs" if "x \<in> set ?rd" for x
    using that inv ready_items_in [OF that] unfolding log_inv_def by blast+
  then show "called (zip ?rd rs) \<inter> (called cs \<union> finished) = {}" by (auto simp: called_zip [OF len])
  show "set (dw_dependencies (fst p)) \<subseteq> finished \<union> succeeded cs" if "p \<in> set (zip ?rd rs)" for p
  proof -
    have "fst p \<in> set ?rd" using that by (metis prod.collapse set_zip_leftD)
    then show ?thesis using ready_items_in inv unfolding log_inv_def by blast
  qed
qed

lemma wave_logged:
  assumes d: "distinct (map dw_id (ps_work_items st))" and inv: "log_inv finished st cs"
    and wave: "supervisor_wave m (logged f) cancelled (start_waves st) (store, w, cs) = (r, store1, w1, cs1)"
  shows "calls_in_order finished cs1 \<and> (\<forall>v. r = Inr v \<longrightarrow> log_inv finished (wv_state v) cs1)"
proof -
  let ?ys = "ps_work_items st"
  let ?rd = "ready_items m (completed_ids ?ys) ?ys"
  obtain rs w2 where g: "gather_children f ?rd w = (rs, w2)" by fastforce
  note len = gather_length [OF g]
  note new = ready_calls [OF d inv len]
  have old: "calls_in_order finished cs" using inv by (simp add: log_inv_def)
  have next_inv: "log_inv finished (with_items zs st) (cs @ zip ?rd rs)" if s: "settle_all (zip ?rd rs) ?ys = Inr zs" for zs
  proof -
    note ok = settle_all_ok [OF ready_zip [OF d len] s]
    have "completed_ids zs = finished \<union> succeeded (cs @ zip ?rd rs)"
      using ok inv unfolding log_inv_def succeeded_append succeeded_Collect [of "zip ?rd rs"] by blast
    moreover have "y \<in> set ?ys \<and> pending y \<and> dw_id y \<notin> called (zip ?rd rs)" if "y \<in> set zs" "pending y" for y
      using ok that unfolding called_def set_map by blast
    then have "\<forall>y \<in> set zs. pending y \<longrightarrow> dw_id y \<notin> called (cs @ zip ?rd rs)"
      using inv unfolding log_inv_def called_append by blast
    moreover have "called (cs @ zip ?rd rs) \<subseteq> dw_id ` set zs"
    proof -
      have "dw_id ` set zs = dw_id ` set ?ys" using ok by (intro skeleton_id_set) (rule conjunct1)
      moreover have "called cs \<subseteq> dw_id ` set ?ys" using inv by (simp only: log_inv_def)
      moreover have "dw_id ` set ?rd \<subseteq> dw_id ` set ?ys" using ready_items_in by (intro image_mono subsetI) metis
      ultimately show ?thesis by (simp only: called_append called_zip [OF len] Un_least)
    qed
    ultimately show ?thesis using new by (simp add: log_inv_def with_items_def)
  qed
  have st: "wv_state (start_waves st') = st'" for st' by (simp add: start_waves_def)
  consider "cancel_requested cancelled (w, cs) \<or> ?rd = []" | "\<not> cancel_requested cancelled (w, cs)" "?rd \<noteq> []" by blast
  then show ?thesis
  proof cases
    case 1
    then show ?thesis using wave old unfolding wave_eq [OF d] by (auto simp: Let_def split: if_splits)
  next
    case 2
    note wave' = wave [unfolded wave_eq [OF d] Let_def gather_logged g if_not_P [OF 2(1)] if_not_P [OF 2(2)] prod.case]
    show ?thesis
    proof (cases "settle_all (zip ?rd rs) ?ys")
      case (Inl e)
      then show ?thesis using wave' new by auto
    next
      case (Inr zs)
      show ?thesis using wave' new next_inv [OF Inr] st unfolding Inr by (auto split: if_splits)
    qed
  qed
qed


section \<open>Children that succeed\<close>

text \<open>Work that can be finished: a well-formed acyclic graph whose items are pending or completed.\<close>

definition runnable :: "durable_work_item list \<Rightarrow> bool" where
  "runnable items \<longleftrightarrow> graph_ok dw_id dw_dependencies items \<and> acyclic (depends_on dw_id dw_dependencies items) \<and>
     list_all (\<lambda>x. dw_state x \<in> {DW_Pending, DW_Completed}) items"

definition well_formed_child :: "child_result \<Rightarrow> bool" where
  "well_formed_child child \<longleftrightarrow> ch_child_goal_id child \<noteq> None \<and> ch_result_reference child \<noteq> None"

definition succeeds :: "('w, 'a) op \<Rightarrow> ('a \<Rightarrow> bool) \<Rightarrow> bool" where
  "succeeds f P \<longleftrightarrow> (\<forall>w. \<exists>x w1. f w = (Inr x, w1) \<and> P x)"

lemma settle_all_succeeds:
  "\<forall>p \<in> set ps. \<exists>child. snd p = Inr child \<and> well_formed_child child \<Longrightarrow> \<exists>zs. settle_all ps ys = Inr zs"
proof (induction ps arbitrary: ys)
  case (Cons p ps)
  then show ?case by (cases p) (auto simp: well_formed_child_def)
qed simp

lemma gather_succeeds:
  "(\<And>x. succeeds (f x) well_formed_child) \<Longrightarrow> gather_children f xs w = (rs, w1) \<Longrightarrow>
   \<forall>r \<in> set rs. \<exists>child. r = Inr child \<and> well_formed_child child"
proof (induction xs arbitrary: w rs w1)
  case (Cons x xs)
  obtain child w2 where f: "f x w = (Inr child, w2)" "well_formed_child child" using Cons.prems(1) [of x] unfolding succeeds_def by blast
  obtain rs' w3 where g: "gather_children f xs w2 = (rs', w3)" by fastforce
  then show ?case using Cons.IH [OF Cons.prems(1) g] Cons.prems(2) f by auto
qed simp

text \<open>An acyclic graph with unfinished items has a pending item whose dependencies are completed.\<close>

lemma runnable_ready:
  assumes run: "runnable ys" and m: "0 < m" and guard: "card (completed_ids ys) < length ys"
  shows "ready_items m (completed_ids ys) ys \<noteq> []"
proof -
  let ?P = "dw_id ` {y \<in> set ys. pending y}" and ?r = "depends_on dw_id dw_dependencies ys"
  have d: "distinct (map dw_id ys)" and dep: "\<And>y. y \<in> set ys \<Longrightarrow> set (dw_dependencies y) \<subseteq> dw_id ` set ys"
    and st: "\<And>y. y \<in> set ys \<Longrightarrow> pending y \<or> dw_state y = DW_Completed"
    using run by (auto simp: runnable_def graph_ok_def list_all_iff)
  have "?P \<noteq> {}"
  proof
    assume "?P = {}"
    then have "completed_ids ys = dw_id ` set ys" using st by (auto simp: completed_ids_def)
    then show False using guard d by (metis distinct_card length_map list.set_map less_irrefl)
  qed
  moreover have "wf ?r" by (rule finite_acyclic_wf [OF finite_depends_on]) (use run in \<open>simp add: runnable_def\<close>)
  ultimately obtain i where i: "i \<in> ?P" and min: "\<And>j. (j, i) \<in> ?r \<Longrightarrow> j \<notin> ?P" using wfE_min' [of ?r ?P] by blast
  then obtain y where y: "y \<in> set ys" "pending y" "dw_id y = i" by blast
  have "j \<in> completed_ids ys" if j: "j \<in> set (dw_dependencies y)" for j
  proof -
    obtain z where z: "z \<in> set ys" "dw_id z = j" using dep [OF y(1)] j by auto
    moreover have "j \<notin> ?P" using min [of j] y j by (auto simp: depends_on_def)
    ultimately show ?thesis using st [of z] by (auto simp: completed_ids_iff)
  qed
  then have "filter (\<lambda>x. pending x \<and> set (dw_dependencies x) \<subseteq> completed_ids ys) ys \<noteq> []"
    using y by (auto simp: filter_empty_conv)
  then show ?thesis using m by (simp add: ready_items_def)
qed

lemma settle_runnable:
  assumes run: "runnable ys" and w: "wave_ready ps ys" and s: "settle_all ps ys = Inr zs" and ok: "\<forall>p \<in> set ps. \<not> raised (snd p)"
  shows "runnable zs" "skeleton zs = skeleton ys"
proof -
  note o = settle_all_ok [OF w s]
  show sk: "skeleton zs = skeleton ys" using o by blast
  have "\<forall>z \<in> set zs. dw_state z \<in> {DW_Pending, DW_Completed}"
    using settle_states [OF w s ok] run by (auto simp: runnable_def list_all_iff)
  then show "runnable zs" using run sk by (simp add: runnable_def list_all_iff graph_skeleton)
qed


section \<open>Whole executions\<close>

text \<open>The items an execution starts from: the checkpoint's, or the goal's decomposition.\<close>

definition starting_items :: "string \<Rightarrow> string \<Rightarrow> string \<Rightarrow> (string \<Rightarrow> ('w, durable_work_item list) op) \<Rightarrow> checkpoints \<Rightarrow> 'w \<Rightarrow> durable_work_item list" where
  "starting_items sid eid goal decompose store w =
     (case load_checkpoint sid eid store of
        Some st \<Rightarrow> ps_work_items st
      | None \<Rightarrow> (case fst (decompose goal w) of Inl _ \<Rightarrow> [] | Inr raw \<Rightarrow> raw))"

definition unlogged_event :: "('w \<Rightarrow> bool) option \<Rightarrow> ('w \<times> calls \<Rightarrow> bool) option" where
  "unlogged_event cancelled = map_option (\<lambda>c. c \<circ> fst) cancelled"

definition supervised_run :: "int \<Rightarrow> string \<Rightarrow> string \<Rightarrow> string \<Rightarrow> (string \<Rightarrow> ('w, durable_work_item list) op) \<Rightarrow>
    (durable_work_item \<Rightarrow> ('w, child_result) op) \<Rightarrow> (durable_work_item list \<Rightarrow> ('w, string) op) \<Rightarrow> ('w \<Rightarrow> bool) option \<Rightarrow>
    checkpoints \<Rightarrow> 'w \<Rightarrow> (supervisor_answer \<times> checkpoints \<times> 'w \<times> calls) option" where
  "supervised_run maximum sid eid goal decompose run_child synthesize cancelled store w =
     supervisor_execute maximum sid eid goal (silent decompose) (logged run_child) (silent synthesize)
       (unlogged_event cancelled) (store, w, [])"

lemma finish_silent:
  "finish_supervisor eid (silent synthesize) st (store, w, cs) =
     (case finish_supervisor eid synthesize st (store, w) of (r, store1, w1) \<Rightarrow> (r, store1, w1, cs))"
  by (simp add: finish_supervisor_def silent_def Let_def split: prod.split sum.split)

definition stored_ok :: "checkpoints \<Rightarrow> bool" where
  "stored_ok store \<longleftrightarrow> (\<forall>key st. store key = Some st \<longrightarrow> distinct (map dw_id (ps_work_items st)))"

lemma stored_ok_save: "stored_ok store \<Longrightarrow> distinct (map dw_id (ps_work_items st)) \<Longrightarrow> stored_ok (save_checkpoint st store)"
  by (simp add: stored_ok_def save_checkpoint_def)

lemma wave_stored:
  assumes d: "distinct (map dw_id (ps_work_items st))" and ok: "stored_ok store"
    and wave: "supervisor_wave m f cancelled (start_waves st) (store, w) = (r, store1, w1)"
  shows "stored_ok store1"
proof -
  let ?ys = "ps_work_items st"
  let ?rd = "ready_items m (completed_ids ?ys) ?ys"
  obtain rs w2 where g: "gather_children f ?rd w = (rs, w2)" by fastforce
  have new: "distinct (map dw_id zs)" if "settle_all (zip ?rd rs) ?ys = Inr zs" for zs
    using settle_all_ok [OF ready_zip [OF d gather_length [OF g]] that] skeleton_ids [of zs ?ys] d by simp
  have old: "stored_ok (save_checkpoint (stopped_as phase reason st) store)" for phase reason
    using stored_ok_save [OF ok] d by (simp add: stopped_as_def)
  show ?thesis
  proof (cases "settle_all (zip ?rd rs) ?ys")
    case (Inl e)
    then show ?thesis using wave ok old unfolding wave_eq [OF d] Let_def g by (auto split: if_splits)
  next
    case (Inr zs)
    have "stored_ok (save_checkpoint (with_items zs st) store)"
      "stored_ok (save_checkpoint (stopped_as p q (with_items zs st)) (save_checkpoint (with_items zs st) store))" for p q
      using new [OF Inr] ok by (auto intro!: stored_ok_save simp: with_items_def stopped_as_def)
    then show ?thesis using wave old unfolding wave_eq [OF d] Let_def g by (auto simp: Inr split: if_splits)
  qed
qed

lemma finish_stored:
  "stored_ok store \<Longrightarrow> distinct (map dw_id (ps_work_items st)) \<Longrightarrow> finish_supervisor eid synthesize st (store, w) = (r, store1, w1) \<Longrightarrow> stored_ok store1"
  by (auto simp: finish_supervisor_def Let_def intro!: stored_ok_save split: prod.splits sum.splits)

lemma run_supervisor_in_order:
  assumes d: "distinct (map dw_id (ps_work_items st))" and ok: "stored_ok store"
  shows "\<exists>r store1 w1 cs. run_supervisor m eid (logged run_child) (silent synthesize) cancelled st (store, w, []) = Some (r, store1, w1, cs) \<and>
    calls_in_order (completed_ids (ps_work_items st)) cs \<and> stored_ok store1"
proof -
  let ?C = "completed_ids (ps_work_items st)"
  let ?J = "\<lambda>st store wl. log_inv ?C st (snd wl) \<and> stored_ok store"
  let ?Q = "\<lambda>r store wl. calls_in_order ?C (snd wl) \<and> stored_ok store \<and> (\<forall>st1. r = Inr st1 \<longrightarrow> distinct (map dw_id (ps_work_items st1)))"
  have "\<exists>r store1 wl. supervisor_waves m (logged run_child) cancelled (start_waves st) (store, w, []) = Some (r, store1, wl) \<and>
      ?Q (map_sum id wv_state r) store1 wl"
  proof (rule waves_rule [where J = ?J and Q = ?Q, OF d], goal_cases)
    case 1
    then show ?case using log_inv_start ok by simp
  next
    case (2 st store w v store1 w1)
    then show ?case
      using wave_logged [of st ?C "snd w" m run_child cancelled store "fst w" "Inr v" store1 "fst w1" "snd w1"]
        wave_stored [OF 2(1) _ 2(4)] by simp
  next
    case (3 st store w answer store1 w1)
    then show ?case
      using wave_logged [of st ?C "snd w" m run_child cancelled store "fst w" "Inl answer" store1 "fst w1" "snd w1"]
        wave_stored [OF 3(1) _ 3(4)] by simp
  next
    case (4 st store w)
    then show ?case using log_invD by blast
  qed
  then obtain r store1 w1 cs where w: "supervisor_waves m (logged run_child) cancelled (start_waves st) (store, w, []) = Some (r, store1, w1, cs)"
    "?Q (map_sum id wv_state r) store1 (w1, cs)" by auto
  obtain r2 store2 w2 where f: "finish_supervisor eid synthesize (wv_state (projr r)) (store1, w1) = (r2, store2, w2)" by (metis surj_pair)
  show ?thesis
  proof (cases r)
    case (Inl answer)
    then show ?thesis using w by (simp add: run_supervisor_def)
  next
    case (Inr v)
    then show ?thesis using w(2) f finish_stored [OF _ _ f] by (simp add: run_supervisor_def finish_silent w(1))
  qed
qed

text \<open>Decomposing orders the items and keeps them.\<close>

lemma begin_silent:
  "begin_supervisor sid eid goal (silent decompose) (store, w, cs) =
     map_option (\<lambda>(r, store1, w1). (r, store1, w1, cs)) (begin_supervisor sid eid goal decompose (store, w))"
  by (simp add: begin_supervisor_def silent_def Let_def split: prod.split sum.split option.split)

lemma begin_supervisor_ok:
  assumes "begin_supervisor sid eid goal decompose (store, w) = Some (Inr st, store1, w1)"
  obtains raw where "decompose goal w = (Inr raw, w1)" "mset (ps_work_items st) = mset raw"
    "graph_ok dw_id dw_dependencies raw" "ps_session_id st = sid" "ps_execution_id st = eid"
proof -
  obtain raw items where *: "decompose goal w = (Inr raw, w1)" "ordered_work_items raw = Some (Inr items)"
    "ps_work_items st = items" "ps_session_id st = sid" "ps_execution_id st = eid"
    using assms by (auto simp: begin_supervisor_def Let_def split: prod.splits sum.splits option.splits)
  then show thesis
    using that topological_order_spec [of dw_id dw_dependencies raw] by (simp add: ordered_work_items_def)
qed

lemma begin_supervisor_returns: "\<exists>r store1 w1. begin_supervisor sid eid goal decompose (store, w) = Some (r, store1, w1)"
proof -
  have total: "ordered_work_items raw = None \<longleftrightarrow> False" for raw
    by (simp add: ordered_work_items_def topological_order_returns)
  show ?thesis by (auto simp: begin_supervisor_def Let_def total split: prod.split sum.split option.split)
qed

lemma same_items: "mset xs = mset ys \<Longrightarrow> completed_ids xs = completed_ids ys"
  "mset xs = mset ys \<Longrightarrow> distinct (map dw_id xs) = distinct (map dw_id ys)"
  "mset xs = mset ys \<Longrightarrow> graph_ok dw_id dw_dependencies xs = graph_ok dw_id dw_dependencies ys"
  "mset xs = mset ys \<Longrightarrow> runnable xs = runnable ys"
proof -
  assume m: "mset xs = mset ys"
  then have s: "set xs = set ys" by (metis set_mset_mset)
  have d: "distinct (map dw_id xs) = distinct (map dw_id ys)" using m by (metis mset_eq_imp_distinct_iff mset_map)
  then show "distinct (map dw_id xs) = distinct (map dw_id ys)" .
  show "completed_ids xs = completed_ids ys" using s by (simp add: completed_ids_def)
  show "graph_ok dw_id dw_dependencies xs = graph_ok dw_id dw_dependencies ys" using s d by (simp add: graph_ok_def list_all_iff)
  then show "runnable xs = runnable ys" using s by (simp add: runnable_def list_all_iff depends_on_def)
qed

lemma begin_stored:
  assumes ok: "stored_ok store" and b: "begin_supervisor sid eid goal decompose (store, w) = Some (r, store1, w1)"
  shows "stored_ok store1" "\<And>st. r = Inr st \<Longrightarrow> distinct (map dw_id (ps_work_items st))"
proof -
  have st: "distinct (map dw_id (ps_work_items st))" if r: "r = Inr st" for st
  proof -
    obtain raw where "decompose goal w = (Inr raw, w1)" "mset (ps_work_items st) = mset raw"
      "graph_ok dw_id dw_dependencies raw" "ps_session_id st = sid" "ps_execution_id st = eid"
      by (rule begin_supervisor_ok [OF b [unfolded r]])
    then show ?thesis using same_items(2) [of "ps_work_items st" raw] by (simp add: graph_ok_def)
  qed
  then show "\<And>st. r = Inr st \<Longrightarrow> distinct (map dw_id (ps_work_items st))" .
  show "stored_ok store1"
    using ok st b by (auto simp: begin_supervisor_def Let_def intro!: stored_ok_save split: prod.splits sum.splits option.splits)
qed

lemma execute_in_order:
  assumes ok: "stored_ok store"
  shows "\<exists>r store1 w1 cs. supervised_run maximum sid eid goal decompose run_child synthesize cancelled store w = Some (r, store1, w1, cs) \<and>
    calls_in_order (completed_ids (starting_items sid eid goal decompose store w)) cs \<and> stored_ok store1"
proof (cases "store (sid, eid)")
  case None
  obtain r store1 w1 where b: "begin_supervisor sid eid goal decompose (store, w) = Some (r, store1, w1)"
    using begin_supervisor_returns [of sid eid goal decompose store w] by metis
  note ok1 = begin_stored [OF ok b]
  show ?thesis
  proof (cases r)
    case (Inl e)
    then show ?thesis using b None ok1(1)
      by (auto simp: supervised_run_def supervisor_execute_def load_checkpoint_def begin_silent calls_in_order_def)
  next
    case (Inr st)
    obtain raw where raw: "decompose goal w = (Inr raw, w1)" "mset (ps_work_items st) = mset raw"
      "graph_ok dw_id dw_dependencies raw" "ps_session_id st = sid" "ps_execution_id st = eid"
      by (rule begin_supervisor_ok [OF b [unfolded Inr]])
    from run_supervisor_in_order [OF ok1(2) [OF Inr] ok1(1)] show ?thesis
      using b Inr None raw same_items(1) [OF raw(2)]
      by (simp add: supervised_run_def supervisor_execute_def load_checkpoint_def begin_silent starting_items_def)
  qed
next
  case (Some st)
  then have "distinct (map dw_id (ps_work_items st))" using ok by (simp add: stored_ok_def)
  from run_supervisor_in_order [OF this ok] show ?thesis
    using Some ok by (auto simp: supervised_run_def supervisor_execute_def load_checkpoint_def starting_items_def calls_in_order_def)
qed

section \<open>Completion\<close>

definition finishing :: "durable_pattern_state \<Rightarrow> durable_pattern_state \<Rightarrow> bool" where
  "finishing st0 st \<longleftrightarrow> runnable (ps_work_items st) \<and> skeleton (ps_work_items st) = skeleton (ps_work_items st0) \<and>
     ps_session_id st = ps_session_id st0 \<and> ps_execution_id st = ps_execution_id st0"

lemma finishing_wave:
  assumes fin: "finishing st0 st" and guard: "card (completed_ids (ps_work_items st)) < length (ps_work_items st)" and m: "0 < m"
    and ok: "\<And>x. succeeds (run_child x) well_formed_child" and nc: "\<not> cancel_requested cancelled (w, cs)"
  shows "\<exists>st1. finishing st0 st1 \<and> fst (supervisor_wave m (logged run_child) cancelled (start_waves st) (store, w, cs)) = Inr (start_waves st1)"
proof -
  let ?ys = "ps_work_items st"
  let ?rd = "ready_items m (completed_ids ?ys) ?ys"
  have run: "runnable ?ys" using fin by (simp add: finishing_def)
  then have d: "distinct (map dw_id ?ys)" by (simp add: runnable_def graph_ok_def)
  have rd: "?rd \<noteq> []" using runnable_ready [OF run m guard] .
  obtain rs w2 where g: "gather_children run_child ?rd w = (rs, w2)" by fastforce
  have "\<forall>p \<in> set (zip ?rd rs). \<exists>child. snd p = Inr child \<and> well_formed_child child"
    using gather_succeeds [OF ok g] by (auto dest: set_zip_rightD)
  then obtain zs where zs: "settle_all (zip ?rd rs) ?ys = Inr zs" and nr: "\<forall>p \<in> set (zip ?rd rs). \<not> raised (snd p)"
    using settle_all_succeeds by (metis raised.simps(2))
  note z = settle_runnable [OF run ready_zip [OF d gather_length [OF g]] zs nr]
  have "\<not> list_ex (\<lambda>x. dw_state x = DW_Failed) zs" using z(1) by (auto simp: runnable_def list_all_iff list_ex_iff)
  then have "fst (supervisor_wave m (logged run_child) cancelled (start_waves st) (store, w, cs)) = Inr (start_waves (with_items zs st))"
    unfolding wave_eq [OF d] gather_logged Let_def g if_not_P [OF nc] if_not_P [OF rd] by (simp add: zs)
  moreover have "finishing st0 (with_items zs st)" using z fin by (simp add: finishing_def with_items_def)
  ultimately show ?thesis by blast
qed

lemma all_completed:
  assumes run: "runnable ys" and "\<not> card (completed_ids ys) < length ys"
  shows "list_all (\<lambda>x. dw_state x = DW_Completed) ys" "completed_ids ys = dw_id ` set ys"
proof -
  have d: "distinct (map dw_id ys)" using run by (simp add: runnable_def graph_ok_def)
  then have "card (dw_id ` set ys) = length ys" by (metis distinct_card length_map list.set_map)
  moreover have "completed_ids ys \<subseteq> dw_id ` set ys" by (auto simp: completed_ids_def)
  ultimately show all: "completed_ids ys = dw_id ` set ys" using assms(2) by (metis card_seteq finite_imageI finite_set not_less)
  have "dw_state y = DW_Completed" if "y \<in> set ys" for y
  proof -
    have "dw_id y \<in> completed_ids ys" using all that by simp
    then obtain z where "z \<in> set ys" "dw_state z = DW_Completed" "dw_id z = dw_id y" unfolding completed_ids_iff by blast
    then show ?thesis using d that by (auto simp: distinct_map inj_on_def)
  qed
  then show "list_all (\<lambda>x. dw_state x = DW_Completed) ys" by (simp add: list_all_iff)
qed

lemma waves_complete:
  assumes run: "runnable (ps_work_items st)" and m: "0 < m"
    and ok: "\<And>x. succeeds (run_child x) well_formed_child" and nc: "\<And>s. \<not> cancel_requested cancelled s"
  obtains v store1 w1 cs where "supervisor_waves m (logged run_child) cancelled (start_waves st) (store, w, []) = Some (Inr v, store1, w1, cs)"
    "finishing st (wv_state v)" "list_all (\<lambda>x. dw_state x = DW_Completed) (ps_work_items (wv_state v))"
    "called cs = dw_id ` set (ps_work_items st) - completed_ids (ps_work_items st)"
proof -
  let ?C = "completed_ids (ps_work_items st)" and ?ids = "dw_id ` set (ps_work_items st)"
  let ?Q = "\<lambda>r store wl. \<exists>st1. r = Inr st1 \<and> finishing st st1 \<and> list_all (\<lambda>x. dw_state x = DW_Completed) (ps_work_items st1) \<and>
    called (snd wl) = ?ids - ?C"
  have d: "distinct (map dw_id (ps_work_items st))" using run by (simp add: runnable_def graph_ok_def)
  have "\<exists>r store1 wl. supervisor_waves m (logged run_child) cancelled (start_waves st) (store, w, []) = Some (r, store1, wl) \<and> ?Q (map_sum id wv_state r) store1 wl"
  proof (rule waves_rule [where J = "\<lambda>s store wl. log_inv ?C s (snd wl) \<and> finishing st s" and Q = ?Q, OF d], goal_cases)
    case 1
    then show ?case using log_inv_start run by (simp add: finishing_def)
  next
    case (2 s store w v store1 w1)
    then obtain st1 where "finishing st st1" "v = start_waves st1"
      using finishing_wave [of st s m run_child cancelled "fst w" "snd w" store] m ok nc by auto
    then show ?case
      using 2 wave_logged [of s ?C "snd w" m run_child cancelled store "fst w" "Inr v" store1 "fst w1" "snd w1"]
      by (simp add: start_waves_def)
  next
    case (3 s store w answer store1 w1)
    then show ?case using finishing_wave [of st s m run_child cancelled "fst w" "snd w" store] m ok nc by auto
  next
    case (4 s store w)
    then have s: "runnable (ps_work_items s)" "finishing st s" "dw_id ` set (ps_work_items s) = ?ids"
      using skeleton_id_set [of "ps_work_items s" "ps_work_items st"] by (simp_all add: finishing_def)
    note all = all_completed [OF s(1) 4(3)]
    have "?ids = ?C \<union> succeeded (snd w)" "called (snd w) \<subseteq> ?ids" "calls_in_order ?C (snd w)"
      using log_invD [OF conjunct1 [OF 4(2)]] all(2) s(3) by metis+
    then have "called (snd w) = ?ids - ?C"
      using succeeded_called [of "snd w"] calls_fresh [of ?C "snd w"] by blast
    then show ?case using all(1) s(2) by simp
  qed
  then obtain r store1 w1 cs where r: "supervisor_waves m (logged run_child) cancelled (start_waves st) (store, w, []) = Some (r, store1, w1, cs)"
    "?Q (map_sum id wv_state r) store1 (w1, cs)" by auto
  then show thesis using that by (cases r) auto
qed


lemma finish_supervisor_ok:
  assumes "succeeds (synthesize (ps_work_items st)) (\<lambda>_. True)"
  obtains answer store1 w1 final where "finish_supervisor eid synthesize st (store, w) = (Inr (final, Some answer), store1, w1)"
    "ps_phase final = ''completed''" "ps_work_items final = ps_work_items st" "store1 (ps_session_id st, ps_execution_id st) = Some final"
proof -
  let ?final = "\<lambda>answer. st\<lparr>ps_phase := ''completed'', ps_synthesis_reference := Some (''result://'' @ eid),
    ps_synthesis_output := Some (take 8000 answer)\<rparr>"
  obtain answer w1 where "synthesize (ps_work_items st) w = (Inr answer, w1)" using assms unfolding succeeds_def by blast
  then have "finish_supervisor eid synthesize st (store, w) = (Inr (?final answer, Some answer), save_checkpoint (?final answer) store, w1)"
    by (simp add: finish_supervisor_def Let_def)
  then show thesis by (rule that) (simp_all add: save_checkpoint_def)
qed

lemma run_supervisor_completes:
  assumes run: "runnable (ps_work_items st)" and m: "0 < m"
    and ok: "\<And>x. succeeds (run_child x) well_formed_child" and nc: "\<And>s. \<not> cancel_requested cancelled s"
    and syn: "\<And>items. succeeds (synthesize items) (\<lambda>_. True)"
  shows "\<exists>final answer store1 w1 cs.
    run_supervisor m eid (logged run_child) (silent synthesize) cancelled st (store, w, []) = Some (Inr (final, Some answer), store1, w1, cs) \<and>
    ps_phase final = ''completed'' \<and> list_all (\<lambda>x. dw_state x = DW_Completed) (ps_work_items final) \<and>
    skeleton (ps_work_items final) = skeleton (ps_work_items st) \<and>
    called cs = dw_id ` set (ps_work_items st) - completed_ids (ps_work_items st) \<and>
    store1 (ps_session_id st, ps_execution_id st) = Some final"
proof -
  obtain v store1 w1 cs where v: "supervisor_waves m (logged run_child) cancelled (start_waves st) (store, w, []) = Some (Inr v, store1, w1, cs)"
    "finishing st (wv_state v)" "list_all (\<lambda>x. dw_state x = DW_Completed) (ps_work_items (wv_state v))"
    "called cs = dw_id ` set (ps_work_items st) - completed_ids (ps_work_items st)"
    by (rule waves_complete [OF run m ok nc])
  obtain answer store2 w2 final where f: "finish_supervisor eid synthesize (wv_state v) (store1, w1) = (Inr (final, Some answer), store2, w2)"
    "ps_phase final = ''completed''" "ps_work_items final = ps_work_items (wv_state v)"
    "store2 (ps_session_id (wv_state v), ps_execution_id (wv_state v)) = Some final"
    by (rule finish_supervisor_ok [where st = "wv_state v" and eid = eid and store = store1 and w = w1, OF syn])
  then show ?thesis using v(2-4) by (auto simp: run_supervisor_def finish_silent finishing_def v(1))
qed


text \<open>A checkpoint an execution can continue: its own, not completed.\<close>

definition continues :: "string \<Rightarrow> string \<Rightarrow> string \<Rightarrow> (string \<Rightarrow> ('w, durable_work_item list) op) \<Rightarrow> checkpoints \<Rightarrow> 'w \<Rightarrow> bool" where
  "continues sid eid goal decompose store w \<longleftrightarrow>
     (case store (sid, eid) of
        None \<Rightarrow> \<not> raised (fst (decompose goal w))
      | Some st \<Rightarrow> ps_phase st \<noteq> ''completed'' \<and> ps_session_id st = sid \<and> ps_execution_id st = eid)"

lemma execute_completes:
  assumes run: "runnable (starting_items sid eid goal decompose store w)" and cont: "continues sid eid goal decompose store w"
    and ok: "\<And>x. succeeds (run_child x) well_formed_child" and nc: "\<And>s. \<not> cancel_requested cancelled s"
    and syn: "\<And>items. succeeds (synthesize items) (\<lambda>_. True)"
  shows "\<exists>final answer store1 w1 cs.
    supervised_run maximum sid eid goal decompose run_child synthesize cancelled store w = Some (Inr (final, Some answer), store1, w1, cs) \<and>
    ps_phase final = ''completed'' \<and> list_all (\<lambda>x. dw_state x = DW_Completed) (ps_work_items final) \<and>
    mset (skeleton (ps_work_items final)) = mset (skeleton (starting_items sid eid goal decompose store w)) \<and>
    called cs = dw_id ` set (starting_items sid eid goal decompose store w) - completed_ids (starting_items sid eid goal decompose store w) \<and>
    store1 (sid, eid) = Some final"
proof -
  have m: "0 < clamp_parallel maximum" by (simp add: clamp_parallel_def)
  have nc': "\<not> cancel_requested (unlogged_event cancelled) s" for s
    using nc [of "fst s"] by (auto simp: unlogged_event_def cancel_requested_def)
  note done_run = run_supervisor_completes [where run_child = run_child and synthesize = synthesize and
      cancelled = "unlogged_event cancelled", OF _ m ok nc' syn]
  show ?thesis
  proof (cases "store (sid, eid)")
    case (Some st)
    then have "runnable (ps_work_items st)" using run by (simp add: starting_items_def load_checkpoint_def)
    from done_run [OF this, where eid = eid and store = store and w = w] show ?thesis
      using Some cont by (auto simp: supervised_run_def supervisor_execute_def load_checkpoint_def starting_items_def continues_def)
  next
    case None
    then obtain raw w1 where raw: "decompose goal w = (Inr raw, w1)" using cont
      by (cases "decompose goal w") (auto simp: continues_def not_raised_iff)
    have start: "starting_items sid eid goal decompose store w = raw" using None raw by (simp add: starting_items_def load_checkpoint_def)
    then have "graph_ok dw_id dw_dependencies raw" "acyclic (depends_on dw_id dw_dependencies raw)" using run by (auto simp: runnable_def)
    then obtain items where "ordered_work_items raw = Some (Inr items)"
      using topological_order_spec [of dw_id dw_dependencies raw] by (auto simp: ordered_work_items_def split: option.splits sum.splits)
    then obtain st store1 where b: "begin_supervisor sid eid goal decompose (store, w) = Some (Inr st, store1, w1)"
      by (simp add: begin_supervisor_def raw Let_def)
    obtain raw' where raw': "decompose goal w = (Inr raw', w1)" "mset (ps_work_items st) = mset raw'"
      "graph_ok dw_id dw_dependencies raw'" "ps_session_id st = sid" "ps_execution_id st = eid"
      by (rule begin_supervisor_ok [OF b])
    then have perm: "mset (ps_work_items st) = mset raw" using raw by simp
    then have "runnable (ps_work_items st)" using run start same_items(4) by metis
    moreover have "mset (skeleton (ps_work_items st)) = mset (skeleton raw)" using perm by (simp add: skeleton_def)
    ultimately show ?thesis
      using done_run [of st, where eid = eid and store = store1 and w = w1] raw'(4,5) None b same_items(1) [OF perm] mset_eq_setD [OF perm]
      unfolding start by (auto simp: supervised_run_def supervisor_execute_def load_checkpoint_def begin_silent)
  qed
qed


definition sample_item :: "string \<Rightarrow> string list \<Rightarrow> durable_work_item" where
  "sample_item i ds = \<lparr>dw_id = i, dw_summary = ''step'', dw_dependencies = ds, dw_state = DW_Pending, dw_child_goal_id = None,
     dw_result_reference = None, dw_evidence_references = [], dw_attempt = 0\<rparr>"

definition sample_items :: "durable_work_item list" where
  "sample_items = [sample_item ''b'' [''a''], sample_item ''a'' []]"

definition sample_child :: child_result where
  "sample_child = \<lparr>ch_child_goal_id = Some ''g'', ch_result_reference = Some ''r'', ch_evidence_references = None\<rparr>"

lemma sample_topo: "topological_order dw_id dw_dependencies sample_items = Some (Inr [sample_item ''a'' [], sample_item ''b'' [''a'']])"
  by code_simp

lemma sample_run: "map_option (\<lambda>(r, store1, w1, cs). (map_sum id (\<lambda>(st, answer). (ps_phase st, answer)) r, w1, map (dw_id \<circ> fst) cs))
   (supervised_run 5 ''s'' ''e'' ''goal'' (\<lambda>_ n. (Inr sample_items, n + 1)) (\<lambda>_ n. (Inr sample_child, n + 1))
     (\<lambda>_ n. (Inr ''answer'', n + 1)) None Map.empty (0 :: nat)) =
   Some (Inr (''completed'', Some ''answer''), 4, [''a'', ''b''])"
  by code_simp

lemma sample_runnable: "runnable sample_items"
  using topological_order_spec [of dw_id dw_dependencies sample_items] sample_topo
  by (simp add: runnable_def sample_items_def sample_item_def)


section \<open>Properties\<close>

text \<open>
  C17: children are run in order and at most once.  From checkpoints with distinct work items, an
  execution always returns, whatever the callbacks do.  It runs no child that the checkpoint (or the
  decomposition) has as completed, none twice, and each only when all its dependencies are completed
  there or were run successfully before; the checkpoints it leaves have distinct work items again, so
  this holds of every later execution after a crash, a failure or a cancellation too.
\<close>

theorem supervisor_calls_in_order:
  "stored_ok store \<Longrightarrow>
   \<exists>r store1 w1 cs. supervised_run maximum sid eid goal decompose run_child synthesize cancelled store w = Some (r, store1, w1, cs) \<and>
     calls_in_order (completed_ids (starting_items sid eid goal decompose store w)) cs \<and> stored_ok store1"
  by (rule execute_in_order)

theorem supervisor_calls_in_order_witness:
  "stored_ok Map.empty \<and>
   (\<exists>r store1 w1 cs. supervised_run 5 ''s'' ''e'' ''goal'' (\<lambda>_ n. (Inr sample_items, n + 1)) (\<lambda>_ n. (Inl (RuntimeError ''x''), n + 1))
      (\<lambda>_ n. (Inr ''answer'', n + 1)) None Map.empty (0 :: nat) = Some (r, store1, w1, cs) \<and>
     calls_in_order {} cs \<and> stored_ok store1)"
proof -
  have "completed_ids (starting_items ''s'' ''e'' ''goal'' (\<lambda>_ n. (Inr sample_items, n + 1)) Map.empty (0 :: nat)) = {}"
    by (simp add: completed_ids_def starting_items_def load_checkpoint_def sample_items_def sample_item_def)
  then show ?thesis
    using supervisor_calls_in_order [of Map.empty 5 "''s''" "''e''" "''goal''" "\<lambda>_ n. (Inr sample_items, n + 1)"
      "\<lambda>_ n. (Inl (RuntimeError ''x''), n + 1)" "\<lambda>_ n. (Inr ''answer'', n + 1)" None "0 :: nat"]
    by (simp add: stored_ok_def)
qed

text \<open>
  C19: the supervisor finishes.  When the work items (of the checkpoint, or of the decomposition if
  there is none) form a well-formed acyclic graph and are pending or completed, children and synthesis
  succeed and nothing is cancelled, then the execution runs exactly the children that were not
  completed and returns with every work item completed; there is no dependency deadlock, for every
  bound on the parallel children.
\<close>

theorem supervisor_completes:
  assumes "runnable (starting_items sid eid goal decompose store w)" "continues sid eid goal decompose store w"
    and "\<And>x. succeeds (run_child x) well_formed_child" "\<And>s. \<not> cancel_requested cancelled s"
    and "\<And>items. succeeds (synthesize items) (\<lambda>_. True)"
  shows "\<exists>final answer store1 w1 cs.
    supervised_run maximum sid eid goal decompose run_child synthesize cancelled store w = Some (Inr (final, Some answer), store1, w1, cs) \<and>
    ps_phase final = ''completed'' \<and> list_all (\<lambda>x. dw_state x = DW_Completed) (ps_work_items final) \<and>
    mset (skeleton (ps_work_items final)) = mset (skeleton (starting_items sid eid goal decompose store w)) \<and>
    called cs = dw_id ` set (starting_items sid eid goal decompose store w) - completed_ids (starting_items sid eid goal decompose store w) \<and>
    store1 (sid, eid) = Some final"
  using assms by (rule execute_completes)

theorem supervisor_completes_witness:
  "\<exists>final answer store1 w1 cs.
    supervised_run 1 ''s'' ''e'' ''goal'' (\<lambda>_ n. (Inr sample_items, n + 1)) (\<lambda>_ n. (Inr sample_child, n + 1))
      (\<lambda>_ n. (Inr ''answer'', n + 1)) (Some (\<lambda>n. False)) Map.empty (0 :: nat) = Some (Inr (final, Some answer), store1, w1, cs) \<and>
    ps_phase final = ''completed'' \<and> called cs = {''a'', ''b''}"
proof -
  have s: "starting_items ''s'' ''e'' ''goal'' (\<lambda>_ n. (Inr sample_items, n + 1)) Map.empty (0 :: nat) = sample_items"
    by (simp add: starting_items_def load_checkpoint_def)
  have ids: "dw_id ` set sample_items - completed_ids sample_items = {''a'', ''b''}"
    by (auto simp: completed_ids_def sample_items_def sample_item_def)
  note c = supervisor_completes [of "''s''" "''e''" "''goal''" "\<lambda>_ n. (Inr sample_items, n + 1)" Map.empty "0 :: nat"
    "\<lambda>_ n. (Inr sample_child, n + 1)" "Some (\<lambda>n. False)" "\<lambda>_ n. (Inr ''answer'', n + 1)" 1, unfolded s ids]
  show ?thesis
    using c sample_runnable
    by (auto simp: continues_def succeeds_def well_formed_child_def sample_child_def cancel_requested_def)
qed

end
