(* ===== verification/Debate.thy ===== *)
theory Debate
  imports Prelude "HOL-Library.Product_Lexorder"
begin

text \<open>
  The debate pattern (\<open>app/coordination/patterns/debate_adapter.py\<close>): independent proposals, pairwise
  critiques, validated votes.  The callbacks are parameters acting on a state \<open>'w\<close>; the calls that
  the code gathers are made in list order up to the first that raises.  Every phase ends with a
  checkpoint, from which a restart continues.
\<close>

section \<open>The model\<close>

datatype debate_phase = DB_Created | DB_Proposed | DB_Critiqued | DB_Voted | DB_Completed | DB_Failed

record debate_proposal =
  dp_agent_id :: string
  dp_proposal_reference :: string
  dp_safe_summary :: string
  dp_critique_references :: "string list"

record debate_state =
  db_session_id :: string
  db_execution_id :: string
  db_phase :: debate_phase
  db_participant_ids :: "string list"
  db_proposals :: "debate_proposal list"
  db_votes :: "(string \<times> string) list"
  db_winner_agent_id :: "string option"
  db_dissenting_agent_ids :: "string list"
  db_requires_hitl :: bool
  db_checkpoint_version :: int

type_synonym debates = "string \<times> string \<Rightarrow> debate_state option"

definition save_debate :: "debate_state \<Rightarrow> debates \<Rightarrow> debates" where
  "save_debate st store = store((db_session_id st, db_execution_id st) \<mapsto> st)"

text \<open>Calls one after the other; the first exception ends them.\<close>

fun traverse :: "('a \<Rightarrow> ('w, 'b) op) \<Rightarrow> 'a list \<Rightarrow> ('w, 'b list) op" where
  "traverse f [] w = (Inr [], w)"
| "traverse f (x # xs) w =
     (case f x w of
        (Inl e, w1) \<Rightarrow> (Inl e, w1)
      | (Inr y, w1) \<Rightarrow> (case traverse f xs w1 of (Inl e, w2) \<Rightarrow> (Inl e, w2) | (Inr ys, w2) \<Rightarrow> (Inr (y # ys), w2)))"

fun collect :: "'a result list \<Rightarrow> 'a list result" where
  "collect [] = Inr []"
| "collect (Inl e # rs) = Inl e"
| "collect (Inr x # rs) = (case collect rs of Inl e \<Rightarrow> Inl e | Inr xs \<Rightarrow> Inr (x # xs))"

text \<open>The mapping a proposal returns; \<open>None\<close> is an absent key.  The bounds are the model's fields.\<close>

record raw_proposal =
  rp_proposal_reference :: "string option"
  rp_safe_summary :: "string option"

definition typed_proposal :: "string \<Rightarrow> raw_proposal \<Rightarrow> debate_proposal result" where
  "typed_proposal agent raw =
     (case rp_proposal_reference raw of
        None \<Rightarrow> Inl (KeyError ''proposal_reference'')
      | Some ref \<Rightarrow>
     (case rp_safe_summary raw of
        None \<Rightarrow> Inl (KeyError ''safe_summary'')
      | Some summary \<Rightarrow>
          if agent = [] \<or> ref = [] \<or> summary = [] \<or> 2000 < length summary then Inl (ValueError ''DebateProposal'')
          else Inr \<lparr>dp_agent_id = agent, dp_proposal_reference = ref, dp_safe_summary = summary, dp_critique_references = []\<rparr>))"

definition propose_all :: "string \<Rightarrow> string \<Rightarrow> string list \<Rightarrow> (string \<Rightarrow> ('w, raw_proposal) op) \<Rightarrow>
    debates \<times> 'w \<Rightarrow> debate_state result \<times> debates \<times> 'w" where
  "propose_all sid eid participants propose sw =
     (case sw of (store, w) \<Rightarrow>
      (case traverse propose participants w of
         (Inl e, w1) \<Rightarrow> (Inl e, store, w1)
       | (Inr raws, w1) \<Rightarrow>
           (case collect (map (\<lambda>(agent, raw). typed_proposal agent raw) (zip participants raws)) of
              Inl e \<Rightarrow> (Inl e, store, w1)
            | Inr typed \<Rightarrow>
                let st = \<lparr>db_session_id = sid, db_execution_id = eid, db_phase = DB_Proposed, db_participant_ids = participants,
                      db_proposals = typed, db_votes = [], db_winner_agent_id = None, db_dissenting_agent_ids = [],
                      db_requires_hitl = False, db_checkpoint_version = 1\<rparr>
                in (Inr st, save_debate st store, w1))))"

definition critique_proposal :: "debate_proposal list \<Rightarrow> (string \<Rightarrow> string \<Rightarrow> ('w, string) op) \<Rightarrow> debate_proposal \<Rightarrow> ('w, debate_proposal) op" where
  "critique_proposal proposals critique p w =
     (case traverse (\<lambda>other. critique (dp_agent_id p) (dp_agent_id other))
             (filter (\<lambda>other. dp_agent_id other \<noteq> dp_agent_id p) proposals) w of
        (Inl e, w1) \<Rightarrow> (Inl e, w1)
      | (Inr refs, w1) \<Rightarrow> (Inr (p\<lparr>dp_critique_references := refs\<rparr>), w1))"

definition critique_all :: "(string \<Rightarrow> string \<Rightarrow> ('w, string) op) \<Rightarrow> debate_state \<Rightarrow> debates \<times> 'w \<Rightarrow> debate_state result \<times> debates \<times> 'w" where
  "critique_all critique st sw =
     (case sw of (store, w) \<Rightarrow>
      (case traverse (critique_proposal (db_proposals st) critique) (db_proposals st) w of
         (Inl e, w1) \<Rightarrow> (Inl e, store, w1)
       | (Inr updated, w1) \<Rightarrow>
           let st1 = st\<lparr>db_phase := DB_Critiqued, db_proposals := updated\<rparr> in (Inr st1, save_debate st1 store, w1)))"

definition valid_vote :: "string list \<Rightarrow> string \<times> string \<Rightarrow> (string \<times> string) result" where
  "valid_vote participants v =
     (if snd v \<notin> set participants \<or> snd v = fst v then Inl (ValueError ''vote targets a nonexistent or self agent'') else Inr v)"

text \<open>\<open>collections.Counter\<close>: the number of occurrences of each key, in order of first occurrence.\<close>

definition counter :: "'a list \<Rightarrow> ('a \<times> int) list" where
  "counter xs = fold (\<lambda>x m. AList.update x ((case map_of m x of None \<Rightarrow> 0 | Some n \<Rightarrow> n) + 1) m) xs []"

definition elect :: "(string \<times> string) list \<Rightarrow> string \<times> int" where
  "elect votes = hd (sort_key (\<lambda>(target, n). (- n, target)) (counter (map snd votes)))"

definition decide :: "int \<Rightarrow> (string \<times> string) list \<Rightarrow> debate_state \<Rightarrow> debate_state" where
  "decide quorum votes st =
     (case elect votes of (winner, n) \<Rightarrow>
      st\<lparr>db_phase := if n < quorum then DB_Failed else DB_Completed, db_votes := votes, db_winner_agent_id := Some winner,
         db_dissenting_agent_ids := map fst (filter (\<lambda>(voter, target). target \<noteq> winner) votes), db_requires_hitl := n < quorum\<rparr>)"

definition vote_all :: "string list \<Rightarrow> int \<Rightarrow> (string \<Rightarrow> debate_proposal list \<Rightarrow> ('w, string) op) \<Rightarrow>
    debate_state \<Rightarrow> debates \<times> 'w \<Rightarrow> debate_state result \<times> debates \<times> 'w" where
  "vote_all participants quorum vote st sw =
     (case sw of (store, w) \<Rightarrow>
      (case traverse (\<lambda>voter. vote voter (db_proposals st)) participants w of
         (Inl e, w1) \<Rightarrow> (Inl e, store, w1)
       | (Inr targets, w1) \<Rightarrow>
           (case collect (map (valid_vote participants) (zip participants targets)) of
              Inl e \<Rightarrow> (Inl e, store, w1)
            | Inr votes \<Rightarrow> let st1 = decide quorum votes st in (Inr st1, save_debate st1 store, w1))))"

definition debate_execute :: "string \<Rightarrow> string \<Rightarrow> string list \<Rightarrow> (string \<Rightarrow> ('w, raw_proposal) op) \<Rightarrow>
    (string \<Rightarrow> string \<Rightarrow> ('w, string) op) \<Rightarrow> (string \<Rightarrow> debate_proposal list \<Rightarrow> ('w, string) op) \<Rightarrow> int \<Rightarrow>
    debates \<times> 'w \<Rightarrow> debate_state result \<times> debates \<times> 'w" where
  "debate_execute sid eid participants propose critique vote quorum sw =
     (if length participants < 2 \<or> \<not> distinct participants then (Inl (ValueError ''debate requires distinct participants''), sw)
      else if \<not> (1 \<le> quorum \<and> quorum \<le> int (length participants)) then (Inl (ValueError ''invalid debate quorum''), sw)
      else
      case (case fst sw (sid, eid) of None \<Rightarrow> propose_all sid eid participants propose sw | Some st \<Rightarrow> (Inr st, sw)) of
        (Inl e, sw1) \<Rightarrow> (Inl e, sw1)
      | (Inr st, sw1) \<Rightarrow>
      (case (if db_phase st = DB_Proposed then critique_all critique st sw1 else (Inr st, sw1)) of
        (Inl e, sw2) \<Rightarrow> (Inl e, sw2)
      | (Inr st1, sw2) \<Rightarrow>
          if db_phase st1 = DB_Critiqued then vote_all participants quorum vote st1 sw2 else (Inr st1, sw2)))"

section \<open>Counting votes\<close>

lemma map_of_counter: "map_of (counter xs) x = (if x \<in> set xs then Some (int (count_list xs x)) else None)"
proof (induction xs rule: rev_induct)
  case (snoc y xs)
  then show ?case by (auto simp: counter_def count_list_append)
qed (simp add: counter_def)

lemma counter_keys: "distinct (map fst (counter xs))" "fst ` set (counter xs) = set xs"
proof -
  show d: "distinct (map fst (counter xs))" by (induction xs rule: rev_induct) (simp_all add: counter_def)
  show "fst ` set (counter xs) = set xs"
    using map_of_counter [of xs] by (auto simp: dom_map_of_conv_image_fst [symmetric] dom_def split: if_splits)
qed

lemma counter_iff: "(x, n) \<in> set (counter xs) \<longleftrightarrow> x \<in> set xs \<and> n = int (count_list xs x)"
  using map_of_eq_Some_iff [OF counter_keys(1) [of xs], of x n] map_of_counter [of xs x] by (auto split: if_splits)

text \<open>The winner has the most votes, and the smallest id among those with as many.\<close>

lemma elect_best:
  assumes "votes \<noteq> []" and e: "elect votes = (winner, n)"
  shows "winner \<in> snd ` set votes" "n = int (count_list (map snd votes) winner)"
    "\<And>t. t \<in> snd ` set votes \<Longrightarrow> int (count_list (map snd votes) t) < n \<or> int (count_list (map snd votes) t) = n \<and> winner \<le> t"
proof -
  let ?c = "counter (map snd votes)" and ?key = "\<lambda>(target, n). (- n, target) :: int \<times> string"
  have ne: "?c \<noteq> []" using counter_keys(2) [of "map snd votes"] assms(1) by auto
  then have ne': "sort_key ?key ?c \<noteq> []" by (metis length_0_conv length_sort)
  have mem: "(winner, n) \<in> set ?c" using e hd_in_set [OF ne'] by (simp add: elect_def)
  then show "winner \<in> snd ` set votes" "n = int (count_list (map snd votes) winner)" by (simp_all add: counter_iff)
  fix t assume "t \<in> snd ` set votes"
  then have "(t, int (count_list (map snd votes) t)) \<in> set ?c" by (simp add: counter_iff)
  then have "?key (winner, n) \<le> ?key (t, int (count_list (map snd votes) t))"
    using sort_key_hd_le [of ?key ?c "(winner, n)" "tl (sort_key ?key ?c)"] e ne' by (metis elect_def hd_Cons_tl)
  then show "int (count_list (map snd votes) t) < n \<or> int (count_list (map snd votes) t) = n \<and> winner \<le> t"
    by (auto simp: less_eq_prod_def)
qed


section \<open>The outcome\<close>

definition supporters :: "(string \<times> string) list \<Rightarrow> string \<Rightarrow> int" where
  "supporters votes t = int (length (filter (\<lambda>v. snd v = t) votes))"

lemma supporters_count: "int (count_list (map snd votes) t) = supporters votes t"
  by (induction votes) (auto simp: supporters_def)

definition preferred :: "(string \<times> string) list \<Rightarrow> string \<Rightarrow> bool" where
  "preferred votes winner \<longleftrightarrow> (\<forall>t. supporters votes t < supporters votes winner \<or> supporters votes t = supporters votes winner \<and> winner \<le> t)"

lemma elect_preferred:
  assumes "votes \<noteq> []" and e: "elect votes = (winner, n)"
  shows "preferred votes winner" "n = supporters votes winner"
proof -
  note b = elect_best [OF assms]
  show n: "n = supporters votes winner" using b(2) by (simp add: supporters_count)
  have pos: "0 < supporters votes winner" using b(1) by (auto simp: supporters_def filter_empty_conv)
  show "preferred votes winner"
    unfolding preferred_def
  proof
    fix t
    show "supporters votes t < supporters votes winner \<or> supporters votes t = supporters votes winner \<and> winner \<le> t"
    proof (cases "t \<in> snd ` set votes")
      case True
      then show ?thesis using b(3) [OF True] n by (simp add: supporters_count)
    next
      case False
      then have "filter (\<lambda>v. snd v = t) votes = []" by (force simp: filter_empty_conv)
      then have "supporters votes t = 0" by (simp add: supporters_def)
      then show ?thesis using pos by simp
    qed
  qed
qed

lemma traverse_length: "traverse f xs w = (Inr ys, w1) \<Longrightarrow> length ys = length xs"
  by (induction xs arbitrary: w ys) (auto split: prod.splits sum.splits)

lemma collect_Inr: "collect rs = Inr ys \<longleftrightarrow> rs = map Inr ys"
proof (induction rs arbitrary: ys)
  case (Cons r rs)
  then show ?case using Cons [of "tl ys"] by (cases r; cases ys; cases "collect rs") auto
qed auto

lemma votes_valid:
  assumes "collect (map (valid_vote ps) vs) = Inr votes"
  shows "votes = vs" "\<forall>v \<in> set vs. snd v \<in> set ps \<and> snd v \<noteq> fst v"
proof -
  have *: "map (valid_vote ps) vs = map Inr votes" using assms by (simp add: collect_Inr)
  then show "votes = vs" "\<forall>v \<in> set vs. snd v \<in> set ps \<and> snd v \<noteq> fst v"
    by (induction vs arbitrary: votes) (auto simp: valid_vote_def split: if_splits)
qed

definition decided :: "string list \<Rightarrow> int \<Rightarrow> debate_state \<Rightarrow> bool" where
  "decided participants quorum st \<longleftrightarrow>
     map fst (db_votes st) = participants \<and> list_all (\<lambda>v. snd v \<in> set participants \<and> snd v \<noteq> fst v) (db_votes st) \<and>
     (\<exists>winner. db_winner_agent_id st = Some winner \<and> preferred (db_votes st) winner \<and>
        db_requires_hitl st = (supporters (db_votes st) winner < quorum) \<and>
        db_phase st = (if supporters (db_votes st) winner < quorum then DB_Failed else DB_Completed) \<and>
        db_dissenting_agent_ids st = map fst (filter (\<lambda>v. snd v \<noteq> winner) (db_votes st)))"

lemma vote_all_decided:
  assumes v: "vote_all ps quorum vote st (store, w) = (Inr st1, store1, w1)" and ne: "ps \<noteq> []"
  shows "decided ps quorum st1" "store1 = save_debate st1 store" "db_session_id st1 = db_session_id st" "db_execution_id st1 = db_execution_id st"
proof -
  obtain targets votes where t: "traverse (\<lambda>voter. vote voter (db_proposals st)) ps w = (Inr targets, w1)"
    and c: "collect (map (valid_vote ps) (zip ps targets)) = Inr votes" and st1: "st1 = decide quorum votes st" "store1 = save_debate st1 store"
    using v by (auto simp: vote_all_def Let_def split: prod.splits sum.splits)
  note votes = votes_valid [OF c]
  have len: "length targets = length ps" using traverse_length [OF t] .
  then have ids: "map fst votes = ps" "votes \<noteq> []" using ne by (auto simp: votes(1) zip_eq_Nil_iff)
  have valid: "list_all (\<lambda>v. snd v \<in> set ps \<and> snd v \<noteq> fst v) votes" using votes by (simp add: list_all_iff)
  obtain winner n where e: "elect votes = (winner, n)" by fastforce
  show "decided ps quorum st1"
    using elect_preferred [OF ids(2) e] ids(1) valid unfolding decided_def st1(1) decide_def e prod.case by (simp add: case_prod_unfold)
  show "store1 = save_debate st1 store" by (rule st1(2))
  show "db_session_id st1 = db_session_id st" "db_execution_id st1 = db_execution_id st"
    by (simp_all add: st1(1) decide_def e)
qed

definition keyed :: "debates \<Rightarrow> bool" where
  "keyed store \<longleftrightarrow> (\<forall>key st. store key = Some st \<longrightarrow> key = (db_session_id st, db_execution_id st))"

lemma keyed_save: "keyed store \<Longrightarrow> keyed (save_debate st store)"
  by (auto simp: keyed_def save_debate_def)

text \<open>A debate that has not voted yet.\<close>

definition undecided :: "debate_state option \<Rightarrow> bool" where
  "undecided st \<longleftrightarrow> (case st of None \<Rightarrow> True | Some s \<Rightarrow> db_phase s \<in> {DB_Proposed, DB_Critiqued})"

lemma debate_votes:
  assumes k: "keyed store" and u: "undecided (store (sid, eid))"
    and ex: "debate_execute sid eid ps propose critique vote quorum (store, w) = (Inr st, store1, w1)"
  shows "decided ps quorum st" "store1 (sid, eid) = Some st" "keyed store1"
proof -
  have ps: "ps \<noteq> []" using ex by (auto simp: debate_execute_def split: if_splits)
  obtain st0 store2 w2 where s0: "(case store (sid, eid) of None \<Rightarrow> propose_all sid eid ps propose (store, w) | Some st \<Rightarrow> (Inr st, store, w)) = (Inr st0, store2, w2)"
    and ex1: "(case (if db_phase st0 = DB_Proposed then critique_all critique st0 (store2, w2) else (Inr st0, store2, w2)) of
        (Inl e, sw2) \<Rightarrow> (Inl e, sw2)
      | (Inr st1, sw2) \<Rightarrow> if db_phase st1 = DB_Critiqued then vote_all ps quorum vote st1 sw2 else (Inr st1, sw2)) = (Inr st, store1, w1)"
    using ex by (auto simp: debate_execute_def split: if_splits prod.splits sum.splits)
  have st0: "db_phase st0 \<in> {DB_Proposed, DB_Critiqued}" "db_session_id st0 = sid" "db_execution_id st0 = eid" "keyed store2"
    using s0 u k keyed_save [OF k]
    by (auto simp: undecided_def propose_all_def Let_def keyed_def split: option.splits prod.splits sum.splits)
  obtain st1 store3 w3 where c: "(if db_phase st0 = DB_Proposed then critique_all critique st0 (store2, w2) else (Inr st0, store2, w2)) = (Inr st1, store3, w3)"
    and ex2: "(if db_phase st1 = DB_Critiqued then vote_all ps quorum vote st1 (store3, w3) else (Inr st1, store3, w3)) = (Inr st, store1, w1)"
    using ex1 by (auto split: prod.splits sum.splits)
  have st1: "db_phase st1 = DB_Critiqued" "db_session_id st1 = sid" "db_execution_id st1 = eid" "keyed store3"
    using c st0 keyed_save [OF st0(4)] by (auto simp: critique_all_def Let_def split: if_splits prod.splits sum.splits)
  then have v: "vote_all ps quorum vote st1 (store3, w3) = (Inr st, store1, w1)" using ex2 by simp
  note d = vote_all_decided [OF v ps]
  show "decided ps quorum st" by (rule d(1))
  show "store1 (sid, eid) = Some st" using st1 by (simp add: d(2-4) save_debate_def)
  show "keyed store1" using keyed_save [OF st1(4)] by (simp add: d(2))
qed

lemma decided_final:
  assumes "decided ps' quorum' st" "store (sid, eid) = Some st" "2 \<le> length ps" "distinct ps" "1 \<le> quorum" "quorum \<le> int (length ps)"
  shows "debate_execute sid eid ps propose critique vote quorum (store, w) = (Inr st, store, w)"
proof -
  have "db_phase st = DB_Failed \<or> db_phase st = DB_Completed" using assms(1) by (auto simp: decided_def split: if_splits)
  then show ?thesis using assms by (auto simp: debate_execute_def)
qed


section \<open>Properties\<close>

definition demo_vote :: "string \<Rightarrow> debate_proposal list \<Rightarrow> (nat, string) op" where
  "demo_vote voter proposals w = (Inr (if voter = ''a'' then ''b'' else ''a''), w + 1)"

definition demo_propose :: "string \<Rightarrow> (nat, raw_proposal) op" where
  "demo_propose agent w = (Inr \<lparr>rp_proposal_reference = Some ''ref'', rp_safe_summary = Some ''text''\<rparr>, w + 1)"

definition demo_critique :: "string \<Rightarrow> string \<Rightarrow> (nat, string) op" where
  "demo_critique agent other w = (Inr ''critique'', w + 1)"

lemma demo_debate:
  "fst (debate_execute ''s'' ''e'' [''a'', ''b'', ''c''] demo_propose demo_critique demo_vote 2 (Map.empty, 0)) =
   Inr \<lparr>db_session_id = ''s'', db_execution_id = ''e'', db_phase = DB_Completed, db_participant_ids = [''a'', ''b'', ''c''],
     db_proposals = map (\<lambda>i. \<lparr>dp_agent_id = i, dp_proposal_reference = ''ref'', dp_safe_summary = ''text'',
       dp_critique_references = [''critique'', ''critique'']\<rparr>) [''a'', ''b'', ''c''],
     db_votes = [(''a'', ''b''), (''b'', ''a''), (''c'', ''a'')], db_winner_agent_id = Some ''a'', db_dissenting_agent_ids = [''a''],
     db_requires_hitl = False, db_checkpoint_version = 1\<rparr>"
  by code_simp

text \<open>
  C22: the outcome of a debate.  An execution from no checkpoint, or from one before the vote, that
  returns has one vote of each participant, for another participant; the winner has the most votes,
  the smallest id among equals; a person is asked exactly when the winner has fewer votes than the
  quorum, and the debate is completed otherwise; the dissenters are those who voted for another.  The
  outcome is final: every later execution returns it without calling anyone, whatever quorum it names.
\<close>

theorem debate_outcome:
  fixes w :: 'w
  assumes "keyed store" "undecided (store (sid, eid))"
    and "debate_execute sid eid ps propose critique vote quorum (store, w) = (Inr st, store1, w1)"
  shows "decided ps quorum st \<and>
    (\<forall>ps' propose' critique' vote' quorum' (w' :: 'w). 2 \<le> length ps' \<and> distinct ps' \<and> 1 \<le> quorum' \<and> quorum' \<le> int (length ps') \<longrightarrow>
       debate_execute sid eid ps' propose' critique' vote' quorum' (store1, w') = (Inr st, store1, w'))"
  using debate_votes [OF assms] by (auto intro: decided_final)

theorem debate_outcome_witness:
  "\<exists>st store1 w1. debate_execute ''s'' ''e'' [''a'', ''b'', ''c''] demo_propose demo_critique demo_vote 2 (Map.empty, 0) = (Inr st, store1, w1) \<and>
     db_winner_agent_id st = Some ''a'' \<and> decided [''a'', ''b'', ''c''] 2 st \<and>
     debate_execute ''s'' ''e'' [''a'', ''b''] demo_propose demo_critique demo_vote 1 (store1, 7) = (Inr st, store1, 7)"
proof -
  obtain r store1 w1 where r: "debate_execute ''s'' ''e'' [''a'', ''b'', ''c''] demo_propose demo_critique demo_vote 2 (Map.empty, 0) = (r, store1, w1)"
    by (metis surj_pair)
  then obtain st where st: "r = Inr st" "db_winner_agent_id st = Some ''a''" using demo_debate by auto
  have "keyed Map.empty" "undecided (Map.empty (''s'', ''e''))" by (simp_all add: keyed_def undecided_def)
  note out = debate_outcome [OF this r [unfolded st(1)]]
  have "debate_execute ''s'' ''e'' [''a'', ''b''] demo_propose demo_critique demo_vote 1 (store1, 7) = (Inr st, store1, 7)"
    using conjunct2 [OF out] by simp
  then show ?thesis using conjunct1 [OF out] r st by simp
qed

end
