(* ===== verification/Consensus.thy ===== *)
theory Consensus
  imports Prelude
begin

text \<open>
  The consensus pattern (\<open>app/coordination/patterns/consensus_adapter.py\<close>): verifiers vote one after the
  other within a budget and a deadline, a checkpoint after each; a judge decides, and anything but an
  unanimous quorum goes to a person.  The callbacks, the clock and the cancellation event are
  parameters over a state \<open>'w\<close>; floating-point costs are of an abstract type \<open>'f\<close> with the operations
  the code uses.
\<close>

section \<open>The model\<close>

record 'f float_ops =
  fl_zero :: 'f
  fl_one :: 'f
  fl_add :: "'f \<Rightarrow> 'f \<Rightarrow> 'f"
  fl_less :: "'f \<Rightarrow> 'f \<Rightarrow> bool"

record 'f consensus_vote =
  cv_verifier_id :: string
  cv_provider_id :: string
  cv_model_id :: string
  cv_success :: bool
  cv_safe_reason :: string
  cv_confidence :: 'f
  cv_evidence_references :: "string list"
  cv_cost_usd :: 'f

datatype consensus_phase = CN_Created | CN_Verifying | CN_Judging | CN_Completed | CN_Escalated

record 'f consensus_state =
  cn_session_id :: string
  cn_execution_id :: string
  cn_phase :: consensus_phase
  cn_rubric_id :: string
  cn_rubric_version :: string
  cn_verifier_ids :: "string list"
  cn_votes :: "'f consensus_vote list"
  cn_judge_decision :: "bool option"
  cn_judge_reference :: "string option"
  cn_disagreement :: bool
  cn_quorum_met :: bool
  cn_requires_hitl :: bool
  cn_total_cost_usd :: 'f
  cn_terminal_reason :: "string option"
  cn_checkpoint_version :: int

type_synonym 'f consensuses = "string \<times> string \<Rightarrow> 'f consensus_state option"

definition save_consensus :: "'f consensus_state \<Rightarrow> 'f consensuses \<Rightarrow> 'f consensuses" where
  "save_consensus st store = store((cn_session_id st, cn_execution_id st) \<mapsto> st)"

text \<open>The mapping a verifier returns, which overrides the \<open>verifier_id\<close> of the call; \<open>None\<close> is an absent key.\<close>

record 'f raw_vote =
  rv_verifier_id :: "string option"
  rv_provider_id :: "string option"
  rv_model_id :: "string option"
  rv_success :: "bool option"
  rv_safe_reason :: "string option"
  rv_confidence :: "'f option"
  rv_evidence_references :: "string list option"
  rv_cost_usd :: "'f option"
  rv_extra_keys :: bool

text \<open>The validators of the model's fields; a comparison with \<open>ge\<close> or \<open>le\<close> is a negated \<open>fl_less\<close>.\<close>

definition vote_fields_ok :: "'f float_ops \<Rightarrow> 'f consensus_vote \<Rightarrow> bool" where
  "vote_fields_ok fl v \<longleftrightarrow> cv_verifier_id v \<noteq> [] \<and> cv_provider_id v \<noteq> [] \<and> cv_model_id v \<noteq> [] \<and> length (cv_safe_reason v) \<le> 2000 \<and>
     \<not> fl_less fl (cv_confidence v) (fl_zero fl) \<and> \<not> fl_less fl (fl_one fl) (cv_confidence v) \<and> \<not> fl_less fl (cv_cost_usd v) (fl_zero fl)"

definition validate_vote :: "'f float_ops \<Rightarrow> string \<Rightarrow> 'f raw_vote \<Rightarrow> 'f consensus_vote option" where
  "validate_vote fl verifier raw =
     (case (rv_provider_id raw, rv_model_id raw, rv_success raw, rv_safe_reason raw, rv_confidence raw) of
        (Some provider, Some model, Some success, Some reason, Some confidence) \<Rightarrow>
          let v = \<lparr>cv_verifier_id = (case rv_verifier_id raw of None \<Rightarrow> verifier | Some i \<Rightarrow> i), cv_provider_id = provider,
                cv_model_id = model, cv_success = success, cv_safe_reason = reason, cv_confidence = confidence,
                cv_evidence_references = (case rv_evidence_references raw of None \<Rightarrow> [] | Some es \<Rightarrow> es),
                cv_cost_usd = (case rv_cost_usd raw of None \<Rightarrow> fl_zero fl | Some c \<Rightarrow> c)\<rparr>
          in if vote_fields_ok fl v \<and> \<not> rv_extra_keys raw then Some v else None
      | _ \<Rightarrow> None)"

text \<open>An exception of the callback, or of the validation, makes the verifier unavailable.\<close>

definition unavailable_vote :: "'f float_ops \<Rightarrow> string \<Rightarrow> string \<Rightarrow> 'f consensus_vote result" where
  "unavailable_vote fl verifier type_name =
     (let v = \<lparr>cv_verifier_id = verifier, cv_provider_id = ''unavailable'', cv_model_id = ''unavailable'', cv_success = False,
            cv_safe_reason = ''verifier unavailable: '' @ type_name, cv_confidence = fl_zero fl, cv_evidence_references = [],
            cv_cost_usd = fl_zero fl\<rparr>
      in if vote_fields_ok fl v then Inr v else Inl (ValueError ''ConsensusVote''))"

definition cast_vote :: "'f float_ops \<Rightarrow> (py_error \<Rightarrow> string) \<Rightarrow> (string \<Rightarrow> ('w, 'f raw_vote) op) \<Rightarrow> string \<Rightarrow> ('w, 'f consensus_vote) op" where
  "cast_vote fl type_name verify verifier w =
     (case verify verifier w of
        (Inl e, w1) \<Rightarrow> (unavailable_vote fl verifier (type_name e), w1)
      | (Inr raw, w1) \<Rightarrow>
          ((case validate_vote fl verifier raw of
              Some v \<Rightarrow> Inr v
            | None \<Rightarrow> unavailable_vote fl verifier ''ValidationError''), w1))"

definition escalate :: "'f consensus_state \<Rightarrow> string \<Rightarrow> 'f consensuses \<Rightarrow> 'f consensus_state \<times> 'f consensuses" where
  "escalate st reason store =
     (let st1 = st\<lparr>cn_phase := CN_Escalated, cn_requires_hitl := True, cn_terminal_reason := Some reason\<rparr>
      in (st1, save_consensus st1 store))"

text \<open>The settings of an execution.\<close>

record ('f, 'w) consensus_config =
  cc_float :: "'f float_ops"
  cc_type_name :: "py_error \<Rightarrow> string"
  cc_verify :: "string \<Rightarrow> ('w, 'f raw_vote) op"
  cc_clock :: "'w \<Rightarrow> instant"
  cc_cancelled :: "('w \<Rightarrow> bool) option"
  cc_quorum :: int
  cc_maximum_cost_usd :: 'f
  cc_deadline :: instant

text \<open>The verification loop: \<open>Inl\<close> is a return or an exception, \<open>Inr\<close> the state after the loop.\<close>

fun verify_all :: "('f, 'w) consensus_config \<Rightarrow> string set \<Rightarrow> string list \<Rightarrow> 'f consensus_state \<Rightarrow> 'f consensuses \<times> 'w \<Rightarrow>
    ('f consensus_state result + 'f consensus_state) \<times> 'f consensuses \<times> 'w" where
  "verify_all c finished [] st sw = (Inr st, sw)"
| "verify_all c finished (v # vs) st (store, w) =
     (if v \<in> finished then verify_all c finished vs st (store, w)
      else if cc_cancelled c \<noteq> None \<and> the (cc_cancelled c) w
      then (case escalate st ''cancelled'' store of (st1, store1) \<Rightarrow> (Inl (Inr st1), store1, w))
      else if cc_deadline c \<le> cc_clock c w
      then (case escalate st ''deadline_exceeded'' store of (st1, store1) \<Rightarrow> (Inl (Inr st1), store1, w))
      else
      case cast_vote (cc_float c) (cc_type_name c) (cc_verify c) v w of
        (Inl e, w1) \<Rightarrow> (Inl (Inl e), store, w1)
      | (Inr vote, w1) \<Rightarrow>
      (let next_cost = fl_add (cc_float c) (cn_total_cost_usd st) (cv_cost_usd vote) in
       if fl_less (cc_float c) (cc_maximum_cost_usd c) next_cost
       then (case escalate st ''budget_exhausted'' store of (st1, store1) \<Rightarrow> (Inl (Inr st1), store1, w1))
       else let st1 = st\<lparr>cn_phase := CN_Verifying, cn_votes := cn_votes st @ [vote], cn_total_cost_usd := next_cost\<rparr>
            in verify_all c finished vs st1 (save_consensus st1 store, w1)))"

text \<open>The mapping a judge returns.\<close>

record 'f raw_judgement =
  rj_cost_usd :: "'f option"
  rj_success :: "bool option"
  rj_evidence_reference :: "string option"

definition available_votes :: "'f consensus_state \<Rightarrow> 'f consensus_vote list" where
  "available_votes st = filter (\<lambda>v. cv_provider_id v \<noteq> ''unavailable'') (cn_votes st)"

definition judge_all :: "('f, 'w) consensus_config \<Rightarrow> ('f consensus_vote list \<Rightarrow> string \<Rightarrow> string \<Rightarrow> ('w, 'f raw_judgement) op) \<Rightarrow> string \<Rightarrow> string \<Rightarrow>
    'f consensus_state \<Rightarrow> 'f consensuses \<times> 'w \<Rightarrow> 'f consensus_state \<times> 'f consensuses \<times> 'w" where
  "judge_all c judge rubric version st0 sw =
     (case sw of (store0, w) \<Rightarrow>
      if int (length (available_votes st0)) < cc_quorum c
      then (case escalate st0 ''quorum_lost'' store0 of (st1, store1) \<Rightarrow> (st1, store1, w))
      else
      let disagreement = (1 < length (remdups (map cv_success (available_votes st0))));
          st = st0\<lparr>cn_phase := CN_Judging, cn_disagreement := disagreement\<rparr>;
          store = save_consensus st store0 in
      case judge (cn_votes st) rubric version w of
        (Inl _, w1) \<Rightarrow> (case escalate st ''judge_failed'' store of (st1, store1) \<Rightarrow> (st1, store1, w1))
      | (Inr raw, w1) \<Rightarrow>
      (let judge_cost = (case rj_cost_usd raw of None \<Rightarrow> fl_zero (cc_float c) | Some x \<Rightarrow> x);
           total = fl_add (cc_float c) (cn_total_cost_usd st) judge_cost in
       if fl_less (cc_float c) (cc_maximum_cost_usd c) total
       then (case escalate st ''budget_exhausted'' store of (st1, store1) \<Rightarrow> (st1, store1, w1))
       else
       case (rj_success raw, rj_evidence_reference raw) of
         (Some decision, Some reference) \<Rightarrow>
           (let final = st\<lparr>cn_phase := if disagreement then CN_Escalated else CN_Completed, cn_judge_decision := Some decision,
                  cn_judge_reference := Some reference, cn_quorum_met := True, cn_requires_hitl := disagreement,
                  cn_total_cost_usd := total, cn_terminal_reason := if disagreement then Some ''disagreement'' else None\<rparr>
            in (final, save_consensus final store, w1))
       | _ \<Rightarrow> (case escalate st ''judge_failed'' store of (st1, store1) \<Rightarrow> (st1, store1, w1))))"

definition consensus_start :: "('f, 'w) consensus_config \<Rightarrow> string \<Rightarrow> string \<Rightarrow> string list \<Rightarrow> string \<Rightarrow> string \<Rightarrow> 'f consensus_state" where
  "consensus_start c sid eid verifiers rubric version =
     \<lparr>cn_session_id = sid, cn_execution_id = eid, cn_phase = CN_Created, cn_rubric_id = rubric, cn_rubric_version = version,
      cn_verifier_ids = verifiers, cn_votes = [], cn_judge_decision = None, cn_judge_reference = None, cn_disagreement = False,
      cn_quorum_met = False, cn_requires_hitl = False, cn_total_cost_usd = fl_zero (cc_float c), cn_terminal_reason = None,
      cn_checkpoint_version = 1\<rparr>"

definition consensus_execute :: "('f, 'w) consensus_config \<Rightarrow> ('f consensus_vote list \<Rightarrow> string \<Rightarrow> string \<Rightarrow> ('w, 'f raw_judgement) op) \<Rightarrow>
    bool \<Rightarrow> string \<Rightarrow> string \<Rightarrow> string list \<Rightarrow> string \<Rightarrow> string \<Rightarrow> 'f consensuses \<times> 'w \<Rightarrow>
    'f consensus_state result \<times> 'f consensuses \<times> 'w" where
  "consensus_execute c judge policy_allowed sid eid verifiers rubric version sw =
     (if length verifiers < 2 \<or> \<not> distinct verifiers then (Inl (ValueError ''consensus requires distinct verifier identities''), sw)
      else if \<not> (2 \<le> cc_quorum c \<and> cc_quorum c \<le> int (length verifiers)) then (Inl (ValueError ''invalid consensus quorum''), sw)
      else if \<not> policy_allowed then (Inl (PermissionError ''consensus verification denied by policy''), sw)
      else
      case (case fst sw (sid, eid) of
              None \<Rightarrow> (let st = consensus_start c sid eid verifiers rubric version in (st, save_consensus st (fst sw), snd sw))
            | Some st \<Rightarrow> (st, sw)) of (st, sw0) \<Rightarrow>
      if cn_phase st \<in> {CN_Completed, CN_Escalated} then (Inr st, sw0)
      else
      case verify_all c (set (map cv_verifier_id (cn_votes st))) verifiers st sw0 of
        (Inl r, sw1) \<Rightarrow> (r, sw1)
      | (Inr st1, sw1) \<Rightarrow> (case judge_all c judge rubric version st1 sw1 of (st2, sw2) \<Rightarrow> (Inr st2, sw2)))"


section \<open>One vote per verifier\<close>

definition consensus_final :: "'f consensus_state \<Rightarrow> bool" where
  "consensus_final st \<longleftrightarrow> cn_phase st \<in> {CN_Completed, CN_Escalated}"

text \<open>A verifier that answers under its own identity.\<close>

definition own_identity :: "(string \<Rightarrow> ('w, 'f raw_vote) op) \<Rightarrow> bool" where
  "own_identity verify \<longleftrightarrow> (\<forall>v w raw w1. verify v w = (Inr raw, w1) \<longrightarrow> rv_verifier_id raw \<in> {None, Some v})"

definition voters :: "'f consensus_state \<Rightarrow> string list" where
  "voters st = map cv_verifier_id (cn_votes st)"

lemma cast_vote_id:
  assumes own: "own_identity verify" and c: "cast_vote fl type_name verify v w = (Inr vote, w1)"
  shows "cv_verifier_id vote = v"
proof -
  have un: "cv_verifier_id x = v" if "unavailable_vote fl v n = Inr x" for n x
    using that by (auto simp: unavailable_vote_def Let_def split: if_splits)
  obtain r w2 where r: "verify v w = (r, w2)" by fastforce
  show ?thesis
  proof (cases r)
    case (Inl e)
    then have "unavailable_vote fl v (type_name e) = Inr vote" using c r by (simp add: cast_vote_def)
    then show ?thesis by (rule un)
  next
    case (Inr raw)
    then have id: "rv_verifier_id raw \<in> {None, Some v}" using own r unfolding own_identity_def by blast
    show ?thesis
    proof (cases "validate_vote fl v raw")
      case None
      then have "unavailable_vote fl v ''ValidationError'' = Inr vote" using c r Inr by (simp add: cast_vote_def)
      then show ?thesis by (rule un)
    next
      case (Some x)
      then have "x = vote" using c r Inr by (simp add: cast_vote_def)
      then show ?thesis using Some id by (auto simp: validate_vote_def Let_def split: option.splits if_splits)
    qed
  qed
qed

definition keyed_consensus :: "'f consensuses \<Rightarrow> bool" where
  "keyed_consensus store \<longleftrightarrow> (\<forall>key st. store key = Some st \<longrightarrow> key = (cn_session_id st, cn_execution_id st))"

lemma keyed_consensus_save [simp]: "keyed_consensus store \<Longrightarrow> keyed_consensus (save_consensus st store)"
  by (auto simp: keyed_consensus_def save_consensus_def)

lemma save_lookup [simp]: "key = (cn_session_id st, cn_execution_id st) \<Longrightarrow> save_consensus st store key = Some st"
  by (simp add: save_consensus_def)

text \<open>Escalating asks a person and records the reason.\<close>

definition escalated_as :: "'f consensus_state \<Rightarrow> 'f consensus_state \<Rightarrow> bool" where
  "escalated_as st st1 \<longleftrightarrow> cn_phase st1 = CN_Escalated \<and> cn_requires_hitl st1 \<and> cn_terminal_reason st1 \<noteq> None \<and>
     voters st1 = voters st \<and> cn_session_id st1 = cn_session_id st \<and> cn_execution_id st1 = cn_execution_id st"

lemma escalate_as: "escalate st reason store = (st1, store1) \<Longrightarrow> escalated_as st st1 \<and> store1 = save_consensus st1 store"
  by (auto simp: escalate_def escalated_as_def voters_def Let_def)

definition loop_inv :: "string \<times> string \<Rightarrow> string set \<Rightarrow> string list \<Rightarrow> 'f consensus_state \<Rightarrow> bool" where
  "loop_inv key finished vs st \<longleftrightarrow> distinct (voters st) \<and> set (voters st) \<inter> (set vs - finished) = {} \<and> \<not> consensus_final st \<and>
     key = (cn_session_id st, cn_execution_id st)"

lemma verify_all_ok:
  "\<lbrakk>own_identity (cc_verify c); loop_inv key finished vs st; distinct vs; keyed_consensus (fst sw); verify_all c finished vs st sw = (r, sw1)\<rbrakk> \<Longrightarrow>
    keyed_consensus (fst sw1) \<and>
    (case r of
       Inl (Inl e) \<Rightarrow> True
     | Inl (Inr st1) \<Rightarrow> cn_phase st1 = CN_Escalated \<and> cn_requires_hitl st1 \<and> cn_terminal_reason st1 \<noteq> None \<and> distinct (voters st1) \<and> fst sw1 key = Some st1
     | Inr st1 \<Rightarrow> loop_inv key finished [] st1)"
proof (induction c finished vs st sw arbitrary: r sw1 rule: verify_all.induct)
  case (1 c finished st sw)
  then show ?case by (auto simp: loop_inv_def)
next
  case (2 c finished v vs st store w)
  have esc: ?case if e: "(case escalate st reason store of (st1, store1) \<Rightarrow> (Inl (Inr st1), store1, w')) = (r, sw1)" for reason w'
  proof -
    obtain st1 store1 where s: "escalate st reason store = (st1, store1)" by fastforce
    then have "r = Inl (Inr st1)" "sw1 = (store1, w')" using e by auto
    then show ?thesis using 2(4,6) escalate_as [OF s] by (auto simp: loop_inv_def escalated_as_def)
  qed
  show ?case
  proof (cases "v \<in> finished")
    case True
    then have "loop_inv key finished vs st" using 2(4) by (auto simp: loop_inv_def)
    then show ?thesis using 2(1) [OF True] 2(3,5-7) True by simp
  next
    case fresh: False
    consider "cc_cancelled c \<noteq> None \<and> the (cc_cancelled c) w"
      | "\<not> (cc_cancelled c \<noteq> None \<and> the (cc_cancelled c) w)" "cc_deadline c \<le> cc_clock c w"
      | "\<not> (cc_cancelled c \<noteq> None \<and> the (cc_cancelled c) w)" "\<not> cc_deadline c \<le> cc_clock c w" by blast
    then show ?thesis
    proof cases
      case 1
      then show ?thesis using 2(7) fresh by (intro esc [where reason = "''cancelled''" and w' = w]) simp
    next
      case n: 2
      then show ?thesis using 2(7) fresh by (intro esc [where reason = "''deadline_exceeded''" and w' = w]) (simp split: if_splits)
    next
      case n: 3
      obtain rv w1 where cv: "cast_vote (cc_float c) (cc_type_name c) (cc_verify c) v w = (rv, w1)" by fastforce
      show ?thesis
      proof (cases rv)
        case (Inl e)
        then show ?thesis using 2(6,7) fresh n cv by (auto split: if_splits)
      next
        case (Inr vote)
        let ?cost = "fl_add (cc_float c) (cn_total_cost_usd st) (cv_cost_usd vote)"
        let ?st = "st\<lparr>cn_phase := CN_Verifying, cn_votes := cn_votes st @ [vote], cn_total_cost_usd := ?cost\<rparr>"
        show ?thesis
        proof (cases "fl_less (cc_float c) (cc_maximum_cost_usd c) ?cost")
          case True
          then show ?thesis using 2(7) fresh n cv Inr by (intro esc [where reason = "''budget_exhausted''" and w' = w1]) (simp add: Let_def split: if_splits)
        next
          case False
          have "cv_verifier_id vote = v" using cast_vote_id [OF 2(3)] cv Inr by blast
          then have inv: "loop_inv key finished vs ?st"
            using 2(4,5) fresh by (auto simp: loop_inv_def voters_def consensus_final_def)
          have "verify_all c finished vs ?st (save_consensus ?st store, w1) = (r, sw1)"
            using 2(7) fresh n cv Inr False by (simp add: Let_def split: if_splits)
          then show ?thesis
            using 2(2) [OF fresh n cv [symmetric] Inr refl False refl 2(3) inv] 2(5,6) by simp
        qed
      qed
    qed
  qed
qed


section \<open>The judgement\<close>

text \<open>
  A settled consensus.  Completed: at least a quorum of different verifiers answered, all that
  answered agree, a judge decided, and the cost does not exceed the maximum.  Escalated: a person is
  asked and the reason is recorded.
\<close>

definition unanimous :: "'f consensus_vote list \<Rightarrow> bool" where
  "unanimous vs \<longleftrightarrow> (\<exists>b. \<forall>v \<in> set vs. cv_success v = b)"

definition settled_consensus :: "('f, 'w) consensus_config \<Rightarrow> 'f consensus_state \<Rightarrow> bool" where
  "settled_consensus c st \<longleftrightarrow>
     (case cn_phase st of
        CN_Completed \<Rightarrow> cc_quorum c \<le> int (card (cv_verifier_id ` set (available_votes st))) \<and> unanimous (available_votes st) \<and>
          \<not> fl_less (cc_float c) (cc_maximum_cost_usd c) (cn_total_cost_usd st) \<and> cn_judge_decision st \<noteq> None \<and> \<not> cn_requires_hitl st
      | CN_Escalated \<Rightarrow> cn_requires_hitl st \<and> cn_terminal_reason st \<noteq> None
      | _ \<Rightarrow> False)"

lemma unanimous_remdups: "unanimous vs \<longleftrightarrow> \<not> 1 < length (remdups (map cv_success vs))"
proof -
  have "length (remdups (map cv_success vs)) = card (cv_success ` set vs)" by (simp add: length_remdups_card_conv)
  moreover have "unanimous vs \<longleftrightarrow> card (cv_success ` set vs) \<le> 1"
    by (auto simp: unanimous_def card_le_Suc0_iff_eq)
  ultimately show ?thesis by (simp add: not_less)
qed

lemma available_distinct:
  assumes "distinct (voters st)"
  shows "card (cv_verifier_id ` set (available_votes st)) = length (available_votes st)"
proof -
  have "distinct (map cv_verifier_id (available_votes st))"
    using assms by (simp add: available_votes_def voters_def distinct_map_filter)
  then show ?thesis by (metis distinct_card length_map list.set_map)
qed

lemma judge_all_ok:
  assumes inv: "loop_inv key finished [] st0" and k: "keyed_consensus store0"
    and j: "judge_all c judge rubric version st0 (store0, w) = (st, store1, w1)"
  shows "settled_consensus c st \<and> distinct (voters st) \<and> store1 key = Some st \<and> keyed_consensus store1"
proof -
  have d: "distinct (voters st0)" and key: "key = (cn_session_id st0, cn_execution_id st0)" using inv by (auto simp: loop_inv_def)
  have esc: ?thesis if e: "(case escalate s reason store of (st1, store2) \<Rightarrow> (st1, store2, wx)) = (st, store1, w1)"
    "voters s = voters st0" "cn_session_id s = cn_session_id st0" "cn_execution_id s = cn_execution_id st0" "keyed_consensus store"
    for s reason store wx
  proof -
    obtain st1 store2 where s: "escalate s reason store = (st1, store2)" by fastforce
    then show ?thesis using e escalate_as [OF s] d key by (auto simp: escalated_as_def settled_consensus_def)
  qed
  let ?dis = "1 < length (remdups (map cv_success (available_votes st0)))"
  let ?st = "st0\<lparr>cn_phase := CN_Judging, cn_disagreement := ?dis\<rparr>"
  show ?thesis
  proof (cases "int (length (available_votes st0)) < cc_quorum c")
    case True
    then show ?thesis using j k by (intro esc [where s = st0 and reason = "''quorum_lost''" and store = store0 and wx = w]) (simp_all add: judge_all_def)
  next
    case q: False
    obtain rj w3 where r: "judge (cn_votes st0) rubric version w = (rj, w3)" by fastforce
    note fail = esc [where s = ?st and store = "save_consensus ?st store0" and wx = w3]
    show ?thesis
    proof (cases rj)
      case (Inl e)
      then show ?thesis using j q r k by (intro fail [where reason = "''judge_failed''"]) (simp_all add: judge_all_def Let_def voters_def)
    next
      case (Inr raw)
      let ?total = "fl_add (cc_float c) (cn_total_cost_usd st0) (case rj_cost_usd raw of None \<Rightarrow> fl_zero (cc_float c) | Some x \<Rightarrow> x)"
      show ?thesis
      proof (cases "fl_less (cc_float c) (cc_maximum_cost_usd c) ?total")
        case True
        then show ?thesis using j q r Inr k by (intro fail [where reason = "''budget_exhausted''"]) (simp_all add: judge_all_def Let_def voters_def)
      next
        case cheap: False
        show ?thesis
        proof (cases "rj_success raw = None \<or> rj_evidence_reference raw = None")
          case True
          then show ?thesis using j q r Inr cheap k
            by (intro fail [where reason = "''judge_failed''"]) (auto simp: judge_all_def Let_def voters_def split: option.splits)
        next
          case False
          then obtain decision reference where dr: "rj_success raw = Some decision" "rj_evidence_reference raw = Some reference" by auto
          let ?final = "?st\<lparr>cn_phase := if ?dis then CN_Escalated else CN_Completed, cn_judge_decision := Some decision,
                  cn_judge_reference := Some reference, cn_quorum_met := True, cn_requires_hitl := ?dis,
                  cn_total_cost_usd := ?total, cn_terminal_reason := if ?dis then Some ''disagreement'' else None\<rparr>"
          have f: "st = ?final" "store1 = save_consensus ?final (save_consensus ?st store0)"
            using j q r Inr cheap dr by (auto simp: judge_all_def Let_def)
          have "settled_consensus c ?final"
            using q cheap available_distinct [OF d] unanimous_remdups [of "available_votes st0"]
            by (simp add: settled_consensus_def available_votes_def)
          then show ?thesis using d key k by (simp add: f voters_def)
        qed
      qed
    qed
  qed
qed

section \<open>Whole executions\<close>

text \<open>A checkpoint from which a consensus can still be reached.\<close>

definition open_consensus :: "'f consensus_state option \<Rightarrow> bool" where
  "open_consensus st \<longleftrightarrow> (case st of None \<Rightarrow> True | Some s \<Rightarrow> distinct (voters s) \<and> \<not> consensus_final s)"

lemma execute_settles:
  assumes own: "own_identity (cc_verify c)" and k: "keyed_consensus store" and op: "open_consensus (store (sid, eid))"
    and ex: "consensus_execute c judge allowed sid eid verifiers rubric version (store, w) = (Inr st, store1, w1)"
  shows "settled_consensus c st \<and> distinct (voters st) \<and> store1 (sid, eid) = Some st \<and> keyed_consensus store1"
proof -
  let ?key = "(sid, eid)"
  have args: "distinct verifiers" "allowed" "2 \<le> length verifiers" "2 \<le> cc_quorum c" "cc_quorum c \<le> int (length verifiers)"
    using ex by (auto simp: consensus_execute_def split: if_splits)
  obtain st0 store0 where s0: "(case store ?key of
              None \<Rightarrow> (let st = consensus_start c sid eid verifiers rubric version in (st, save_consensus st store, w))
            | Some st \<Rightarrow> (st, store, w)) = (st0, store0, w)"
    by (cases "store ?key") (auto simp: Let_def)
  have st0: "keyed_consensus store0" "\<not> consensus_final st0" "distinct (voters st0)" "?key = (cn_session_id st0, cn_execution_id st0)"
  proof -
    have "keyed_consensus store0 \<and> \<not> consensus_final st0 \<and> distinct (voters st0) \<and> ?key = (cn_session_id st0, cn_execution_id st0)"
    proof (cases "store ?key")
      case None
      then have "st0 = consensus_start c sid eid verifiers rubric version" "store0 = save_consensus st0 store" using s0 by (auto simp: Let_def)
      then show ?thesis using k by (simp add: consensus_start_def consensus_final_def voters_def)
    next
      case (Some s)
      then have "st0 = s" "store0 = store" using s0 by auto
      then show ?thesis using k op Some by (simp add: open_consensus_def keyed_consensus_def)
    qed
    then show "keyed_consensus store0" "\<not> consensus_final st0" "distinct (voters st0)" "?key = (cn_session_id st0, cn_execution_id st0)"
      by simp_all
  qed
  let ?fin = "set (map cv_verifier_id (cn_votes st0))"
  have inv: "loop_inv ?key ?fin verifiers st0" using st0 by (auto simp: loop_inv_def voters_def)
  obtain r sw1 where v: "verify_all c ?fin verifiers st0 (store0, w) = (r, sw1)" by (metis surj_pair)
  have loop: "keyed_consensus (fst sw1)"
    "(case r of
       Inl (Inl e) \<Rightarrow> True
     | Inl (Inr st1) \<Rightarrow> cn_phase st1 = CN_Escalated \<and> cn_requires_hitl st1 \<and> cn_terminal_reason st1 \<noteq> None \<and> distinct (voters st1) \<and> fst sw1 ?key = Some st1
     | Inr st1 \<Rightarrow> loop_inv ?key ?fin [] st1)"
    using verify_all_ok [OF own inv args(1) _ v] st0(1) by auto
  have ex': "(case r of Inl r' \<Rightarrow> (r', sw1) | Inr st1 \<Rightarrow> (case judge_all c judge rubric version st1 sw1 of (st2, sw2) \<Rightarrow> (Inr st2, sw2))) = (Inr st, store1, w1)"
  proof -
    have "cn_phase st0 \<notin> {CN_Completed, CN_Escalated}" using st0(2) by (simp add: consensus_final_def)
    then show ?thesis using ex args s0 v
      by (cases r; cases "store ?key") (simp_all add: consensus_execute_def Let_def)
  qed
  show ?thesis
  proof (cases r)
    case (Inl r')
    then show ?thesis using ex' loop by (auto simp: settled_consensus_def)
  next
    case (Inr st1)
    obtain store2 w2 where sw1: "sw1 = (store2, w2)" by fastforce
    have "judge_all c judge rubric version st1 (store2, w2) = (st, store1, w1)"
      using ex' Inr sw1 by (auto split: prod.splits)
    then show ?thesis using judge_all_ok [of ?key ?fin st1 store2 c judge rubric version w2 st store1 w1] loop Inr sw1 by simp
  qed
qed

lemma settled_final: "settled_consensus c st \<Longrightarrow> cn_phase st \<in> {CN_Completed, CN_Escalated}"
  by (auto simp: settled_consensus_def split: consensus_phase.splits)

lemma execute_again:
  assumes "settled_consensus c' st" "store (sid, eid) = Some st" "2 \<le> length verifiers" "distinct verifiers"
    "2 \<le> cc_quorum c" "cc_quorum c \<le> int (length verifiers)"
  shows "consensus_execute c judge True sid eid verifiers rubric version (store, w) = (Inr st, store, w)"
  using assms settled_final [OF assms(1)] by (auto simp: consensus_execute_def)


section \<open>Properties\<close>

definition demo_float :: "int float_ops" where
  "demo_float = \<lparr>fl_zero = 0, fl_one = 1, fl_add = (+), fl_less = (<)\<rparr>"

definition demo_verify :: "string \<Rightarrow> (nat, int raw_vote) op" where
  "demo_verify v n = (Inr \<lparr>rv_verifier_id = None, rv_provider_id = Some ''p'', rv_model_id = Some ''m'', rv_success = Some True,
     rv_safe_reason = Some ''ok'', rv_confidence = Some 1, rv_evidence_references = None, rv_cost_usd = Some 2, rv_extra_keys = False\<rparr>, n + 1)"

definition demo_config :: "(int, nat) consensus_config" where
  "demo_config = \<lparr>cc_float = demo_float, cc_type_name = (\<lambda>_. ''RuntimeError''), cc_verify = demo_verify, cc_clock = int, cc_cancelled = None,
     cc_quorum = 2, cc_maximum_cost_usd = 10, cc_deadline = 100\<rparr>"

definition demo_judge :: "int consensus_vote list \<Rightarrow> string \<Rightarrow> string \<Rightarrow> (nat, int raw_judgement) op" where
  "demo_judge votes rubric version n = (Inr \<lparr>rj_cost_usd = Some 1, rj_success = Some True, rj_evidence_reference = Some ''ref''\<rparr>, n + 1)"

lemma demo_consensus:
  "map_sum id (\<lambda>st. (cn_phase st, map cv_verifier_id (cn_votes st), cn_total_cost_usd st))
     (fst (consensus_execute demo_config demo_judge True ''s'' ''e'' [''a'', ''b'', ''c''] ''r'' ''1'' (Map.empty, 0))) =
   Inr (CN_Completed, [''a'', ''b'', ''c''], 7)"
  by code_simp

text \<open>
  The verifier's mapping may carry a \<open>verifier_id\<close>, which replaces the one of the call: then one
  verifier votes under the name of another, and the quorum of two is one identity.
\<close>

lemma borrowed_identity:
  "map_sum id (\<lambda>st. (cn_phase st, map cv_verifier_id (cn_votes st)))
     (fst (consensus_execute (demo_config\<lparr>cc_verify := \<lambda>v n. case demo_verify v n of (r, n1) \<Rightarrow> (map_sum id (\<lambda>raw. raw\<lparr>rv_verifier_id := Some ''a''\<rparr>) r, n1)\<rparr>)
        demo_judge True ''s'' ''e'' [''a'', ''b''] ''r'' ''1'' (Map.empty, 0))) =
   Inr (CN_Completed, [''a'', ''a''])"
  by code_simp



end
