(* ===== verification/Swarm.thy ===== *)
theory Swarm
  imports Prelude
begin

text \<open>
  The decentralized swarm (\<open>app/coordination/swarm\<close>): fenced claims on work items (\<open>claims.py\<close>), the
  gossip router (\<open>gossip.py\<close>) and the convergence decision (\<open>convergence.py\<close>).  Clock readings and the
  credential validator are arguments.
\<close>

section \<open>Claims\<close>

datatype swarm_claim_state = SW_Claimed | SW_Completed

record swarm_claim =
  sc_tenant_id :: string
  sc_work_item_id :: string
  sc_owner_agent_id :: string
  sc_fencing_token :: int
  sc_lease_expires_at :: instant
  sc_attempt :: int
  sc_state :: swarm_claim_state
  sc_result_reference :: "string option"

type_synonym swarm_claims = "string \<times> string \<Rightarrow> swarm_claim option"

definition swarm_acquire :: "string \<Rightarrow> string \<Rightarrow> string \<Rightarrow> duration \<Rightarrow> instant \<Rightarrow> (swarm_claims, swarm_claim) op" where
  "swarm_acquire tenant item owner lease now claims =
     (if lease \<le> 0 then (Inl (ValueError ''lease duration must be positive''), claims)
      else
      let key = (tenant, item);
          fresh = (\<lambda>prior. \<lparr>sc_tenant_id = tenant, sc_work_item_id = item, sc_owner_agent_id = owner,
            sc_fencing_token = (case prior of None \<Rightarrow> 1 | Some p \<Rightarrow> sc_fencing_token p + 1), sc_lease_expires_at = now + lease,
            sc_attempt = (case prior of None \<Rightarrow> 1 | Some p \<Rightarrow> sc_attempt p + 1), sc_state = SW_Claimed, sc_result_reference = None\<rparr>)
      in case claims key of
           None \<Rightarrow> (Inr (fresh None), claims(key \<mapsto> fresh None))
         | Some prior \<Rightarrow>
             if now < sc_lease_expires_at prior \<and> sc_state prior = SW_Claimed
             then if sc_owner_agent_id prior = owner then (Inr prior, claims)
                  else (Inl (RuntimeError ''work item is already claimed''), claims)
             else (Inr (fresh (Some prior)), claims(key \<mapsto> fresh (Some prior))))"

definition swarm_publish :: "string \<Rightarrow> string \<Rightarrow> string \<Rightarrow> int \<Rightarrow> string \<Rightarrow> (swarm_claims, swarm_claim) op" where
  "swarm_publish tenant item owner token reference claims =
     (case claims (tenant, item) of
        None \<Rightarrow> (Inl (StaleFencingTokenError ''stale swarm worker''), claims)
      | Some current \<Rightarrow>
          if sc_owner_agent_id current \<noteq> owner \<or> sc_fencing_token current \<noteq> token
          then (Inl (StaleFencingTokenError ''stale swarm worker''), claims)
          else let c = current\<lparr>sc_state := SW_Completed, sc_result_reference := Some reference\<rparr>
               in (Inr c, claims((tenant, item) \<mapsto> c)))"

datatype swarm_command =
    SwarmAcquire string string string duration instant
  | SwarmPublish string string string int string

fun swarm_step :: "swarm_command \<Rightarrow> (swarm_claims, swarm_claim) op" where
  "swarm_step (SwarmAcquire tenant item owner lease now) claims = swarm_acquire tenant item owner lease now claims"
| "swarm_step (SwarmPublish tenant item owner token ref) claims = swarm_publish tenant item owner token ref claims"

text \<open>A command and its reply; a grant is an acquisition that returned a claim.\<close>

type_synonym swarm_event = "swarm_command \<times> swarm_claim result"

fun swarm_trace :: "swarm_claims \<Rightarrow> swarm_command list \<Rightarrow> swarm_event list" where
  "swarm_trace claims [] = []"
| "swarm_trace claims (c # cs) = (case swarm_step c claims of (r, claims1) \<Rightarrow> (c, r) # swarm_trace claims1 cs)"

fun granted :: "swarm_event \<Rightarrow> (string \<times> string \<times> string \<times> int) option" where
  "granted (SwarmAcquire tenant item owner lease now, Inr claim) = Some (tenant, item, owner, sc_fencing_token claim)"
| "granted _ = None"

fun published :: "swarm_event \<Rightarrow> (string \<times> string \<times> string \<times> int) option" where
  "published (SwarmPublish tenant item owner token ref, Inr claim) = Some (tenant, item, owner, token)"
| "published _ = None"

section \<open>Fencing\<close>

text \<open>What earlier events say of the claims: tokens were granted in order, the latest to the present owner.\<close>

definition grants_ok :: "swarm_event list \<Rightarrow> swarm_claims \<Rightarrow> bool" where
  "grants_ok past claims \<longleftrightarrow>
     (\<forall>e \<in> set past. \<forall>t i ow n. granted e = Some (t, i, ow, n) \<longrightarrow>
        (\<exists>c. claims (t, i) = Some c \<and> n \<le> sc_fencing_token c \<and> (n = sc_fencing_token c \<longrightarrow> ow = sc_owner_agent_id c))) \<and>
     (\<forall>t i c. claims (t, i) = Some c \<longrightarrow> (\<exists>e \<in> set past. granted e = Some (t, i, sc_owner_agent_id c, sc_fencing_token c)))"

text \<open>
  What a reply promises given the events before it: a granted token is at least as great as every
  earlier token of the item, and equal only for the same owner; a result is accepted only under a
  token that was granted to the publisher and that no later grant has overtaken.
\<close>

definition reply_ok :: "swarm_event list \<Rightarrow> swarm_event \<Rightarrow> bool" where
  "reply_ok past e \<longleftrightarrow>
     (\<forall>t i ow n. granted e = Some (t, i, ow, n) \<longrightarrow>
        (\<forall>e' \<in> set past. \<forall>ow' n'. granted e' = Some (t, i, ow', n') \<longrightarrow> n' \<le> n \<and> (n' = n \<longrightarrow> ow' = ow))) \<and>
     (\<forall>t i ow n. published e = Some (t, i, ow, n) \<longrightarrow>
        (\<exists>e' \<in> set past. granted e' = Some (t, i, ow, n)) \<and>
        (\<forall>e' \<in> set past. \<forall>ow' n'. granted e' = Some (t, i, ow', n') \<longrightarrow> n' \<le> n))"

lemma swarm_acquire_cases:
  assumes "swarm_acquire tenant item owner lease now claims = (r, claims1)"
  obtains e where "r = Inl e" "claims1 = claims"
  | c where "r = Inr c" "claims1 = claims" "claims (tenant, item) = Some c" "sc_owner_agent_id c = owner"
  | c where "r = Inr c" "claims1 = claims((tenant, item) \<mapsto> c)" "sc_owner_agent_id c = owner" "claims (tenant, item) = None"
  | c p where "r = Inr c" "claims1 = claims((tenant, item) \<mapsto> c)" "sc_owner_agent_id c = owner" "claims (tenant, item) = Some p"
      "sc_fencing_token c = sc_fencing_token p + 1" "sc_lease_expires_at p \<le> now \<or> sc_state p = SW_Completed"
  using assms
  by (cases "claims (tenant, item)")
    (auto simp: swarm_acquire_def Let_def not_less split: if_splits intro: swarm_claim_state.exhaust)

lemma swarm_publish_cases:
  assumes "swarm_publish tenant item owner token ref claims = (r, claims1)"
  obtains e where "r = Inl e" "e = StaleFencingTokenError ''stale swarm worker''" "claims1 = claims"
  | c p where "r = Inr c" "claims1 = claims((tenant, item) \<mapsto> c)" "claims (tenant, item) = Some p" "sc_owner_agent_id p = owner"
      "sc_fencing_token p = token" "sc_owner_agent_id c = owner" "sc_fencing_token c = token"
  using assms by (auto simp: swarm_publish_def Let_def split: option.splits if_splits)

text \<open>Claims move on without a new grant, or with a grant of a token that is greater.\<close>

lemma grants_ok_same:
  assumes "grants_ok past claims" "granted e = None" "\<And>t i. map_option (\<lambda>c. (sc_owner_agent_id c, sc_fencing_token c)) (claims1 (t, i)) =
      map_option (\<lambda>c. (sc_owner_agent_id c, sc_fencing_token c)) (claims (t, i))"
  shows "grants_ok (past @ [e]) claims1"
proof -
  have bwd: "\<exists>c. claims (t, i) = Some c \<and> sc_owner_agent_id c = sc_owner_agent_id c1 \<and> sc_fencing_token c = sc_fencing_token c1"
    if "claims1 (t, i) = Some c1" for t i c1 using assms(3) [of t i] that by (cases "claims (t, i)") auto
  have forth: "\<exists>c1. claims1 (t, i) = Some c1 \<and> sc_owner_agent_id c = sc_owner_agent_id c1 \<and> sc_fencing_token c = sc_fencing_token c1"
    if "claims (t, i) = Some c" for t i c using assms(3) [of t i] that by (cases "claims1 (t, i)") auto
  show ?thesis
    unfolding grants_ok_def
  proof (intro conjI ballI allI impI)
    fix e' t i ow n assume "e' \<in> set (past @ [e])" "granted e' = Some (t, i, ow, n)"
    then have "e' \<in> set past" using assms(2) by auto
    then obtain c where "claims (t, i) = Some c" "n \<le> sc_fencing_token c" "n = sc_fencing_token c \<longrightarrow> ow = sc_owner_agent_id c"
      using assms(1) \<open>granted e' = _\<close> unfolding grants_ok_def by blast
    then show "\<exists>c. claims1 (t, i) = Some c \<and> n \<le> sc_fencing_token c \<and> (n = sc_fencing_token c \<longrightarrow> ow = sc_owner_agent_id c)"
      using forth [of t i c] by auto
  next
    fix t i c1 assume "claims1 (t, i) = Some c1"
    then obtain c where "claims (t, i) = Some c" "sc_owner_agent_id c = sc_owner_agent_id c1" "sc_fencing_token c = sc_fencing_token c1"
      using bwd by blast
    then show "\<exists>e' \<in> set (past @ [e]). granted e' = Some (t, i, sc_owner_agent_id c1, sc_fencing_token c1)"
      using assms(1) unfolding grants_ok_def by (metis UnI1 set_append)
  qed
qed

lemma grants_ok_new:
  assumes ok: "grants_ok past claims" and e: "granted e = Some (t, i, sc_owner_agent_id c, sc_fencing_token c)"
    and new: "\<And>p. claims (t, i) = Some p \<Longrightarrow> sc_fencing_token p < sc_fencing_token c"
  shows "grants_ok (past @ [e]) (claims((t, i) \<mapsto> c))"
  unfolding grants_ok_def
proof (intro conjI ballI allI impI)
  fix e' t' i' ow n assume e': "e' \<in> set (past @ [e])" "granted e' = Some (t', i', ow, n)"
  show "\<exists>d. (claims((t, i) \<mapsto> c)) (t', i') = Some d \<and> n \<le> sc_fencing_token d \<and> (n = sc_fencing_token d \<longrightarrow> ow = sc_owner_agent_id d)"
  proof (cases "e' = e")
    case True
    then show ?thesis using e e'(2) by simp
  next
    case False
    then have "e' \<in> set past" using e'(1) by simp
    then obtain p where p: "claims (t', i') = Some p" "n \<le> sc_fencing_token p" "n = sc_fencing_token p \<longrightarrow> ow = sc_owner_agent_id p"
      using ok e'(2) unfolding grants_ok_def by blast
    then show ?thesis using new [of p] by (cases "(t', i') = (t, i)") auto
  qed
next
  fix t' i' d assume d: "(claims((t, i) \<mapsto> c)) (t', i') = Some d"
  show "\<exists>e' \<in> set (past @ [e]). granted e' = Some (t', i', sc_owner_agent_id d, sc_fencing_token d)"
  proof (cases "(t', i') = (t, i)")
    case True
    then show ?thesis using d e by auto
  next
    case False
    then have "claims (t', i') = Some d" using d by (simp split: if_splits)
    then show ?thesis using ok unfolding grants_ok_def by (metis UnI1 set_append)
  qed
qed

lemma swarm_step_fenced:
  assumes ok: "grants_ok past claims" and s: "swarm_step c claims = (r, claims1)"
  shows "reply_ok past (c, r) \<and> grants_ok (past @ [(c, r)]) claims1"
proof (cases c)
  case (SwarmAcquire tenant item owner lease now)
  with s have s': "swarm_acquire tenant item owner lease now claims = (r, claims1)" by simp
  show ?thesis
  proof (cases rule: swarm_acquire_cases [OF s'])
    case (1 e)
    then show ?thesis using grants_ok_same [OF ok, of "(c, r)" claims1] SwarmAcquire by (simp add: reply_ok_def)
  next
    case (2 d)
    have "granted (c, r) = Some (tenant, item, sc_owner_agent_id d, sc_fencing_token d)" using SwarmAcquire 2 by simp
    moreover have "\<exists>e' \<in> set past. granted e' = granted (c, r)" using ok 2 SwarmAcquire unfolding grants_ok_def by auto
    moreover have "reply_ok past (c, r)" using ok 2 SwarmAcquire unfolding reply_ok_def grants_ok_def by fastforce
    ultimately show ?thesis using ok 2(2) unfolding grants_ok_def by (metis Un_iff set_append set_ConsD list.set(1) empty_iff)
  next
    case (3 d)
    have g: "granted (c, r) = Some (tenant, item, sc_owner_agent_id d, sc_fencing_token d)" using SwarmAcquire 3 by simp
    have "reply_ok past (c, r)" using ok 3 SwarmAcquire unfolding reply_ok_def grants_ok_def by fastforce
    then show ?thesis using grants_ok_new [OF ok g] 3 by simp
  next
    case (4 d p)
    have g: "granted (c, r) = Some (tenant, item, sc_owner_agent_id d, sc_fencing_token d)" using SwarmAcquire 4 by simp
    have "reply_ok past (c, r)" using ok 4 SwarmAcquire unfolding reply_ok_def grants_ok_def by fastforce
    then show ?thesis using grants_ok_new [OF ok g] 4 by simp
  qed
next
  case (SwarmPublish tenant item owner token ref)
  with s have s': "swarm_publish tenant item owner token ref claims = (r, claims1)" by simp
  show ?thesis
  proof (cases rule: swarm_publish_cases [OF s'])
    case (1 e)
    then show ?thesis using grants_ok_same [OF ok, of "(c, r)" claims1] SwarmPublish by (simp add: reply_ok_def)
  next
    case (2 d p)
    have "reply_ok past (c, r)" using ok 2 SwarmPublish unfolding reply_ok_def grants_ok_def by fastforce
    then show ?thesis using grants_ok_same [OF ok, of "(c, r)" claims1] 2 SwarmPublish by simp
  qed
qed

lemma swarm_trace_fenced:
  "grants_ok past claims \<Longrightarrow> j < length (swarm_trace claims cs) \<Longrightarrow>
   reply_ok (past @ take j (swarm_trace claims cs)) (swarm_trace claims cs ! j)"
proof (induction cs arbitrary: past claims j)
  case (Cons c cs)
  obtain r claims1 where s: "swarm_step c claims = (r, claims1)" by fastforce
  note step = swarm_step_fenced [OF Cons.prems(1) s]
  show ?case
  proof (cases j)
    case 0
    then show ?thesis using step s by simp
  next
    case (Suc k)
    then show ?thesis using Cons.IH [of "past @ [(c, r)]" claims1 k] Cons.prems(2) step s by simp
  qed
qed simp


text \<open>A live claim is not given to another agent, and a completed one can be claimed anew, which drops its result.\<close>

lemma swarm_live_claim_kept:
  assumes "swarm_acquire tenant item owner lease now claims = (Inr c, claims1)" "claims (tenant, item) = Some p"
    "now < sc_lease_expires_at p" "sc_state p = SW_Claimed"
  shows "c = p" "owner = sc_owner_agent_id p" "claims1 = claims"
  using assms by (auto simp: swarm_acquire_def Let_def split: if_splits)

lemma swarm_result_dropped:
  "0 < lease \<Longrightarrow> claims (tenant, item) = Some p \<Longrightarrow> sc_state p = SW_Completed \<Longrightarrow>
   map_option sc_result_reference (snd (swarm_acquire tenant item owner lease now claims) (tenant, item)) = Some None"
  by (auto simp: swarm_acquire_def Let_def)

section \<open>Gossip\<close>

datatype gossip_type = GM_Advertisement | GM_Claim | GM_Heartbeat | GM_Result

record gossip_message =
  gm_event_id :: string
  gm_tenant_id :: string
  gm_civilization_id :: string
  gm_origin_agent_id :: string
  gm_origin_credential :: string
  gm_message_type :: gossip_type
  gm_payload_digest :: string
  gm_expires_at :: instant
  gm_hops_remaining :: int

record gossip_router =
  gr_limit :: int
  gr_seen :: "(string \<times> string) set"
  gr_counts :: "string \<times> string \<Rightarrow> int"

definition gossip_init :: "int \<Rightarrow> gossip_router result" where
  "gossip_init limit = (if limit \<le> 0 then Inl (ValueError ''origin limit must be positive'')
     else Inr \<lparr>gr_limit = limit, gr_seen = {}, gr_counts = (\<lambda>_. 0)\<rparr>)"

definition gossip_identity :: "gossip_message \<Rightarrow> string \<times> string" where
  "gossip_identity m = (gm_tenant_id m, gm_event_id m)"

definition gossip_origin :: "gossip_message \<Rightarrow> string \<times> string" where
  "gossip_origin m = (gm_tenant_id m, gm_origin_agent_id m)"

definition gossip_accept :: "(string \<Rightarrow> string \<Rightarrow> bool) \<Rightarrow> instant \<Rightarrow> gossip_message \<Rightarrow> (gossip_router, gossip_message option) op" where
  "gossip_accept validator now m g =
     (if gm_expires_at m \<le> now \<or> gm_hops_remaining m \<le> 0 then (Inr None, g)
      else if \<not> validator (gm_origin_agent_id m) (gm_origin_credential m) then (Inl (PermissionError ''forged swarm origin''), g)
      else if gossip_identity m \<in> gr_seen g then (Inr None, g)
      else if gr_limit g \<le> gr_counts g (gossip_origin m) then (Inr None, g)
      else (Inr (Some (m\<lparr>gm_hops_remaining := gm_hops_remaining m - 1\<rparr>)),
            g\<lparr>gr_seen := insert (gossip_identity m) (gr_seen g),
              gr_counts := (gr_counts g)(gossip_origin m := gr_counts g (gossip_origin m) + 1)\<rparr>))"

text \<open>The messages a router forwards of those it is offered.\<close>

fun forwarded :: "(string \<Rightarrow> string \<Rightarrow> bool) \<Rightarrow> (instant \<times> gossip_message) list \<Rightarrow> gossip_router \<Rightarrow> (instant \<times> gossip_message) list" where
  "forwarded validator [] g = []"
| "forwarded validator ((now, m) # ms) g =
     (case gossip_accept validator now m g of
        (Inr (Some m1), g1) \<Rightarrow> (now, m1) # forwarded validator ms g1
      | (_, g1) \<Rightarrow> forwarded validator ms g1)"

definition from_origin :: "string \<times> string \<Rightarrow> (instant \<times> gossip_message) list \<Rightarrow> (instant \<times> gossip_message) list" where
  "from_origin origin ms = filter (\<lambda>(_, m). gossip_origin m = origin) ms"

lemma accept_some:
  assumes "gossip_accept validator now m g = (Inr (Some m1), g1)"
  shows "gossip_identity m1 = gossip_identity m" "gossip_origin m1 = gossip_origin m" "gm_hops_remaining m1 = gm_hops_remaining m - 1"
    "0 \<le> gm_hops_remaining m1" "now < gm_expires_at m1" "validator (gm_origin_agent_id m1) (gm_origin_credential m1)"
    "gossip_identity m \<notin> gr_seen g" "gr_seen g1 = insert (gossip_identity m) (gr_seen g)" "gr_limit g1 = gr_limit g"
    "gr_counts g (gossip_origin m) < gr_limit g" "gr_counts g1 = (gr_counts g)(gossip_origin m := gr_counts g (gossip_origin m) + 1)"
  using assms by (auto simp: gossip_accept_def gossip_identity_def gossip_origin_def split: if_splits)

lemma accept_other:
  "gossip_accept validator now m g = (r, g1) \<Longrightarrow> (\<And>m1. r \<noteq> Inr (Some m1)) \<Longrightarrow> g1 = g"
  by (auto simp: gossip_accept_def split: if_splits)

lemma forwarded_Cons:
  "(\<exists>m1 g1. gossip_accept validator now m g = (Inr (Some m1), g1) \<and> forwarded validator ((now, m) # ms) g = (now, m1) # forwarded validator ms g1) \<or>
   forwarded validator ((now, m) # ms) g = forwarded validator ms g"
  using accept_other [of validator now m g] by (auto split: prod.split sum.split option.split)

lemma forwarded_inv:
  "(\<forall>o'. gr_counts g o' \<le> gr_limit g) \<Longrightarrow>
   distinct (map (\<lambda>(_, m). gossip_identity m) (forwarded validator ms g)) \<and>
   (\<forall>(now, m) \<in> set (forwarded validator ms g). gossip_identity m \<notin> gr_seen g \<and> 0 \<le> gm_hops_remaining m \<and> now < gm_expires_at m \<and>
      validator (gm_origin_agent_id m) (gm_origin_credential m)) \<and>
   int (length (from_origin origin (forwarded validator ms g))) \<le> gr_limit g - gr_counts g origin"
proof (induction ms arbitrary: g)
  case Nil
  then show ?case by (cases origin) (simp add: from_origin_def)
next
  case (Cons p ms)
  obtain now m where p: "p = (now, m)" by fastforce
  show ?case
  proof (cases "forwarded validator ((now, m) # ms) g = forwarded validator ms g")
    case True
    then show ?thesis using Cons by (simp only: p)
  next
    case False
    then obtain m1 g1 where a: "gossip_accept validator now m g = (Inr (Some m1), g1)"
      and f: "forwarded validator ((now, m) # ms) g = (now, m1) # forwarded validator ms g1"
      using forwarded_Cons [of validator now m g ms] by blast
    note s = accept_some [OF a]
    have "\<forall>o'. gr_counts g1 o' \<le> gr_limit g1" using Cons.prems s(9-11) by auto
    note ih = Cons.IH [OF this]
    have "int (length (from_origin origin ((now, m1) # forwarded validator ms g1))) \<le> gr_limit g - gr_counts g origin"
      using ih s(2,9,11) by (auto simp: from_origin_def split: if_splits)
    moreover have "distinct (map (\<lambda>(_, m). gossip_identity m) ((now, m1) # forwarded validator ms g1))"
      using ih s(1,8) by (fastforce simp: case_prod_unfold)
    ultimately show ?thesis
      unfolding p f using ih s by auto
  qed
qed

text \<open>The router forwards each message once, at most \<open>limit\<close> of one origin, none that is expired, forged or out of hops.\<close>

lemma gossip_bounded:
  assumes "gossip_init limit = Inr g"
  shows "distinct (map (\<lambda>(_, m). gossip_identity m) (forwarded validator ms g))"
    "int (length (from_origin origin (forwarded validator ms g))) \<le> limit"
    "(now, m) \<in> set (forwarded validator ms g) \<Longrightarrow> 0 \<le> gm_hops_remaining m \<and> now < gm_expires_at m \<and>
       validator (gm_origin_agent_id m) (gm_origin_credential m)"
proof -
  have g: "g = \<lparr>gr_limit = limit, gr_seen = {}, gr_counts = (\<lambda>_. 0)\<rparr>" "0 < limit"
    using assms by (auto simp: gossip_init_def split: if_splits)
  then have "\<forall>o'. gr_counts g o' \<le> gr_limit g" by simp
  note inv = forwarded_inv [OF this, of validator ms origin]
  show "distinct (map (\<lambda>(_, m). gossip_identity m) (forwarded validator ms g))" using inv by blast
  show "int (length (from_origin origin (forwarded validator ms g))) \<le> limit" using inv g by simp
  show "0 \<le> gm_hops_remaining m \<and> now < gm_expires_at m \<and> validator (gm_origin_agent_id m) (gm_origin_credential m)"
    if "(now, m) \<in> set (forwarded validator ms g)" using inv that by blast
qed

section \<open>Convergence\<close>

datatype convergence_state = CI_Pending | CI_Claimed | CI_Completed | CI_Failed

record convergence_item =
  ci_work_item_id :: string
  ci_mandatory :: bool
  ci_state :: convergence_state
  ci_result_digest :: "string option"

record convergence_decision =
  cd_converged :: bool
  cd_terminal :: bool
  cd_reason :: string

definition evaluate_convergence :: "convergence_item list \<Rightarrow> bool \<Rightarrow> rat \<Rightarrow> rat \<Rightarrow> instant \<Rightarrow> instant \<Rightarrow> int \<Rightarrow> convergence_decision" where
  "evaluate_convergence items criteria_met spent budget now deadline repeated_results =
     (let stop = (\<lambda>reason. \<lparr>cd_converged = False, cd_terminal = True, cd_reason = reason\<rparr>);
          mandatory = filter ci_mandatory items in
      if budget < spent then stop ''budget_exceeded''
      else if deadline \<le> now then stop ''deadline_exceeded''
      else if 3 \<le> repeated_results then stop ''no_progress''
      else if list_ex (\<lambda>x. ci_state x = CI_Failed) mandatory then stop ''mandatory_failed''
      else let c = (criteria_met \<and> list_all (\<lambda>x. ci_state x = CI_Completed) mandatory)
           in \<lparr>cd_converged = c, cd_terminal = c, cd_reason = if c then ''objective_satisfied'' else ''work_remaining''\<rparr>)"

lemma convergence_exact:
  "cd_converged (evaluate_convergence items met spent budget now deadline n) \<longleftrightarrow>
     spent \<le> budget \<and> now < deadline \<and> n < 3 \<and> met \<and> (\<forall>x \<in> set items. ci_mandatory x \<longrightarrow> ci_state x = CI_Completed)"
  "\<not> cd_terminal (evaluate_convergence items met spent budget now deadline n) \<longleftrightarrow>
     spent \<le> budget \<and> now < deadline \<and> n < 3 \<and> (\<forall>x \<in> set items. ci_mandatory x \<longrightarrow> ci_state x \<noteq> CI_Failed) \<and>
     \<not> (met \<and> (\<forall>x \<in> set items. ci_mandatory x \<longrightarrow> ci_state x = CI_Completed))"
  by (auto simp: evaluate_convergence_def Let_def list_ex_iff list_all_iff)

section \<open>Properties\<close>

text \<open>
  C6: swarm claims are fenced.  In every sequence of acquisitions and publications, whatever the
  clock, a granted token is at least as great as every token granted before for the work item, and
  two grants of one token have one owner; a result is accepted only from an agent to which the token
  it names was granted and while no greater token was granted, so a worker whose lease was taken over
  is refused for ever.
\<close>

theorem swarm_claims_fenced:
  "j < length (swarm_trace Map.empty cs) \<Longrightarrow>
   reply_ok (take j (swarm_trace Map.empty cs)) (swarm_trace Map.empty cs ! j)"
  using swarm_trace_fenced [of "[]" Map.empty j cs] by (simp add: grants_ok_def)

definition demo_swarm :: "swarm_command list" where
  "demo_swarm = [SwarmAcquire ''t'' ''w'' ''a'' 10 0, SwarmAcquire ''t'' ''w'' ''b'' 10 20, SwarmPublish ''t'' ''w'' ''a'' 1 ''r'',
     SwarmPublish ''t'' ''w'' ''b'' 2 ''r'']"

lemma demo_swarm_replies:
  "map (map_option (\<lambda>(t, i, ow, n). (ow, n)) \<circ> granted) (swarm_trace Map.empty demo_swarm) = [Some (''a'', 1), Some (''b'', 2), None, None]"
  "map published (swarm_trace Map.empty demo_swarm) = [None, None, None, Some (''t'', ''w'', ''b'', 2)]"
  by code_simp+

theorem swarm_claims_fenced_witness:
  "published (swarm_trace Map.empty demo_swarm ! 3) = Some (''t'', ''w'', ''b'', 2) \<and> published (swarm_trace Map.empty demo_swarm ! 2) = None \<and>
   reply_ok (take 3 (swarm_trace Map.empty demo_swarm)) (swarm_trace Map.empty demo_swarm ! 3)"
proof -
  have len: "length (swarm_trace Map.empty demo_swarm) = 4" using arg_cong [OF demo_swarm_replies(2), of length] by simp
  have "map published (swarm_trace Map.empty demo_swarm) ! k = published (swarm_trace Map.empty demo_swarm ! k)" if "k < 4" for k
    using len that by simp
  from this [of 3] this [of 2] show ?thesis using swarm_claims_fenced [of 3 demo_swarm] len by (simp add: demo_swarm_replies(2))
qed

end
