(* ===== verification/Magentic.thy ===== *)
theory Magentic
  imports Ledger "HOL-Library.Product_Lexorder"
begin

text \<open>
  The decisions of the Magentic pattern (\<open>app/coordination/magentic\<close>): what counts as progress
  (\<open>progress_evaluator.py\<close>), when work is stalled (\<open>stall_detector.py\<close>), who works next
  (\<open>participant_policy.py\<close>), the replan (\<open>replan_manager.py\<close>) and one-time reviews (\<open>human_review.py\<close>).
  Text is Latin-1; SHA-256 is a parameter.
\<close>

section \<open>Progress\<close>

record progress_assessment =
  pa_progressed :: bool
  pa_accepted_kinds :: "string list"
  pa_rejected_reasons :: "string list"

definition new_entries :: "string list \<Rightarrow> string list \<Rightarrow> bool" where
  "new_entries current previous \<longleftrightarrow> set current - set previous \<noteq> {}"

definition evaluate_progress :: "ledger_revision \<Rightarrow> ledger_revision \<Rightarrow> progress_assessment" where
  "evaluate_progress previous current =
     (let newly = set (lr_completed_work current) - set (lr_completed_work previous);
          completed = (newly \<noteq> {} \<and> newly \<subseteq> set (lr_open_work previous));
          removed = set (lr_open_work previous) - set (lr_open_work current);
          accepted_kinds =
            (if completed then [''completed_work''] else []) @
            (if new_entries (lr_verified_facts current) (lr_verified_facts previous) then [''verified_fact''] else []) @
            (if new_entries (lr_evidence_references current) (lr_evidence_references previous) then [''evidence''] else []) @
            (if new_entries (lr_blockers previous) (lr_blockers current) then [''removed_blocker''] else []) @
            (if new_entries (lr_satisfied_criteria current) (lr_satisfied_criteria previous) then [''satisfied_criterion''] else []) @
            (if removed \<noteq> {} \<and> removed \<subseteq> set (lr_completed_work current) \<and> \<not> completed then [''narrowed_open_work''] else []);
          rejected =
            (if lr_claimed_completed_work current \<noteq> [] \<and> newly = {} then [''unverified_completion_claim''] else []) @
            (if accepted_kinds = [] then [''no_material_delta''] else [])
      in \<lparr>pa_progressed = (accepted_kinds \<noteq> []), pa_accepted_kinds = accepted_kinds, pa_rejected_reasons = rejected\<rparr>)"

text \<open>A revision that repeats its predecessor's work, facts and blockers is no progress.\<close>

lemma no_progress_on_same:
  assumes "lr_completed_work current = lr_completed_work previous" "lr_verified_facts current = lr_verified_facts previous"
    "lr_evidence_references current = lr_evidence_references previous" "lr_blockers current = lr_blockers previous"
    "lr_satisfied_criteria current = lr_satisfied_criteria previous" "lr_open_work current = lr_open_work previous"
  shows "\<not> pa_progressed (evaluate_progress previous current)"
  using assms by (simp add: evaluate_progress_def new_entries_def Let_def)

section \<open>Stalls\<close>

definition py_space :: "char \<Rightarrow> bool" where
  "py_space c \<longleftrightarrow> (let n = of_char c :: nat in 9 \<le> n \<and> n \<le> 13 \<or> 28 \<le> n \<and> n \<le> 32 \<or> n = 133 \<or> n = 160)"

definition py_lower :: "char \<Rightarrow> char" where
  "py_lower c = (let n = of_char c :: nat in
     if 65 \<le> n \<and> n \<le> 90 \<or> 192 \<le> n \<and> n \<le> 222 \<and> n \<noteq> 215 then char_of (n + 32) else c)"

function collapse_spaces :: "string \<Rightarrow> string" where
  "collapse_spaces [] = []"
| "collapse_spaces (c # cs) = (if py_space c then CHR '' '' # collapse_spaces (dropWhile py_space cs) else c # collapse_spaces cs)"
  by pat_completeness auto
termination by (relation "measure length") (auto simp: less_Suc_eq_le length_dropWhile_le)

definition strip_spaces :: "string \<Rightarrow> string" where
  "strip_spaces s = rev (dropWhile py_space (rev (dropWhile py_space s)))"

definition normalize_text :: "string \<Rightarrow> string" where
  "normalize_text s = collapse_spaces (map py_lower (strip_spaces s))"

record stall_assessment =
  sa_stalled :: bool
  sa_reasons :: "string list"
  sa_no_progress :: int
  sa_repeated :: int
  sa_unchanged_blockers :: int

record stall_detector =
  sd_max_no_progress :: int
  sd_max_repeated :: int
  sd_seen :: "int \<Rightarrow> stall_assessment option"
  sd_no_progress :: int
  sd_repeated :: int
  sd_unchanged_blockers :: int
  sd_last_action :: string
  sd_last_blockers :: "string list"

definition stall_detector_init :: "int \<Rightarrow> int \<Rightarrow> stall_detector result" where
  "stall_detector_init max_no_progress max_repeated =
     (if max_no_progress \<le> 0 \<or> max_repeated \<le> 0 then Inl (ValueError ''stall thresholds must be positive'')
      else Inr \<lparr>sd_max_no_progress = max_no_progress, sd_max_repeated = max_repeated, sd_seen = Map.empty, sd_no_progress = 0,
        sd_repeated = 0, sd_unchanged_blockers = 0, sd_last_action = [], sd_last_blockers = []\<rparr>)"

definition observe :: "int \<Rightarrow> progress_assessment \<Rightarrow> string \<Rightarrow> string list \<Rightarrow> stall_detector \<Rightarrow> stall_assessment \<times> stall_detector" where
  "observe version assessment action_signature blockers d =
     (case sd_seen d version of
        Some prior \<Rightarrow> (prior, d)
      | None \<Rightarrow>
     (let action = normalize_text action_signature;
          normalized = sort (map normalize_text blockers);
          no_progress = (if pa_progressed assessment then 0 else sd_no_progress d + 1);
          repeated = (if pa_progressed assessment then 0
            else if action \<noteq> [] \<and> action = sd_last_action d then sd_repeated d + 1 else 1);
          unchanged = (if pa_progressed assessment then 0
            else if normalized \<noteq> [] \<and> normalized = sd_last_blockers d then sd_unchanged_blockers d + 1 else 1);
          reasons = (if sd_max_no_progress d \<le> no_progress then [''no_progress''] else []) @
            (if sd_max_repeated d \<le> repeated then [''repeated_action''] else []) @
            (if sd_max_no_progress d \<le> unchanged then [''unchanged_blockers''] else []);
          result = \<lparr>sa_stalled = (reasons \<noteq> []), sa_reasons = reasons, sa_no_progress = no_progress, sa_repeated = repeated,
            sa_unchanged_blockers = unchanged\<rparr>
      in (result, d\<lparr>sd_seen := (sd_seen d)(version \<mapsto> result), sd_no_progress := no_progress, sd_repeated := repeated,
            sd_unchanged_blockers := unchanged, sd_last_action := action, sd_last_blockers := normalized\<rparr>)))"

text \<open>A version is assessed once, and progress is never a stall.\<close>

lemma observe_seen: "sd_seen (snd (observe v a s bs d)) v = Some (fst (observe v a s bs d))"
  by (cases "sd_seen d v") (simp_all add: observe_def Let_def)

lemma observe_again: "observe v a s bs d = (r, d1) \<Longrightarrow> observe v a' s' bs' d1 = (r, d1)"
  using observe_seen [of v a s bs d] by (simp add: observe_def [of v a' s' bs' d1])

definition detector_ok :: "stall_detector \<Rightarrow> bool" where
  "detector_ok d \<longleftrightarrow> 0 < sd_max_no_progress d \<and> 0 < sd_max_repeated d \<and> 0 \<le> sd_no_progress d \<and> 0 \<le> sd_repeated d \<and> 0 \<le> sd_unchanged_blockers d"

lemma observe_ok: "detector_ok d \<Longrightarrow> detector_ok (snd (observe v a s bs d))"
  by (cases "sd_seen d v") (simp_all add: observe_def detector_ok_def Let_def)

text \<open>
  With a threshold of one round without progress, the runtime's setting, the repeated action and the
  unchanged blockers decide nothing: a new revision is stalled exactly when it made no progress.
\<close>

lemma stalled_iff_no_progress:
  assumes "detector_ok d" "sd_max_no_progress d = 1" "sd_seen d v = None"
  shows "sa_stalled (fst (observe v a s bs d)) \<longleftrightarrow> \<not> pa_progressed a"
  using assms by (auto simp: observe_def detector_ok_def Let_def)

section \<open>Participants\<close>

record participant_candidate =
  pt_agent_id :: string
  pt_capabilities :: "string set"
  pt_available :: bool
  pt_policy_eligible :: bool
  pt_current_load :: int
  pt_estimated_latency_ms :: int
  pt_recent_no_progress :: int

record participant_decision =
  pd_selected_agent_id :: string
  pd_rejected :: "(string \<times> string) list"

definition reject_reason :: "string set \<Rightarrow> int \<Rightarrow> participant_candidate \<Rightarrow> string" where
  "reject_reason required remaining c =
     (if \<not> pt_available c then ''unavailable''
      else if \<not> pt_policy_eligible c then ''policy_denied''
      else if \<not> required \<subseteq> pt_capabilities c then ''capability_mismatch''
      else if remaining < pt_estimated_latency_ms c then ''deadline_infeasible''
      else [])"

definition participant_key :: "participant_candidate \<Rightarrow> int \<times> int \<times> int \<times> string" where
  "participant_key c = (pt_recent_no_progress c, pt_current_load c, pt_estimated_latency_ms c, pt_agent_id c)"

text \<open>\<open>min\<close> with a key: the first of the least.\<close>

fun first_min :: "('a \<Rightarrow> 'b :: linorder) \<Rightarrow> 'a \<Rightarrow> 'a list \<Rightarrow> 'a" where
  "first_min key x [] = x"
| "first_min key x (y # ys) = first_min key (if key y < key x then y else x) ys"

definition select_participant :: "participant_candidate list \<Rightarrow> string set \<Rightarrow> int \<Rightarrow> participant_decision result" where
  "select_participant candidates required remaining =
     (let eligible = filter (\<lambda>c. reject_reason required remaining c = []) candidates;
          rejected = map (\<lambda>c. (pt_agent_id c, reject_reason required remaining c))
            (filter (\<lambda>c. reject_reason required remaining c \<noteq> []) candidates)
      in case eligible of
           [] \<Rightarrow> Inl (RuntimeError ''no eligible Magentic participant'')
         | e # es \<Rightarrow>
             let selected = first_min participant_key e es;
                 lower = map (\<lambda>c. (pt_agent_id c, ''lower_score'')) (filter (\<lambda>c. pt_agent_id c \<noteq> pt_agent_id selected) eligible)
             in Inr \<lparr>pd_selected_agent_id = pt_agent_id selected, pd_rejected = sort (rejected @ lower)\<rparr>)"

definition eligible_participant :: "string set \<Rightarrow> int \<Rightarrow> participant_candidate \<Rightarrow> bool" where
  "eligible_participant required remaining c \<longleftrightarrow> pt_available c \<and> pt_policy_eligible c \<and> required \<subseteq> pt_capabilities c \<and>
     pt_estimated_latency_ms c \<le> remaining"

lemma eligible_iff: "reject_reason required remaining c = [] \<longleftrightarrow> eligible_participant required remaining c"
  by (auto simp: reject_reason_def eligible_participant_def)

lemma first_min_least: "first_min key x xs \<in> set (x # xs)" "y \<in> set (x # xs) \<Longrightarrow> key (first_min key x xs) \<le> key y"
proof (induction xs arbitrary: x y)
  case (Cons z zs)
  { case 1 show ?case using Cons.IH(1) [of "if key z < key x then z else x"] by (auto split: if_splits) }
  { case 2
    let ?x = "if key z < key x then z else x"
    have "key (first_min key ?x zs) \<le> key ?x" "\<And>y. y \<in> set zs \<Longrightarrow> key (first_min key ?x zs) \<le> key y" using Cons.IH(2) [of _ ?x] by auto
    then show ?case using 2 by (fastforce split: if_splits) }
qed auto

text \<open>Selection fails exactly when nobody is eligible; else an eligible candidate of least key is selected.\<close>

lemma select_participant_spec:
  "(case select_participant candidates required remaining of
      Inl _ \<Rightarrow> \<not> (\<exists>c \<in> set candidates. eligible_participant required remaining c)
    | Inr d \<Rightarrow> (\<exists>c \<in> set candidates. eligible_participant required remaining c \<and> pt_agent_id c = pd_selected_agent_id d \<and>
        (\<forall>c' \<in> set candidates. eligible_participant required remaining c' \<longrightarrow> participant_key c \<le> participant_key c')))"
proof (cases "filter (\<lambda>c. reject_reason required remaining c = []) candidates")
  case Nil
  then show ?thesis by (auto simp: select_participant_def filter_empty_conv eligible_iff)
next
  case (Cons e es)
  let ?s = "first_min participant_key e es"
  have mem: "c \<in> set (e # es) \<longleftrightarrow> c \<in> set candidates \<and> eligible_participant required remaining c" for c
    using arg_cong [OF Cons, of set] by (auto simp: eligible_iff)
  have "?s \<in> set (e # es)" "\<And>c. c \<in> set (e # es) \<Longrightarrow> participant_key ?s \<le> participant_key c"
    using first_min_least by metis+
  then show ?thesis using mem by (auto simp: select_participant_def Cons Let_def)
qed

section \<open>Replanning\<close>

definition replan_manager_init :: "int \<Rightarrow> int result" where
  "replan_manager_init max_resets = (if max_resets < 0 then Inl (ValueError ''max_resets cannot be negative'') else Inr max_resets)"

definition manager_replan :: "int \<Rightarrow> ledger_revision \<Rightarrow> string list \<Rightarrow> string list \<Rightarrow> string \<Rightarrow> string \<Rightarrow> ledger_revision result" where
  "manager_replan maximum current open_work contradicted stall_reference key =
     (if maximum \<le> lr_reset_count current then Inl (RuntimeError ''Magentic reset budget exhausted'')
      else Inr (current\<lparr>lr_version := lr_version current + 1, lr_open_work := open_work,
        lr_verified_facts := filter (\<lambda>f. f \<notin> set contradicted) (lr_verified_facts current),
        lr_reset_count := lr_reset_count current + 1, lr_predecessor_version := Some (lr_version current),
        lr_stall_evidence_references := lr_stall_evidence_references current @ [stall_reference], lr_idempotency_key := key\<rparr>))"

text \<open>A replan keeps completed work, evidence and criteria; facts disappear only when contradicted.\<close>

lemma replan_preserves:
  assumes "manager_replan maximum current open_work contradicted ref key = Inr r"
  shows "lr_completed_work r = lr_completed_work current" "lr_evidence_references r = lr_evidence_references current"
    "lr_satisfied_criteria r = lr_satisfied_criteria current" "set (lr_verified_facts r) = set (lr_verified_facts current) - set contradicted"
    "lr_reset_count r = lr_reset_count current + 1" "lr_reset_count r \<le> maximum" "lr_version r = lr_version current + 1"
  using assms by (auto simp: manager_replan_def split: if_splits)


section \<open>Human review\<close>

record review_decision =
  rd_tenant_id :: string
  rd_session_id :: string
  rd_approved :: bool
  rd_safe_note :: string

record mem_reviews =
  mv_tokens :: "string \<times> string \<Rightarrow> string option"
  mv_decisions :: "string \<times> string \<Rightarrow> review_decision option"

definition mem_review_issue :: "(string \<Rightarrow> string) \<Rightarrow> string \<Rightarrow> string \<Rightarrow> string \<Rightarrow> (mem_reviews, unit) op" where
  "mem_review_issue sha256 tenant session token st = (Inr (), st\<lparr>mv_tokens := (mv_tokens st)((tenant, session) \<mapsto> sha256 token)\<rparr>)"

definition mem_review_submit :: "(string \<Rightarrow> string) \<Rightarrow> string \<Rightarrow> string \<Rightarrow> string \<Rightarrow> bool \<Rightarrow> string \<Rightarrow> (mem_reviews, review_decision) op" where
  "mem_review_submit sha256 tenant session token approved note st =
     (let key = (tenant, session) in
      if mv_tokens st key \<noteq> Some (sha256 token) then (Inl (PermissionError ''stale or invalid human-review token''), st)
      else if mv_decisions st key \<noteq> None then (Inl (PermissionError ''human-review token already consumed''), st)
      else let d = \<lparr>rd_tenant_id = tenant, rd_session_id = session, rd_approved = approved, rd_safe_note = take 2000 note\<rparr>
           in (Inr d, st\<lparr>mv_decisions := (mv_decisions st)(key \<mapsto> d), mv_tokens := (mv_tokens st)(key := None)\<rparr>))"

text \<open>The table \<open>magentic_review_tokens\<close> by its primary key.\<close>

record review_row =
  rw_token_hash :: string
  rw_consumed :: bool
  rw_approved :: "bool option"
  rw_safe_note :: "string option"

type_synonym review_table = "string \<times> string \<Rightarrow> review_row option"

definition pg_review_issue :: "(string \<Rightarrow> string) \<Rightarrow> string \<Rightarrow> string \<Rightarrow> string \<Rightarrow> (review_table, unit) op" where
  "pg_review_issue sha256 tenant session token rows =
     (Inr (), rows((tenant, session) \<mapsto> \<lparr>rw_token_hash = sha256 token, rw_consumed = False, rw_approved = None, rw_safe_note = None\<rparr>))"

definition pg_review_submit :: "(string \<Rightarrow> string) \<Rightarrow> string \<Rightarrow> string \<Rightarrow> string \<Rightarrow> bool \<Rightarrow> string \<Rightarrow> (review_table, review_decision) op" where
  "pg_review_submit sha256 tenant session token approved note rows =
     (let refused = (Inl (PermissionError ''stale, invalid, or already-consumed human-review token''), rows) in
      case rows (tenant, session) of
        None \<Rightarrow> refused
      | Some row \<Rightarrow>
          if rw_token_hash row = sha256 token \<and> \<not> rw_consumed row
          then (Inr \<lparr>rd_tenant_id = tenant, rd_session_id = session, rd_approved = approved, rd_safe_note = take 2000 note\<rparr>,
                rows((tenant, session) \<mapsto> row\<lparr>rw_consumed := True, rw_approved := Some approved, rw_safe_note := Some (take 2000 note)\<rparr>))
          else refused)"

datatype review_command = ReviewIssue string string string | ReviewSubmit string string string bool string

text \<open>Replies up to the text of the refusal.\<close>

fun mem_review_step :: "(string \<Rightarrow> string) \<Rightarrow> review_command \<Rightarrow> mem_reviews \<Rightarrow> review_decision option \<times> mem_reviews" where
  "mem_review_step h (ReviewIssue t s tok) st = (None, snd (mem_review_issue h t s tok st))"
| "mem_review_step h (ReviewSubmit t s tok ok note) st =
     map_prod (\<lambda>r. case r of Inl _ \<Rightarrow> None | Inr d \<Rightarrow> Some d) id (mem_review_submit h t s tok ok note st)"

fun pg_review_step :: "(string \<Rightarrow> string) \<Rightarrow> review_command \<Rightarrow> review_table \<Rightarrow> review_decision option \<times> review_table" where
  "pg_review_step h (ReviewIssue t s tok) rows = (None, snd (pg_review_issue h t s tok rows))"
| "pg_review_step h (ReviewSubmit t s tok ok note) rows =
     map_prod (\<lambda>r. case r of Inl _ \<Rightarrow> None | Inr d \<Rightarrow> Some d) id (pg_review_submit h t s tok ok note rows)"

text \<open>Once a review is accepted, every further one is refused until a token is issued anew.\<close>

fun issues_for :: "string \<times> string \<Rightarrow> review_command \<Rightarrow> bool" where
  "issues_for key (ReviewIssue t s tok) = (key = (t, s))"
| "issues_for key _ = False"

lemma consumed_step:
  assumes "rows key = Some row" "rw_consumed row" "\<not> issues_for key c"
  shows "snd (pg_review_step h c rows) key = Some row \<and> (\<forall>d. fst (pg_review_step h c rows) = Some d \<longrightarrow> (rd_tenant_id d, rd_session_id d) \<noteq> key)"
  using assms by (cases c) (auto simp: pg_review_issue_def pg_review_submit_def Let_def split: option.splits if_splits)

lemma review_consumed_once:
  assumes s: "pg_review_submit h t s tok ok note rows = (Inr d, rows1)" and cs: "list_all (\<lambda>c. \<not> issues_for (t, s) c) cs"
    and r: "Some d' \<in> set (trace_ops (pg_review_step h) rows1 cs)"
  shows "(rd_tenant_id d', rd_session_id d') \<noteq> (t, s)"
proof -
  obtain row where "rows1 (t, s) = Some row" "rw_consumed row" using s by (auto simp: pg_review_submit_def Let_def split: option.splits if_splits)
  then show ?thesis using cs r
  proof (induction cs arbitrary: rows1)
    case (Cons c cs)
    have step: "snd (pg_review_step h c rows1) (t, s) = Some row"
      "\<And>d. fst (pg_review_step h c rows1) = Some d \<Longrightarrow> (rd_tenant_id d, rd_session_id d) \<noteq> (t, s)"
      using consumed_step [of rows1 "(t, s)" row c h] Cons.prems by auto
    consider "fst (pg_review_step h c rows1) = Some d'" | "Some d' \<in> set (trace_ops (pg_review_step h) (snd (pg_review_step h c rows1)) cs)"
      using Cons.prems(4) by auto
    then show ?case using Cons.IH [of "snd (pg_review_step h c rows1)"] Cons.prems(2,3) step by cases simp_all
  qed simp
qed

text \<open>
  The table against the in-memory service: the same decisions as long as no token is issued for a
  session that was already reviewed, which the in-memory service never accepts again.
\<close>

definition reviews_of :: "review_table \<Rightarrow> mem_reviews" where
  "reviews_of rows = \<lparr>mv_tokens = (\<lambda>key. case rows key of None \<Rightarrow> None | Some row \<Rightarrow> if rw_consumed row then None else Some (rw_token_hash row)),
     mv_decisions = (\<lambda>key. case rows key of None \<Rightarrow> None
       | Some row \<Rightarrow> if rw_consumed row then Some \<lparr>rd_tenant_id = fst key, rd_session_id = snd key, rd_approved = the (rw_approved row),
           rd_safe_note = the (rw_safe_note row)\<rparr> else None)\<rparr>"

fun review_admissible :: "review_table \<Rightarrow> review_command \<Rightarrow> bool" where
  "review_admissible rows (ReviewIssue t s tok) = (case rows (t, s) of None \<Rightarrow> True | Some row \<Rightarrow> \<not> rw_consumed row)"
| "review_admissible rows _ = True"

lemma review_step_sim:
  "review_admissible rows c \<Longrightarrow> map_prod id reviews_of (pg_review_step h c rows) = mem_review_step h c (reviews_of rows)"
proof (cases c)
  case (ReviewIssue t s tok)
  moreover assume "review_admissible rows c"
  ultimately show ?thesis
    by (auto simp: pg_review_issue_def mem_review_issue_def reviews_of_def fun_eq_iff split: option.splits)
next
  case (ReviewSubmit t s tok ok msg)
  then show ?thesis
    by (cases "rows (t, s)") (auto simp: pg_review_submit_def mem_review_submit_def reviews_of_def Let_def fun_eq_iff)
qed

lemma reviews_refine_memory:
  assumes "admissible_run (pg_review_step h) review_admissible Map.empty cs"
  shows "trace_ops (pg_review_step h) Map.empty cs = trace_ops (mem_review_step h) (reviews_of Map.empty) cs"
  using admissible_simulation [where I = "\<lambda>_. True" and f = reviews_of and cstep = "pg_review_step h" and astep = "mem_review_step h"
      and ok = review_admissible and s = Map.empty and cs = cs] review_step_sim assms by blast

lemma memory_reviews_once:
  assumes "mv_decisions st (t, s) = Some d"
  shows "fst (mem_review_submit h t s tok ok note (snd (mem_review_issue h t s tok st))) = Inl (PermissionError ''human-review token already consumed'')"
  using assms by (simp add: mem_review_issue_def mem_review_submit_def)

end
