(* ===== verification/Moa.thy ===== *)
theory Moa
  imports Consensus Magentic "HOL-Library.Sublist"
begin

text \<open>
  The parts of the mixture-of-agents pattern (\<open>app/coordination/moa\<close>): model identities and proposals
  (\<open>models.py\<close>), the choice of independent deployments (\<open>diversity_policy.py\<close>), the quorum (\<open>quorum.py\<close>),
  the admission of a layer plan (\<open>layer_planner.py\<close>) and the input of the aggregator (\<open>aggregator.py\<close>).
  Costs are of the abstract floating-point type; \<open>uuid5\<close> is a parameter.
\<close>

section \<open>Candidates, layers and proposals\<close>

record 'f model_candidate =
  mc_candidate_id :: string
  mc_provider_id :: string
  mc_model_family :: string
  mc_deployment_id :: string
  mc_region :: string
  mc_failure_domain :: string
  mc_healthy :: bool
  mc_context_limit :: int
  mc_estimated_cost_usd :: 'f
  mc_estimated_latency_ms :: int
  mc_capabilities :: "string set"

record moa_layer =
  yl_layer_id :: string
  yl_tenant_id :: string
  yl_session_id :: string
  yl_execution_id :: string
  yl_layer_index :: int
  yl_aggregator_deployment_id :: string
  yl_quorum :: int
  yl_deployment_ids :: "string list"
  yl_aggregate_reference :: "string option"
  yl_idempotency_key :: string

record 'f moa_proposal =
  yp_proposal_id :: string
  yp_tenant_id :: string
  yp_session_id :: string
  yp_execution_id :: string
  yp_layer_index :: int
  yp_participant_id :: string
  yp_provider_id :: string
  yp_model_family :: string
  yp_deployment_id :: string
  yp_region :: string
  yp_failure_domain :: string
  yp_proposal_reference :: string
  yp_safe_excerpt :: string
  yp_evidence_references :: "string list"
  yp_predecessor_proposal_ids :: "string list"
  yp_valid :: bool
  yp_rejection_reason :: "string option"
  yp_tokens :: int
  yp_latency_ms :: int
  yp_cost_usd :: 'f
  yp_quality_score :: int
  yp_attempt :: int
  yp_idempotency_key :: string

definition proposal_fields_ok :: "'f float_ops \<Rightarrow> 'f moa_proposal \<Rightarrow> bool" where
  "proposal_fields_ok fl p \<longleftrightarrow> 0 \<le> yp_layer_index p \<and> length (yp_safe_excerpt p) \<le> 2000 \<and> 0 \<le> yp_tokens p \<and> 0 \<le> yp_latency_ms p \<and>
     \<not> fl_less fl (yp_cost_usd p) (fl_zero fl) \<and> 0 \<le> yp_quality_score p \<and> yp_quality_score p \<le> 10000 \<and> 0 < yp_attempt p"

record 'f moa_plan =
  yn_layers :: "moa_layer list"
  yn_worst_case_cost_usd :: 'f
  yn_worst_case_latency_ms :: int
  yn_replacement_waves :: int

section \<open>Diversity\<close>

definition eligible_candidate :: "string \<Rightarrow> string set \<Rightarrow> 'f model_candidate \<Rightarrow> bool" where
  "eligible_candidate region required c \<longleftrightarrow> mc_healthy c \<and> mc_region c = region \<and> required \<subseteq> mc_capabilities c"

text \<open>\<open>setdefault\<close> per deployment: the first candidate of each, in order.\<close>

fun first_per_deployment :: "string set \<Rightarrow> 'f model_candidate list \<Rightarrow> 'f model_candidate list" where
  "first_per_deployment seen [] = []"
| "first_per_deployment seen (c # cs) =
     (if mc_deployment_id c \<in> seen then first_per_deployment seen cs
      else c # first_per_deployment (insert (mc_deployment_id c) seen) cs)"

text \<open>\<open>xs[:n]\<close>, which counts a negative bound from the end.\<close>

definition prefix_slice :: "int \<Rightarrow> 'a list \<Rightarrow> 'a list" where
  "prefix_slice n xs = take (if 0 \<le> n then nat n else length xs - nat (- n)) xs"

definition diversity_select :: "int \<Rightarrow> int \<Rightarrow> int \<Rightarrow> 'f model_candidate list \<Rightarrow> int \<Rightarrow> string \<Rightarrow> string set \<Rightarrow> bool \<Rightarrow> 'f model_candidate list result" where
  "diversity_select providers families domains candidates n region required allow_degraded =
     (let eligible = first_per_deployment {} (filter (eligible_candidate region required) (sort_key mc_candidate_id candidates));
          selected = prefix_slice n eligible;
          independent = (providers \<le> int (card (mc_provider_id ` set selected)) \<and> families \<le> int (card (mc_model_family ` set selected)) \<and>
            domains \<le> int (card (mc_failure_domain ` set selected)))
      in if int (length selected) < n \<or> \<not> independent \<and> \<not> allow_degraded then Inl (ValueError ''requested model diversity is unavailable'')
         else Inr selected)"

lemma first_per_deployment:
  "distinct (map mc_deployment_id (first_per_deployment seen cs))"
  "set (first_per_deployment seen cs) \<subseteq> set cs"
  "mc_deployment_id ` set (first_per_deployment seen cs) \<inter> seen = {}"
proof (induction cs arbitrary: seen)
  case (Cons c cs)
  { case 1 show ?case using Cons.IH(1) Cons.IH(3) [of "insert (mc_deployment_id c) seen"] by auto }
  { case 2 show ?case using Cons.IH(2) [of seen] Cons.IH(2) [of "insert (mc_deployment_id c) seen"] by auto }
  { case 3 show ?case using Cons.IH(3) [of seen] Cons.IH(3) [of "insert (mc_deployment_id c) seen"] by auto }
qed simp_all

text \<open>What is selected: as many different healthy deployments as asked for, independent unless degraded.\<close>

lemma diversity_select_ok:
  assumes "diversity_select providers families domains candidates n region required degraded = Inr cs"
  shows "0 \<le> n \<Longrightarrow> int (length cs) = n" "distinct (map mc_deployment_id cs)" "\<forall>c \<in> set cs. c \<in> set candidates \<and> eligible_candidate region required c"
    "degraded \<or> providers \<le> int (card (mc_provider_id ` set cs)) \<and> families \<le> int (card (mc_model_family ` set cs)) \<and>
       domains \<le> int (card (mc_failure_domain ` set cs))"
proof -
  let ?e = "first_per_deployment {} (filter (eligible_candidate region required) (sort_key mc_candidate_id candidates))"
  have cs: "cs = prefix_slice n ?e" "\<not> int (length cs) < n" "degraded \<or> providers \<le> int (card (mc_provider_id ` set cs)) \<and>
      families \<le> int (card (mc_model_family ` set cs)) \<and> domains \<le> int (card (mc_failure_domain ` set cs))"
    using assms by (auto simp: diversity_select_def Let_def split: if_splits)
  show "0 \<le> n \<Longrightarrow> int (length cs) = n" using cs(2) by (auto simp: cs(1) prefix_slice_def min_def split: if_splits)
  show "distinct (map mc_deployment_id cs)" using distinct_take [OF first_per_deployment(1)] by (metis cs(1) prefix_slice_def take_map)
  show "\<forall>c \<in> set cs. c \<in> set candidates \<and> eligible_candidate region required c"
    using first_per_deployment(2) [of "{}" "filter (eligible_candidate region required) (sort_key mc_candidate_id candidates)"]
    by (auto simp: cs(1) prefix_slice_def dest!: in_set_takeD split: if_splits)
  show "degraded \<or> providers \<le> int (card (mc_provider_id ` set cs)) \<and> families \<le> int (card (mc_model_family ` set cs)) \<and>
       domains \<le> int (card (mc_failure_domain ` set cs))" by (rule cs(3))
qed

section \<open>Quorum\<close>

record quorum_result =
  qr_met :: bool
  qr_required :: int
  qr_valid_unique_deployments :: "string list"

definition evaluate_quorum :: "'f moa_proposal list \<Rightarrow> int \<Rightarrow> quorum_result result" where
  "evaluate_quorum proposals required =
     (if required \<le> 0 then Inl (ValueError ''quorum must be positive'')
      else let deployments = sorted_list_of_set (yp_deployment_id ` set (filter yp_valid proposals))
           in Inr \<lparr>qr_met = (required \<le> int (length deployments)), qr_required = required, qr_valid_unique_deployments = deployments\<rparr>)"

lemma quorum_counts_deployments:
  "evaluate_quorum proposals required = Inr q \<Longrightarrow>
   qr_met q \<longleftrightarrow> required \<le> int (card (yp_deployment_id ` {p \<in> set proposals. yp_valid p}))"
  by (auto simp: evaluate_quorum_def Let_def split: if_splits)

section \<open>Unsafe text\<close>

definition contains :: "string \<Rightarrow> string \<Rightarrow> bool" where
  "contains w s \<longleftrightarrow> list_ex (\<lambda>t. take (length w) t = w) (suffixes s)"

definition lower_text :: "string \<Rightarrow> string" where
  "lower_text s = map py_lower s"

text \<open>The pattern the runtime searches in an excerpt: \<open>ignore previous instructions|reveal secrets?\<close>, ignoring case.\<close>

definition unsafe_excerpt :: "string \<Rightarrow> bool" where
  "unsafe_excerpt s \<longleftrightarrow> contains ''ignore previous instructions'' (lower_text s) \<or> contains ''reveal secret'' (lower_text s)"

text \<open>\<open>(?:w1|w2).{0,n}(?:v1|v2)\<close>: a word of the first list, at most \<open>n\<close> characters of one line, a word of the second.\<close>

definition near :: "string list \<Rightarrow> nat \<Rightarrow> string list \<Rightarrow> string \<Rightarrow> bool" where
  "near ws n vs s \<longleftrightarrow> list_ex (\<lambda>t. list_ex (\<lambda>w. take (length w) t = w \<and>
     list_ex (\<lambda>k. list_all (\<lambda>c. c \<noteq> CHR 0x0A) (take k (drop (length w) t)) \<and> k \<le> length (drop (length w) t) \<and>
       list_ex (\<lambda>v. take (length v) (drop (length w + k) t) = v) vs) [0..<Suc n]) ws) (suffixes s)"

definition injection_text :: "string \<Rightarrow> bool" where
  "injection_text s \<longleftrightarrow> near [''ignore'', ''override''] 30 [''instruction'', ''policy''] (lower_text s) \<or>
     near [''reveal''] 20 [''secret'', ''credential''] (lower_text s)"

section \<open>Aggregation input\<close>

record aggregation_input =
  ai_prompt :: string
  ai_included_proposal_ids :: "string list"
  ai_excluded :: "(string \<times> string) list"
  ai_evidence_references :: "string list"

fun join :: "string \<Rightarrow> string list \<Rightarrow> string" where
  "join sep [] = []"
| "join sep [x] = x"
| "join sep (x # y # ys) = x @ sep @ join sep (y # ys)"

definition prompt_part :: "'f moa_proposal \<Rightarrow> string" where
  "prompt_part p = ''proposal='' @ yp_proposal_id p @ ''; deployment='' @ yp_deployment_id p @ ''; evidence='' @
     join '','' (yp_evidence_references p) @ ''; data='' @ yp_safe_excerpt p"

definition build_aggregation_input :: "'f moa_proposal list \<Rightarrow> int \<Rightarrow> aggregation_input result" where
  "build_aggregation_input proposals maximum =
     (if maximum \<le> 0 then Inl (ValueError ''aggregation context bound must be positive'')
      else if list_ex (\<lambda>p. yp_valid p \<and> injection_text (yp_safe_excerpt p)) proposals then Inl (ValueError ''unsafe proposal content'')
      else
      let included = filter yp_valid proposals;
          prompt = join [CHR 0x0A] (map prompt_part included)
      in if maximum < int (length prompt) then Inl (ValueError ''aggregation context exceeds bound'')
         else Inr \<lparr>ai_prompt = prompt, ai_included_proposal_ids = map yp_proposal_id included,
           ai_excluded = map (\<lambda>p. (yp_proposal_id p, str_or (yp_rejection_reason p) ''invalid'')) (filter (\<lambda>p. \<not> yp_valid p) proposals),
           ai_evidence_references = concat (map yp_evidence_references included)\<rparr>)"

text \<open>The aggregator sees exactly the valid proposals, none of them suspicious, within its bound.\<close>

lemma aggregation_input_safe:
  assumes "build_aggregation_input proposals maximum = Inr a"
  shows "ai_included_proposal_ids a = map yp_proposal_id (filter yp_valid proposals)"
    "\<forall>p \<in> set proposals. yp_valid p \<longrightarrow> \<not> injection_text (yp_safe_excerpt p)" "int (length (ai_prompt a)) \<le> maximum"
  using assms by (auto simp: build_aggregation_input_def Let_def list_ex_iff split: if_splits)

text \<open>The two patterns differ: an excerpt the runtime accepts can be refused by the aggregator.\<close>

lemma patterns_differ: "\<not> unsafe_excerpt ''please override the policy'' \<and> injection_text ''please override the policy''"
  by code_simp


section \<open>Layer plans\<close>

text \<open>The dictionary by deployment id: a later healthy candidate replaces an earlier one in its place.\<close>

definition by_deployment :: "'f model_candidate list \<Rightarrow> (string \<times> 'f model_candidate) list" where
  "by_deployment candidates = fold (\<lambda>c m. AList.update (mc_deployment_id c) c m) candidates []"

text \<open>
  The arithmetic of the planner is a parameter: the cost of a layer plan of given proposers and
  aggregator, its latency, and the remaining milliseconds compared with it.
\<close>

record 'f plan_arith =
  pa_worst_cost :: "'f list \<Rightarrow> int \<Rightarrow> 'f \<Rightarrow> int \<Rightarrow> 'f"
  pa_late :: "instant \<Rightarrow> instant \<Rightarrow> int \<Rightarrow> bool"

definition worst_latency :: "int list \<Rightarrow> int \<Rightarrow> int \<Rightarrow> int \<Rightarrow> int" where
  "worst_latency proposals waves aggregator layers = (Max (set proposals) * (1 + waves) + aggregator) * layers"

definition planned_layer :: "(string \<Rightarrow> string \<Rightarrow> string) \<Rightarrow> string \<Rightarrow> int \<Rightarrow> string list \<Rightarrow> nat \<Rightarrow> moa_layer" where
  "planned_layer uuid5 aggregator quorum deployments index =
     \<lparr>yl_layer_id = uuid5 ''NAMESPACE_URL'' (''moa-layer:'' @ str_int (int index) @ '':'' @ aggregator), yl_tenant_id = ''pending'',
      yl_session_id = ''pending'', yl_execution_id = ''pending'', yl_layer_index = int index, yl_aggregator_deployment_id = aggregator,
      yl_quorum = quorum, yl_deployment_ids = deployments, yl_aggregate_reference = None, yl_idempotency_key = ''layer-'' @ str_int (int index)\<rparr>"

definition plan_layers :: "(string \<Rightarrow> string \<Rightarrow> string) \<Rightarrow> 'f float_ops \<Rightarrow> 'f plan_arith \<Rightarrow> 'f model_candidate list \<Rightarrow> int \<Rightarrow> int \<Rightarrow> int \<Rightarrow> string \<Rightarrow>
    'f \<Rightarrow> instant \<Rightarrow> instant \<Rightarrow> int \<Rightarrow> 'f moa_plan result" where
  "plan_layers uuid5 fl ar candidates layers fan_out quorum aggregator_id maximum_cost deadline now waves =
     (if layers \<le> 0 \<or> fan_out \<le> 0 \<or> \<not> (1 \<le> quorum \<and> quorum \<le> fan_out) then Inl (ValueError ''invalid layer, fan-out, or quorum'')
      else if waves \<notin> {0, 1} then Inl (ValueError ''only one replacement wave is supported'')
      else
      let healthy = by_deployment (filter mc_healthy candidates) in
      case map_of healthy aggregator_id of
        None \<Rightarrow> Inl (ValueError ''aggregator unavailable'')
      | Some aggregator \<Rightarrow>
      (let proposers = take (nat fan_out) (sort_key mc_deployment_id (filter (\<lambda>c. mc_deployment_id c \<noteq> aggregator_id) (map snd healthy))) in
       if int (length proposers) < fan_out then Inl (ValueError ''aggregator must be separate from all proposers'')
       else
       let worst_cost = pa_worst_cost ar (map mc_estimated_cost_usd proposers) waves (mc_estimated_cost_usd aggregator) layers;
           latency = worst_latency (map mc_estimated_latency_ms proposers) waves (mc_estimated_latency_ms aggregator) layers in
       if fl_less fl maximum_cost worst_cost then Inl (ValueError ''MoA worst-case cost is not admitted'')
       else if pa_late ar deadline now latency then Inl (ValueError ''MoA worst-case latency exceeds deadline'')
       else Inr \<lparr>yn_layers = map (planned_layer uuid5 aggregator_id quorum (map mc_deployment_id proposers)) [0..<nat layers],
         yn_worst_case_cost_usd = worst_cost, yn_worst_case_latency_ms = latency, yn_replacement_waves = waves\<rparr>))"

lemma by_deployment_snoc: "by_deployment (cs @ [c]) = AList.update (mc_deployment_id c) c (by_deployment cs)"
  by (simp add: by_deployment_def)

lemma by_deployment_keys: "distinct (map fst (by_deployment cs))" "\<forall>(d, c) \<in> set (by_deployment cs). mc_deployment_id c = d \<and> c \<in> set cs"
proof (induction cs rule: rev_induct)
  case (snoc c cs)
  { case 1 show ?case using snoc.IH(1) by (simp add: by_deployment_snoc) }
  { case 2 show ?case using snoc.IH set_alist_update [of "by_deployment cs" "mc_deployment_id c" c] by (auto simp: by_deployment_snoc) }
qed (simp_all add: by_deployment_def)

text \<open>An admitted plan: layers numbered from zero, each with \<open>fan_out\<close> different healthy deployments that are not the aggregator.\<close>

lemma plan_layers_ok:
  assumes "plan_layers uuid5 fl ar candidates layers fan_out quorum aggregator_id maximum_cost deadline now waves = Inr plan"
  shows "length (yn_layers plan) = nat layers" "\<not> fl_less fl maximum_cost (yn_worst_case_cost_usd plan)"
    "\<forall>k < length (yn_layers plan). yl_layer_index (yn_layers plan ! k) = int k \<and>
       length (yl_deployment_ids (yn_layers plan ! k)) = nat fan_out \<and> distinct (yl_deployment_ids (yn_layers plan ! k)) \<and>
       aggregator_id \<notin> set (yl_deployment_ids (yn_layers plan ! k)) \<and> 1 \<le> yl_quorum (yn_layers plan ! k) \<and>
       yl_quorum (yn_layers plan ! k) \<le> int (length (yl_deployment_ids (yn_layers plan ! k)))"
proof -
  let ?healthy = "by_deployment (filter mc_healthy candidates)"
  let ?sorted = "sort_key mc_deployment_id (filter (\<lambda>c. mc_deployment_id c \<noteq> aggregator_id) (map snd ?healthy))"
  let ?ps = "take (nat fan_out) ?sorted"
  have g: "0 < layers" "0 < fan_out" "1 \<le> quorum" "quorum \<le> fan_out" "\<not> int (length ?ps) < fan_out"
    "yn_layers plan = map (planned_layer uuid5 aggregator_id quorum (map mc_deployment_id ?ps)) [0..<nat layers]"
    "\<not> fl_less fl maximum_cost (yn_worst_case_cost_usd plan)"
    using assms by (auto simp: plan_layers_def Let_def split: if_splits option.splits)
  have ids: "map mc_deployment_id (map snd ?healthy) = map fst ?healthy"
    using by_deployment_keys(2) [of "filter mc_healthy candidates"] by (auto simp: case_prod_unfold)
  have "distinct (map mc_deployment_id (filter (\<lambda>c. mc_deployment_id c \<noteq> aggregator_id) (map snd ?healthy)))"
    using by_deployment_keys(1) [of "filter mc_healthy candidates"] ids by (metis distinct_map_filter)
  then have "distinct (map mc_deployment_id ?sorted)" by (simp add: distinct_map)
  then have d: "distinct (map mc_deployment_id ?ps)" by (metis distinct_take take_map)
  have "aggregator_id \<notin> set (map mc_deployment_id ?ps)" by (auto dest!: in_set_takeD)
  moreover have "length ?ps = nat fan_out" using g(5) by (simp add: min_def split: if_splits)
  ultimately show "\<forall>k < length (yn_layers plan). yl_layer_index (yn_layers plan ! k) = int k \<and>
       length (yl_deployment_ids (yn_layers plan ! k)) = nat fan_out \<and> distinct (yl_deployment_ids (yn_layers plan ! k)) \<and>
       aggregator_id \<notin> set (yl_deployment_ids (yn_layers plan ! k)) \<and> 1 \<le> yl_quorum (yn_layers plan ! k) \<and>
       yl_quorum (yn_layers plan ! k) \<le> int (length (yl_deployment_ids (yn_layers plan ! k)))"
    using g(2-4) d by (simp add: g(6) planned_layer_def)
  show "length (yn_layers plan) = nat layers" by (simp add: g(6))
  show "\<not> fl_less fl maximum_cost (yn_worst_case_cost_usd plan)" by (rule g(7))
qed

end
