(* ===== verification/Moa_Store.thy ===== *)
theory Moa_Store
  imports Moa Debate Coord_Tables
begin

text \<open>
  The repositories of the mixture-of-agents pattern (\<open>app/coordination/moa/repository.py\<close>), in memory and
  in Postgres, with the contract the runtime relies on as a locale: a proposal that was saved once
  answers every later save under its key.  The rounding of the numeric cost column is a parameter.
\<close>

section \<open>In memory\<close>

datatype 'f moa_entity = LayerEntity moa_layer | ProposalEntity "'f moa_proposal"

record 'f mem_moa =
  mo_layers :: "((string \<times> string \<times> int) \<times> moa_layer) list"
  mo_proposals :: "((string \<times> string \<times> int \<times> string \<times> int) \<times> 'f moa_proposal) list"
  mo_commands :: "string \<times> string \<Rightarrow> 'f moa_entity option"

definition layer_key :: "moa_layer \<Rightarrow> string \<times> string \<times> int" where
  "layer_key l = (yl_tenant_id l, yl_execution_id l, yl_layer_index l)"

definition proposal_key :: "'f moa_proposal \<Rightarrow> string \<times> string \<times> int \<times> string \<times> int" where
  "proposal_key p = (yp_tenant_id p, yp_execution_id p, yp_layer_index p, yp_participant_id p, yp_attempt p)"

definition mem_create_layer :: "moa_layer \<Rightarrow> ('f mem_moa, moa_layer) op" where
  "mem_create_layer l s =
     (let command = (yl_tenant_id l, yl_idempotency_key l) in
      case mo_commands s command of
        Some (LayerEntity prior) \<Rightarrow> (Inr prior, s)
      | Some (ProposalEntity _) \<Rightarrow> (Inl (ValueError ''idempotency key reused across entity types''), s)
      | None \<Rightarrow>
          if map_of (mo_layers s) (layer_key l) \<noteq> None then (Inl (ValueError ''MoA layer already exists''), s)
          else (Inr l, s\<lparr>mo_layers := mo_layers s @ [(layer_key l, l)], mo_commands := (mo_commands s)(command \<mapsto> LayerEntity l)\<rparr>))"

definition mem_save_proposal :: "'f moa_proposal \<Rightarrow> ('f mem_moa, 'f moa_proposal) op" where
  "mem_save_proposal p s =
     (let command = (yp_tenant_id p, yp_idempotency_key p) in
      case mo_commands s command of
        Some (ProposalEntity prior) \<Rightarrow> (Inr prior, s)
      | Some (LayerEntity _) \<Rightarrow> (Inl (ValueError ''idempotency key reused across entity types''), s)
      | None \<Rightarrow>
          if map_of (mo_proposals s) (proposal_key p) \<noteq> None then (Inl (ValueError ''MoA proposal already exists''), s)
          else (Inr p, s\<lparr>mo_proposals := mo_proposals s @ [(proposal_key p, p)], mo_commands := (mo_commands s)(command \<mapsto> ProposalEntity p)\<rparr>))"

definition mem_layers :: "string \<Rightarrow> string \<Rightarrow> 'f mem_moa \<Rightarrow> moa_layer list" where
  "mem_layers t session s =
     sort_key yl_layer_index (filter (\<lambda>l. yl_tenant_id l = t \<and> yl_session_id l = session) (map snd (mo_layers s)))"

definition mem_proposals :: "string \<Rightarrow> string \<Rightarrow> int \<Rightarrow> 'f mem_moa \<Rightarrow> 'f moa_proposal list" where
  "mem_proposals t eid index s =
     sort_key (\<lambda>p. (yp_participant_id p, yp_attempt p))
       (filter (\<lambda>p. yp_tenant_id p = t \<and> yp_execution_id p = eid \<and> yp_layer_index p = index) (map snd (mo_proposals s)))"

section \<open>Postgres\<close>

text \<open>
  The tables as their rows.  The columns that no reader uses are constant and left out.  The primary key
  is unique over all tenants, the business keys per tenant; a violated constraint raises.
\<close>

record 'f pg_moa =
  pm_layers :: "moa_layer list"
  pm_proposals :: "'f moa_proposal list"

definition pg_create_layer :: "bool \<Rightarrow> moa_layer \<Rightarrow> ('f pg_moa, moa_layer) op" where
  "pg_create_layer enforced l db =
     (case one_or_none (filter (\<lambda>r. yl_session_id r = yl_session_id l \<and> yl_idempotency_key r = yl_idempotency_key l)
             (rls_rows enforced yl_tenant_id (yl_tenant_id l) (pm_layers db))) of
        Inl e \<Rightarrow> (Inl e, db)
      | Inr (Some prior) \<Rightarrow> (Inr prior, db)
      | Inr None \<Rightarrow>
          if yl_layer_id l \<in> yl_layer_id ` set (pm_layers db) \<or> layer_key l \<in> layer_key ` set (pm_layers db) \<or>
            yl_layer_index l < 0 \<or> yl_quorum l \<le> 0
          then (Inl (IntegrityError ''moa_layers''), db)
          else (Inr l, db\<lparr>pm_layers := pm_layers db @ [l]\<rparr>))"

text \<open>What a row of the proposal reads back as: the cost has six decimals.\<close>

definition proposal_row :: "('f \<Rightarrow> 'f) \<Rightarrow> 'f moa_proposal \<Rightarrow> 'f moa_proposal" where
  "proposal_row numeric p = p\<lparr>yp_cost_usd := numeric (yp_cost_usd p)\<rparr>"

definition pg_save_proposal :: "bool \<Rightarrow> ('f \<Rightarrow> 'f) \<Rightarrow> 'f moa_proposal \<Rightarrow> ('f pg_moa, 'f moa_proposal) op" where
  "pg_save_proposal enforced numeric p db =
     (case one_or_none (filter (\<lambda>r. yp_execution_id r = yp_execution_id p \<and> yp_idempotency_key r = yp_idempotency_key p)
             (rls_rows enforced yp_tenant_id (yp_tenant_id p) (pm_proposals db))) of
        Inl e \<Rightarrow> (Inl e, db)
      | Inr (Some prior) \<Rightarrow> (Inr prior, db)
      | Inr None \<Rightarrow>
          if yp_proposal_id p \<in> yp_proposal_id ` set (pm_proposals db) \<or> proposal_key p \<in> proposal_key ` set (pm_proposals db) \<or>
            yp_layer_index p < 0 \<or> yp_attempt p \<le> 0 \<or> yp_tokens p < 0
          then (Inl (IntegrityError ''moa_proposals''), db)
          else (Inr p, db\<lparr>pm_proposals := pm_proposals db @ [proposal_row numeric p]\<rparr>))"

definition pg_layers :: "bool \<Rightarrow> string \<Rightarrow> string \<Rightarrow> 'f pg_moa \<Rightarrow> moa_layer list" where
  "pg_layers enforced t session db =
     sort_key yl_layer_index (filter (\<lambda>l. yl_session_id l = session) (rls_rows enforced yl_tenant_id t (pm_layers db)))"

definition pg_proposals :: "bool \<Rightarrow> string \<Rightarrow> string \<Rightarrow> int \<Rightarrow> 'f pg_moa \<Rightarrow> 'f moa_proposal list" where
  "pg_proposals enforced t eid index db =
     sort_key (\<lambda>p. (yp_participant_id p, yp_attempt p))
       (filter (\<lambda>p. yp_execution_id p = eid \<and> yp_layer_index p = index) (rls_rows enforced yp_tenant_id t (pm_proposals db)))"

section \<open>The contract of a proposal store\<close>

locale moa_store =
  fixes save :: "'f moa_proposal \<Rightarrow> ('r, 'f moa_proposal) op"
    and key :: "'f moa_proposal \<Rightarrow> 'k"
    and lookup :: "'k \<Rightarrow> 'r \<Rightarrow> 'f moa_proposal option"
    and stored :: "'f moa_proposal \<Rightarrow> 'f moa_proposal"
    and ok :: "'r \<Rightarrow> bool"
  assumes save_known: "ok r \<Longrightarrow> lookup (key p) r = Some q \<Longrightarrow> save p r = (Inr q, r)"
    and save_new: "ok r \<Longrightarrow> lookup (key p) r = None \<Longrightarrow> save p r = (Inr q, r1) \<Longrightarrow> q = p \<and> lookup (key p) r1 = Some (stored p)"
    and save_keeps: "ok r \<Longrightarrow> save p r = (res, r1) \<Longrightarrow> lookup k r = Some q \<Longrightarrow> lookup k r1 = Some q"
    and save_ok: "ok r \<Longrightarrow> save p r = (res, r1) \<Longrightarrow> ok r1"
begin

definition recorded_as :: "'f moa_proposal \<Rightarrow> 'f moa_proposal \<Rightarrow> bool" where
  "recorded_as q x \<longleftrightarrow> x = q \<or> x = stored q"

lemma save_found: "ok r \<Longrightarrow> save p r = (Inr q, r1) \<Longrightarrow> \<exists>x. lookup (key p) r1 = Some x \<and> recorded_as q x"
proof (cases "lookup (key p) r")
  case None
  then show "ok r \<Longrightarrow> save p r = (Inr q, r1) \<Longrightarrow> ?thesis" using save_new [of r p q r1] by (simp add: recorded_as_def)
next
  case (Some x)
  then show "ok r \<Longrightarrow> save p r = (Inr q, r1) \<Longrightarrow> ?thesis" using save_known [of r p x] by (simp add: recorded_as_def)
qed

lemma saves_keep:
  "ok r \<Longrightarrow> traverse save ps r = (res, r1) \<Longrightarrow> ok r1 \<and> (lookup k r = Some q \<longrightarrow> lookup k r1 = Some q)"
proof (induction ps arbitrary: r res r1)
  case (Cons p ps)
  obtain x r2 where s: "save p r = (x, r2)" by fastforce
  have r2: "ok r2" "lookup k r = Some q \<longrightarrow> lookup k r2 = Some q" using save_ok [OF Cons.prems(1) s] save_keeps [OF Cons.prems(1) s] by auto
  show ?case
  proof (cases x)
    case Inl then show ?thesis using Cons.prems(2) s r2 by simp
  next
    case (Inr y)
    obtain z r3 where t: "traverse save ps r2 = (z, r3)" by fastforce
    then have "r1 = r3" using Cons.prems(2) s Inr by (cases z) auto
    then show ?thesis using Cons.IH [OF r2(1) t] r2(2) by blast
  qed
qed simp

lemma saves_found:
  "ok r \<Longrightarrow> traverse save ps r = (Inr qs, r1) \<Longrightarrow> \<exists>xs. map (\<lambda>p. lookup (key p) r1) ps = map Some xs \<and> list_all2 recorded_as qs xs"
proof (induction ps arbitrary: r qs)
  case (Cons p ps)
  obtain q qs' r2 where q: "save p r = (Inr q, r2)" "traverse save ps r2 = (Inr qs', r1)" "qs = q # qs'"
    using Cons.prems(2) by (auto split: prod.splits sum.splits)
  have ok2: "ok r2" using save_ok [OF Cons.prems(1) q(1)] .
  obtain x where x: "lookup (key p) r1 = Some x" "recorded_as q x" using saves_keep [OF ok2 q(2)] save_found [OF Cons.prems(1) q(1)] by blast
  obtain xs where "map (\<lambda>p. lookup (key p) r1) ps = map Some xs" "list_all2 recorded_as qs' xs" using Cons.IH [OF ok2 q(2)] by blast
  then have "map (\<lambda>p. lookup (key p) r1) (p # ps) = map Some (x # xs)" "list_all2 recorded_as qs (x # xs)" using x q(3) by simp_all
  then show ?case by blast
qed simp

lemma saves_known: "ok r \<Longrightarrow> map (\<lambda>p. lookup (key p) r) ps = map Some qs \<Longrightarrow> traverse save ps r = (Inr qs, r)"
proof (induction ps arbitrary: qs)
  case (Cons p ps)
  then obtain q qs' where "qs = q # qs'" "lookup (key p) r = Some q" "map (\<lambda>p. lookup (key p) r) ps = map Some qs'" by auto
  then show ?case using Cons.IH [OF Cons.prems(1)] save_known [OF Cons.prems(1)] by simp
qed simp

text \<open>Saving other proposals under the keys of saved ones gives back what was stored and writes nothing.\<close>

lemma saves_replay:
  assumes "ok r" and s: "traverse save ps r = (Inr qs, r1)"
  shows "\<exists>xs. list_all2 recorded_as qs xs \<and> (\<forall>others res r2 ps'. traverse save others r1 = (res, r2) \<longrightarrow> map key ps' = map key ps \<longrightarrow>
    traverse save ps' r2 = (Inr xs, r2))"
proof -
  have ok1: "ok r1" using saves_keep [OF assms(1) s] by blast
  obtain xs where xs: "map (\<lambda>p. lookup (key p) r1) ps = map Some xs" "list_all2 recorded_as qs xs" using saves_found [OF assms] by blast
  have "traverse save ps' r2 = (Inr xs, r2)" if o: "traverse save others r1 = (res, r2)" and k: "map key ps' = map key ps" for others res r2 ps'
  proof (rule saves_known)
    show "ok r2" using saves_keep [OF ok1 o] by blast
    have "lookup (key p) r2 = lookup (key p) r1" if "p \<in> set ps" for p
    proof -
      have "lookup (key p) r1 \<in> set (map (\<lambda>p. lookup (key p) r1) ps)" using that by simp
      then have "lookup (key p) r1 \<in> set (map Some xs)" by (simp only: xs(1))
      then show ?thesis using saves_keep [OF ok1 o] by auto
    qed
    then have "map (\<lambda>p. lookup (key p) r2) ps = map (\<lambda>p. lookup (key p) r1) ps" by simp
    moreover have "map (\<lambda>p. lookup (key p) r2) ps' = map (\<lambda>k. lookup k r2) (map key ps')" by simp
    moreover have "map (\<lambda>k. lookup k r2) (map key ps') = map (\<lambda>p. lookup (key p) r2) ps" by (simp add: k)
    ultimately show "map (\<lambda>p. lookup (key p) r2) ps' = map Some xs" using xs(1) by (simp add: comp_def)
  qed
  then show ?thesis using xs(2) by blast
qed

end

section \<open>Both stores keep it\<close>

definition mem_command :: "'f moa_proposal \<Rightarrow> string \<times> string" where
  "mem_command p = (yp_tenant_id p, yp_idempotency_key p)"

definition mem_lookup :: "string \<times> string \<Rightarrow> 'f mem_moa \<Rightarrow> 'f moa_proposal option" where
  "mem_lookup k s = (case mo_commands s k of Some (ProposalEntity p) \<Rightarrow> Some p | _ \<Rightarrow> None)"

interpretation mm: moa_store mem_save_proposal mem_command mem_lookup id "\<lambda>_. True"
proof
  fix p q :: "'f moa_proposal" and s s1 :: "'f mem_moa" and k and res
  show "mem_lookup (mem_command p) s = Some q \<Longrightarrow> mem_save_proposal p s = (Inr q, s)"
    by (auto simp: mem_lookup_def mem_command_def mem_save_proposal_def split: option.splits moa_entity.splits)
  show "mem_lookup (mem_command p) s = None \<Longrightarrow> mem_save_proposal p s = (Inr q, s1) \<Longrightarrow>
      q = p \<and> mem_lookup (mem_command p) s1 = Some (id p)"
    by (auto simp: mem_lookup_def mem_command_def mem_save_proposal_def Let_def split: option.splits moa_entity.splits if_splits)
  show "mem_save_proposal p s = (res, s1) \<Longrightarrow> mem_lookup k s = Some q \<Longrightarrow> mem_lookup k s1 = Some q"
    by (auto simp: mem_lookup_def mem_save_proposal_def Let_def split: option.splits moa_entity.splits if_splits)
qed simp_all

definition pg_command :: "'f moa_proposal \<Rightarrow> string \<times> string \<times> string" where
  "pg_command p = (yp_tenant_id p, yp_execution_id p, yp_idempotency_key p)"

definition pg_lookup :: "string \<times> string \<times> string \<Rightarrow> 'f pg_moa \<Rightarrow> 'f moa_proposal option" where
  "pg_lookup k db = find (\<lambda>r. pg_command r = k) (pm_proposals db)"

definition pg_moa_ok :: "'f pg_moa \<Rightarrow> bool" where
  "pg_moa_ok db \<longleftrightarrow> distinct (map pg_command (pm_proposals db))"

text \<open>The query for the key of a proposal, restricted to the rows of its tenant, finds its row.\<close>

lemma pg_query:
  assumes "distinct (map pg_command rows)"
  shows "one_or_none (filter (\<lambda>r. yp_execution_id r = yp_execution_id p \<and> yp_idempotency_key r = yp_idempotency_key p)
    (rls_rows True yp_tenant_id (yp_tenant_id p) rows)) = Inr (find (\<lambda>r. pg_command r = pg_command p) rows)"
proof -
  have "filter (\<lambda>r. yp_execution_id r = yp_execution_id p \<and> yp_idempotency_key r = yp_idempotency_key p)
      (rls_rows True yp_tenant_id (yp_tenant_id p) rows) = filter (\<lambda>r. pg_command r = pg_command p) rows"
    by (auto simp: pg_command_def intro!: filter_cong)
  then show ?thesis using one_or_none_key [OF assms, of "pg_command p"] by simp
qed


interpretation pm: moa_store "pg_save_proposal True numeric" pg_command pg_lookup "proposal_row numeric" pg_moa_ok
  for numeric :: "'f \<Rightarrow> 'f"
proof
  have row: "pg_command (proposal_row numeric p) = pg_command p" for p :: "'f moa_proposal" by (simp add: pg_command_def proposal_row_def)
  fix p q :: "'f moa_proposal" and db db1 :: "'f pg_moa" and k and res
  assume ok: "pg_moa_ok db"
  have query: "one_or_none (filter (\<lambda>r. yp_execution_id r = yp_execution_id p \<and> yp_idempotency_key r = yp_idempotency_key p)
      (rls_rows True yp_tenant_id (yp_tenant_id p) (pm_proposals db))) = Inr (pg_lookup (pg_command p) db)"
    using ok pg_query [of "pm_proposals db" p] by (simp add: pg_moa_ok_def pg_lookup_def)
  note save = pg_save_proposal_def query
  show "pg_lookup (pg_command p) db = Some q \<Longrightarrow> pg_save_proposal True numeric p db = (Inr q, db)"
    by (simp add: save del: rls_rows_simps)
  show "pg_lookup (pg_command p) db = None \<Longrightarrow> pg_save_proposal True numeric p db = (Inr q, db1) \<Longrightarrow>
      q = p \<and> pg_lookup (pg_command p) db1 = Some (proposal_row numeric p)"
    using row by (auto simp: save pg_lookup_def find_append simp del: rls_rows_simps split: if_splits)
  show "pg_save_proposal True numeric p db = (res, db1) \<Longrightarrow> pg_lookup k db = Some q \<Longrightarrow> pg_lookup k db1 = Some q"
    by (auto simp: save pg_lookup_def find_append simp del: rls_rows_simps split: if_splits option.splits)
  show "pg_save_proposal True numeric p db = (res, db1) \<Longrightarrow> pg_moa_ok db1"
    using ok row by (fastforce simp: save pg_moa_ok_def pg_lookup_def find_None_iff simp del: rls_rows_simps split: if_splits option.splits)
qed

text \<open>
  First write wins in both stores.  In memory the replay returns what the first save returned; Postgres
  returns the rows, whose costs are rounded, so the first and the later totals of a layer may differ.
\<close>

lemma mem_first_write:
  assumes "traverse mem_save_proposal ps r = (Inr qs, r1)" "traverse mem_save_proposal others r1 = (res, r2)"
    and "map mem_command ps' = map mem_command ps"
  shows "traverse mem_save_proposal ps' r2 = (Inr qs, r2)"
proof -
  obtain xs where xs: "list_all2 mm.recorded_as qs xs" "traverse mem_save_proposal ps' r2 = (Inr xs, r2)"
    using mm.saves_replay [OF TrueI assms(1)] assms(2,3) by blast
  have "mm.recorded_as = ((=) :: 'a moa_proposal \<Rightarrow> _)" by (auto simp: fun_eq_iff mm.recorded_as_def)
  then show ?thesis using xs by (simp add: list.rel_eq)
qed

lemma pg_first_write:
  assumes "pg_moa_ok r" "traverse (pg_save_proposal True numeric) ps r = (Inr qs, r1)"
  shows "\<exists>xs. list_all2 (\<lambda>q x. x = q \<or> x = proposal_row numeric q) qs xs \<and>
    (\<forall>others res r2 ps'. traverse (pg_save_proposal True numeric) others r1 = (res, r2) \<longrightarrow> map pg_command ps' = map pg_command ps \<longrightarrow>
       traverse (pg_save_proposal True numeric) ps' r2 = (Inr xs, r2))"
  using pm.saves_replay [OF assms] by (simp add: pm.recorded_as_def [abs_def])

end
