(* ===== verification/Magentic_Runtime.thy ===== *)
theory Magentic_Runtime
  imports Magentic
begin

text \<open>
  The Magentic runtime (\<open>app/coordination/magentic/adapter.py\<close>): rounds of one participant each, every
  round a revision of the progress ledger and two checkpoints, a replan when the round made no
  progress.  The ledger repository and the callbacks are parameters over states \<open>'l\<close> and \<open>'w\<close>; the
  clock is read through \<open>'w\<close>; the conversion of the remaining time to milliseconds is a parameter, as
  it is floating point.  An update is the part of the returned mapping that the code keeps.
\<close>

section \<open>State and environment\<close>

datatype magentic_phase = MG_Initializing | MG_Planning | MG_Executing | MG_Assessing | MG_Replanning | MG_Awaiting_Human
  | MG_Synthesizing | MG_Completed | MG_Failed | MG_Cancelled

record magentic_state =
  mg_tenant_id :: string
  mg_session_id :: string
  mg_execution_id :: string
  mg_phase :: magentic_phase
  mg_ledger_version :: int
  mg_round_number :: int
  mg_reset_count :: int
  mg_selected_agent_id :: "string option"
  mg_human_review_token_digest :: "string option"
  mg_safe_output :: "string option"
  mg_terminal_reason :: "string option"
  mg_checkpoint_version :: int

record raw_plan =
  pl_objective :: "string option"
  pl_open_work :: "string list"
  pl_satisfaction_criteria :: "string list"
  pl_blockers :: "string list"

record raw_replan =
  pr_open_work :: "string list option"
  pr_contradicted_facts :: "string list"
  pr_stall_evidence_reference :: "string option"

record ledger_update =
  lu_objective :: "string option"
  lu_open_work :: "string list option"
  lu_completed_work :: "string list option"
  lu_claimed_completed_work :: "string list option"
  lu_verified_facts :: "string list option"
  lu_evidence_references :: "string list option"
  lu_blockers :: "string list option"
  lu_satisfaction_criteria :: "string list option"
  lu_satisfied_criteria :: "string list option"
  lu_last_action_signature :: "string option"
  lu_confidence :: "rat option"
  lu_reset_count :: "int option"
  lu_stall_evidence_references :: "string list option"
  lu_created_at :: "instant option"

record ('l, 'w) magentic_env =
  me_append :: "ledger_revision \<Rightarrow> int \<Rightarrow> ('l, ledger_revision) op"
  me_current :: "string \<Rightarrow> string \<Rightarrow> ('l, ledger_revision option) op"
  me_plan :: "string \<Rightarrow> ('w, raw_plan) op"
  me_run_participant :: "string \<Rightarrow> ledger_revision \<Rightarrow> ('w, ledger_update) op"
  me_replan :: "ledger_revision \<Rightarrow> stall_assessment \<Rightarrow> ('w, raw_replan) op"
  me_synthesize :: "ledger_revision \<Rightarrow> ('w, string) op"
  me_cancelled :: "('w \<Rightarrow> bool) option"
  me_clock :: "('w, instant) op"
  me_millis :: "duration \<Rightarrow> int"
  me_participants :: "participant_candidate list"
  me_required_capabilities :: "string set"
  me_maximum_rounds :: int
  me_maximum_resets :: int
  me_deadline :: instant

record ('l, 'w) magentic_world =
  mw_checkpoints :: "string \<times> string \<Rightarrow> magentic_state option"
  mw_ledger :: 'l
  mw_world :: 'w

section \<open>Sequencing\<close>

definition op_bind :: "('s, 'a) op \<Rightarrow> ('a \<Rightarrow> ('s, 'b) op) \<Rightarrow> ('s, 'b) op" where
  "op_bind f g s = (case f s of (Inl e, s1) \<Rightarrow> (Inl e, s1) | (Inr x, s1) \<Rightarrow> g x s1)"

definition op_return :: "'a \<Rightarrow> ('s, 'a) op" where
  "op_return x s = (Inr x, s)"

definition op_raise :: "py_error \<Rightarrow> ('s, 'a) op" where
  "op_raise e s = (Inl e, s)"

definition on_world :: "('w, 'a) op \<Rightarrow> (('l, 'w) magentic_world, 'a) op" where
  "on_world f s = (case f (mw_world s) of (r, w) \<Rightarrow> (r, s\<lparr>mw_world := w\<rparr>))"

definition on_ledger :: "('l, 'a) op \<Rightarrow> (('l, 'w) magentic_world, 'a) op" where
  "on_ledger f s = (case f (mw_ledger s) of (r, l) \<Rightarrow> (r, s\<lparr>mw_ledger := l\<rparr>))"

definition save_magentic :: "magentic_state \<Rightarrow> (('l, 'w) magentic_world, unit) op" where
  "save_magentic st s = (Inr (), s\<lparr>mw_checkpoints := (mw_checkpoints s)((mg_session_id st, mg_execution_id st) \<mapsto> st)\<rparr>)"

lemma op_bind_Inr: "op_bind f g s = (Inr y, s2) \<longleftrightarrow> (\<exists>x s1. f s = (Inr x, s1) \<and> g x s1 = (Inr y, s2))"
  by (auto simp: op_bind_def split: prod.splits sum.splits)

lemma op_return_Inr: "op_return x s = (Inr y, s1) \<longleftrightarrow> y = x \<and> s1 = s"
  by (auto simp: op_return_def)

lemma op_raise_Inr: "op_raise e s = (Inr y, s1) \<longleftrightarrow> False"
  by (simp add: op_raise_def)

lemma on_world_Inr: "on_world f s = (Inr y, s1) \<longleftrightarrow> (\<exists>w. f (mw_world s) = (Inr y, w) \<and> s1 = s\<lparr>mw_world := w\<rparr>)"
  by (auto simp: on_world_def split: prod.splits)

lemma on_ledger_Inr: "on_ledger f s = (Inr y, s1) \<longleftrightarrow> (\<exists>l. f (mw_ledger s) = (Inr y, l) \<and> s1 = s\<lparr>mw_ledger := l\<rparr>)"
  by (auto simp: on_ledger_def split: prod.splits)

lemma save_magentic_Inr:
  "save_magentic st s = (Inr y, s1) \<longleftrightarrow> s1 = s\<lparr>mw_checkpoints := (mw_checkpoints s)((mg_session_id st, mg_execution_id st) \<mapsto> st)\<rparr>"
  by (auto simp: save_magentic_def)

lemmas op_Inr = op_bind_Inr op_return_Inr op_raise_Inr on_world_Inr on_ledger_Inr save_magentic_Inr

section \<open>One round\<close>

text \<open>The subclasses of \<open>RuntimeError\<close> among the exceptions.\<close>

fun is_runtime_error :: "py_error \<Rightarrow> bool" where
  "is_runtime_error (RuntimeError _) = True"
| "is_runtime_error (OptimisticConflictError _ _) = True"
| "is_runtime_error (OptimisticConflictMessage _) = True"
| "is_runtime_error (ActiveClaimError _) = True"
| "is_runtime_error (StaleFencingTokenError _) = True"
| "is_runtime_error (StaleWinnerError _) = True"
| "is_runtime_error (ResumeRejectedError _ _) = True"
| "is_runtime_error (IncompatibleCheckpointError _) = True"
| "is_runtime_error _ = False"

definition opt :: "'a option \<Rightarrow> 'a \<Rightarrow> 'a" where
  "opt x d = (case x of None \<Rightarrow> d | Some y \<Rightarrow> y)"

definition next_revision :: "ledger_update \<Rightarrow> string \<Rightarrow> string \<Rightarrow> ledger_revision \<Rightarrow> ledger_revision" where
  "next_revision u agent key r =
     r\<lparr>lr_objective := opt (lu_objective u) (lr_objective r), lr_open_work := opt (lu_open_work u) (lr_open_work r),
       lr_completed_work := opt (lu_completed_work u) (lr_completed_work r),
       lr_claimed_completed_work := opt (lu_claimed_completed_work u) (lr_claimed_completed_work r),
       lr_verified_facts := opt (lu_verified_facts u) (lr_verified_facts r),
       lr_evidence_references := opt (lu_evidence_references u) (lr_evidence_references r),
       lr_blockers := opt (lu_blockers u) (lr_blockers r),
       lr_satisfaction_criteria := opt (lu_satisfaction_criteria u) (lr_satisfaction_criteria r),
       lr_satisfied_criteria := opt (lu_satisfied_criteria u) (lr_satisfied_criteria r),
       lr_last_action_signature := opt (lu_last_action_signature u) (lr_last_action_signature r),
       lr_confidence := opt (lu_confidence u) (lr_confidence r), lr_reset_count := opt (lu_reset_count u) (lr_reset_count r),
       lr_stall_evidence_references := opt (lu_stall_evidence_references u) (lr_stall_evidence_references r),
       lr_created_at := opt (lu_created_at u) (lr_created_at r),
       lr_version := lr_version r + 1, lr_predecessor_version := Some (lr_version r),
       lr_assignment_history := lr_assignment_history r @ [agent], lr_idempotency_key := key\<rparr>"

definition round_key :: "string \<Rightarrow> int \<Rightarrow> string" where
  "round_key eid n = eid @ '':round:'' @ str_int n"

definition work_done :: "ledger_revision \<Rightarrow> bool" where
  "work_done r \<longleftrightarrow> lr_open_work r = [] \<and> set (lr_satisfaction_criteria r) \<subseteq> set (lr_satisfied_criteria r)"

type_synonym magentic_answer = "magentic_state \<times> string option"

definition stop_magentic :: "magentic_state \<Rightarrow> string option \<Rightarrow> (('l, 'w) magentic_world, magentic_answer + 'c) op" where
  "stop_magentic st out = op_bind (save_magentic st) (\<lambda>_. op_return (Inl (st, out)))"

text \<open>The \<open>try\<close> around the replan callback and the manager: \<open>None\<close> is a caught \<open>RuntimeError\<close>.\<close>

definition try_replan :: "('l, 'w) magentic_env \<Rightarrow> string \<Rightarrow> ledger_revision \<Rightarrow> stall_assessment \<Rightarrow> (('l, 'w) magentic_world, ledger_revision option) op" where
  "try_replan env eid current stall s =
     (case on_world (me_replan env current stall) s of
        (Inl e, s1) \<Rightarrow> if is_runtime_error e then (Inr None, s1) else (Inl e, s1)
      | (Inr p, s1) \<Rightarrow>
          (case manager_replan (me_maximum_resets env) current (opt (pr_open_work p) (lr_open_work current)) (pr_contradicted_facts p)
                  (opt (pr_stall_evidence_reference p) (''stall://'' @ str_int (lr_version current)))
                  (eid @ '':reset:'' @ str_int (lr_reset_count current + 1)) of
             Inl e \<Rightarrow> if is_runtime_error e then (Inr None, s1) else (Inl e, s1)
           | Inr r \<Rightarrow> (Inr (Some r), s1)))"

type_synonym magentic_loop = "magentic_state \<times> ledger_revision \<times> stall_detector"

definition assess_round :: "('l, 'w) magentic_env \<Rightarrow> magentic_state \<Rightarrow> ledger_revision \<Rightarrow> progress_assessment \<Rightarrow> stall_detector \<Rightarrow>
    (('l, 'w) magentic_world, magentic_answer + magentic_loop) op" where
  "assess_round env st r assessment det =
     (if work_done r
      then op_bind (on_world (me_synthesize env r)) (\<lambda>text.
        stop_magentic (st\<lparr>mg_phase := MG_Completed, mg_safe_output := Some (take 8000 text)\<rparr>) (Some (take 8000 text)))
      else
      case observe (lr_version r) assessment (lr_last_action_signature r) (lr_blockers r) det of (stall, det1) \<Rightarrow>
      if \<not> sa_stalled stall then op_return (Inr (st, r, det1))
      else op_bind (try_replan env (mg_execution_id st) r stall) (\<lambda>replanned.
        case replanned of
          None \<Rightarrow> stop_magentic (st\<lparr>mg_phase := MG_Awaiting_Human, mg_terminal_reason := Some ''reset_exhausted''\<rparr>) None
        | Some r1 \<Rightarrow>
            op_bind (on_ledger (me_append env r1 (lr_version r))) (\<lambda>r2.
            let st1 = st\<lparr>mg_phase := MG_Replanning, mg_reset_count := lr_reset_count r2, mg_ledger_version := lr_version r2\<rparr> in
            op_bind (save_magentic st1) (\<lambda>_. op_return (Inr (st1, r2, det1))))))"

definition work_round :: "('l, 'w) magentic_env \<Rightarrow> string \<Rightarrow> magentic_state \<Rightarrow> ledger_revision \<Rightarrow> stall_detector \<Rightarrow>
    (('l, 'w) magentic_world, magentic_answer + magentic_loop) op" where
  "work_round env agent st current det =
     (let st1 = st\<lparr>mg_phase := MG_Executing, mg_selected_agent_id := Some agent\<rparr> in
      op_bind (save_magentic st1) (\<lambda>_.
      op_bind (on_world (me_run_participant env agent current)) (\<lambda>u.
      op_bind (on_ledger (me_append env (next_revision u agent (round_key (mg_execution_id st) (mg_round_number st + 1)) current) (lr_version current))) (\<lambda>r.
      let st2 = st1\<lparr>mg_phase := MG_Assessing, mg_round_number := mg_round_number st + 1, mg_ledger_version := lr_version r\<rparr> in
      op_bind (save_magentic st2) (\<lambda>_. assess_round env st2 r (evaluate_progress current r) det)))))"

definition magentic_round :: "('l, 'w) magentic_env \<Rightarrow> magentic_loop \<Rightarrow> (('l, 'w) magentic_world, magentic_answer + magentic_loop) op" where
  "magentic_round env v s =
     (case v of (st, current, det) \<Rightarrow>
      if me_cancelled env \<noteq> None \<and> the (me_cancelled env) (mw_world s)
      then stop_magentic (st\<lparr>mg_phase := MG_Cancelled, mg_terminal_reason := Some ''cancelled''\<rparr>) None s
      else op_bind (on_world (me_clock env)) (\<lambda>now.
        if me_deadline env \<le> now
        then stop_magentic (st\<lparr>mg_phase := MG_Failed, mg_terminal_reason := Some ''deadline_exceeded''\<rparr>) None
        else op_bind (on_world (me_clock env)) (\<lambda>now2.
          case select_participant (me_participants env) (me_required_capabilities env) (max 0 (me_millis env (me_deadline env - now2))) of
            Inl e \<Rightarrow> op_raise e
          | Inr d \<Rightarrow> work_round env (pd_selected_agent_id d) st current det)) s)"

lemmas round_defs = magentic_round_def work_round_def assess_round_def stop_magentic_def

lemma try_replan_Inr:
  "try_replan env eid r stall s = (Inr x, s1) \<Longrightarrow> mw_checkpoints s1 = mw_checkpoints s \<and> mw_ledger s1 = mw_ledger s"
  by (auto simp: try_replan_def on_world_def split: prod.splits sum.splits if_splits)

definition magentic_terminal :: "magentic_phase \<Rightarrow> bool" where
  "magentic_terminal p \<longleftrightarrow> p \<in> {MG_Completed, MG_Failed, MG_Cancelled, MG_Awaiting_Human}"

definition magentic_key :: "magentic_state \<Rightarrow> string \<times> string" where
  "magentic_key st = (mg_session_id st, mg_execution_id st)"

text \<open>
  What an answer promises: the state is final and checkpointed; completed, its output is returned and
  the last append to the ledger gave the revision it names, with no open work and all criteria met.
\<close>

definition recorded :: "('l, 'w) magentic_env \<Rightarrow> magentic_state \<Rightarrow> ledger_revision \<Rightarrow> 'l \<Rightarrow> bool" where
  "recorded env st r ledger \<longleftrightarrow> lr_version r = mg_ledger_version st \<and> (\<exists>r0 e l0. me_append env r0 e l0 = (Inr r, ledger))"

definition answer_ok :: "('l, 'w) magentic_env \<Rightarrow> magentic_answer \<Rightarrow> ('l, 'w) magentic_world \<Rightarrow> bool" where
  "answer_ok env answer s \<longleftrightarrow>
     (case answer of (st, out) \<Rightarrow>
        magentic_terminal (mg_phase st) \<and> mw_checkpoints s (magentic_key st) = Some st \<and>
        (mg_phase st = MG_Completed \<longrightarrow> out \<noteq> None \<and> mg_safe_output st = out \<and> (\<exists>r. recorded env st r (mw_ledger s) \<and> work_done r)) \<and>
        (mg_phase st \<noteq> MG_Completed \<longrightarrow> out = None \<and> mg_terminal_reason st \<noteq> None))"

definition same_run :: "magentic_state \<Rightarrow> magentic_state \<Rightarrow> bool" where
  "same_run st st1 \<longleftrightarrow> magentic_key st1 = magentic_key st \<and> mg_tenant_id st1 = mg_tenant_id st"

lemma stop_magentic_Inr:
  "stop_magentic st out s = (Inr x, s1) \<longleftrightarrow> x = Inl (st, out) \<and> s1 = s\<lparr>mw_checkpoints := (mw_checkpoints s)(magentic_key st \<mapsto> st)\<rparr>"
  by (auto simp: stop_magentic_def op_Inr magentic_key_def)

lemma assess_round_ok:
  assumes a: "assess_round env st r a det s = (Inr x, s1)" and rec: "recorded env st r (mw_ledger s)"
  shows "(case x of
      Inl (st1, out) \<Rightarrow> answer_ok env (st1, out) s1 \<and> same_run st st1 \<and> mg_round_number st1 = mg_round_number st
    | Inr (st1, r1, det1) \<Rightarrow> same_run st st1 \<and> mg_round_number st1 = mg_round_number st)"
proof -
  obtain stall det1 where o: "observe (lr_version r) a (lr_last_action_signature r) (lr_blockers r) det = (stall, det1)" by fastforce
  consider "work_done r" | "\<not> work_done r" "\<not> sa_stalled stall" | "\<not> work_done r" "sa_stalled stall" by blast
  then show ?thesis
  proof cases
    case 1
    then obtain reply w where x: "x = Inl (st\<lparr>mg_phase := MG_Completed, mg_safe_output := Some (take 8000 reply)\<rparr>, Some (take 8000 reply))"
      "s1 = s\<lparr>mw_world := w, mw_checkpoints := (mw_checkpoints s)(magentic_key st \<mapsto> st\<lparr>mg_phase := MG_Completed, mg_safe_output := Some (take 8000 reply)\<rparr>)\<rparr>"
      using a by (auto simp: assess_round_def op_Inr stop_magentic_Inr magentic_key_def)
    then show ?thesis using rec 1
      by (auto simp: answer_ok_def magentic_terminal_def same_run_def magentic_key_def recorded_def)
  next
    case 2
    then have "x = Inr (st, r, det1)" using a by (simp add: assess_round_def o op_return_def)
    then show ?thesis by (simp add: same_run_def)
  next
    case 3
    obtain y s2 where t: "try_replan env (mg_execution_id st) r stall s = (Inr y, s2)"
      and a': "(case y of
          None \<Rightarrow> stop_magentic (st\<lparr>mg_phase := MG_Awaiting_Human, mg_terminal_reason := Some ''reset_exhausted''\<rparr>) None
        | Some r1 \<Rightarrow>
            op_bind (on_ledger (me_append env r1 (lr_version r))) (\<lambda>r2.
            let st1 = st\<lparr>mg_phase := MG_Replanning, mg_reset_count := lr_reset_count r2, mg_ledger_version := lr_version r2\<rparr> in
            op_bind (save_magentic st1) (\<lambda>_. op_return (Inr (st1, r2, det1))))) s2 = (Inr x, s1)"
      using a 3 by (auto simp: assess_round_def o op_bind_Inr)
    show ?thesis
    proof (cases y)
      case None
      then show ?thesis using a'
        by (auto simp: stop_magentic_Inr answer_ok_def magentic_terminal_def same_run_def magentic_key_def)
    next
      case (Some r1)
      then show ?thesis using a' by (auto simp: op_Inr Let_def same_run_def magentic_key_def)
    qed
  qed
qed

lemma work_round_ok:
  assumes "work_round env agent st current det s = (Inr x, s1)"
  shows "(case x of
      Inl (st1, out) \<Rightarrow> answer_ok env (st1, out) s1 \<and> same_run st st1 \<and> mg_round_number st1 = mg_round_number st + 1
    | Inr (st1, r1, det1) \<Rightarrow> same_run st st1 \<and> mg_round_number st1 = mg_round_number st + 1)"
proof -
  let ?st1 = "st\<lparr>mg_phase := MG_Executing, mg_selected_agent_id := Some agent\<rparr>"
  let ?st2 = "\<lambda>r. ?st1\<lparr>mg_phase := MG_Assessing, mg_round_number := mg_round_number st + 1, mg_ledger_version := lr_version r\<rparr>"
  let ?next = "\<lambda>u. next_revision u agent (round_key (mg_execution_id st) (mg_round_number st + 1)) current"
  obtain sa u w r l sb where "save_magentic ?st1 s = (Inr (), sa)" "me_run_participant env agent current (mw_world sa) = (Inr u, w)"
    and ap: "me_append env (?next u) (lr_version current) (mw_ledger sa) = (Inr r, l)"
    and sv: "save_magentic (?st2 r) (sa\<lparr>mw_world := w, mw_ledger := l\<rparr>) = (Inr (), sb)"
    and as: "assess_round env (?st2 r) r (evaluate_progress current r) det sb = (Inr x, s1)"
    using assms by (auto simp: work_round_def Let_def op_bind_Inr on_world_Inr on_ledger_Inr)
  have "mw_ledger sb = l" using sv by (auto simp: save_magentic_def)
  then have "recorded env (?st2 r) r (mw_ledger sb)" using ap by (auto simp: recorded_def)
  from assess_round_ok [OF as this] show ?thesis by (auto simp: same_run_def magentic_key_def split: sum.splits)
qed

lemma magentic_round_ok:
  assumes m: "magentic_round env (st, current, det) s = (Inr x, s1)"
  shows "(case x of
      Inl (st1, out) \<Rightarrow> answer_ok env (st1, out) s1 \<and> same_run st st1 \<and> mg_round_number st1 \<le> mg_round_number st + 1
    | Inr (st1, r1, det1) \<Rightarrow> same_run st st1 \<and> mg_round_number st1 = mg_round_number st + 1)"
proof -
  have stop: ?thesis if "stop_magentic (st\<lparr>mg_phase := p, mg_terminal_reason := Some why\<rparr>) None sx = (Inr x, s1)"
    "p \<in> {MG_Cancelled, MG_Failed}" for p why sx
    using that by (auto simp: stop_magentic_Inr answer_ok_def magentic_terminal_def same_run_def magentic_key_def)
  show ?thesis
  proof (cases "me_cancelled env \<noteq> None \<and> the (me_cancelled env) (mw_world s)")
    case True
    then show ?thesis using m stop [where p = MG_Cancelled and why = "''cancelled''" and sx = s] by (simp add: magentic_round_def)
  next
    case False
    then obtain now sa where rest: "(if me_deadline env \<le> now
        then stop_magentic (st\<lparr>mg_phase := MG_Failed, mg_terminal_reason := Some ''deadline_exceeded''\<rparr>) None
        else op_bind (on_world (me_clock env)) (\<lambda>now2.
          case select_participant (me_participants env) (me_required_capabilities env) (max 0 (me_millis env (me_deadline env - now2))) of
            Inl e \<Rightarrow> op_raise e
          | Inr d \<Rightarrow> work_round env (pd_selected_agent_id d) st current det)) sa = (Inr x, s1)"
      using m by (auto simp: magentic_round_def op_bind_Inr)
    show ?thesis
    proof (cases "me_deadline env \<le> now")
      case True
      then show ?thesis using rest stop [where p = MG_Failed and why = "''deadline_exceeded''" and sx = sa] by simp
    next
      case late: False
      then obtain now2 sb where sel: "(case select_participant (me_participants env) (me_required_capabilities env) (max 0 (me_millis env (me_deadline env - now2))) of
            Inl e \<Rightarrow> op_raise e
          | Inr d \<Rightarrow> work_round env (pd_selected_agent_id d) st current det) sb = (Inr x, s1)"
        using rest by (auto simp: op_bind_Inr)
      then obtain agent where "work_round env agent st current det sb = (Inr x, s1)"
        by (cases "select_participant (me_participants env) (me_required_capabilities env) (max 0 (me_millis env (me_deadline env - now2)))")
          (auto simp: op_raise_Inr)
      from work_round_ok [OF this] show ?thesis by (auto split: sum.splits)
    qed
  qed
qed

section \<open>The runtime\<close>

function magentic_rounds :: "('l, 'w) magentic_env \<Rightarrow> magentic_loop \<Rightarrow> (('l, 'w) magentic_world, magentic_answer) op" where
  "magentic_rounds env (st, current, det) s =
     (if mg_round_number st < me_maximum_rounds env
      then case magentic_round env (st, current, det) s of
             (Inl e, s1) \<Rightarrow> (Inl e, s1)
           | (Inr (Inl answer), s1) \<Rightarrow> (Inr answer, s1)
           | (Inr (Inr v1), s1) \<Rightarrow> magentic_rounds env v1 s1
      else
      let st1 = st\<lparr>mg_phase := MG_Failed, mg_terminal_reason := Some ''round_limit''\<rparr>
      in op_bind (save_magentic st1) (\<lambda>_. op_return (st1, None)) s)"
  by pat_completeness auto
termination
  by (relation "measure (\<lambda>(env, (st, _, _), _). nat (me_maximum_rounds env - mg_round_number st))")
    (auto dest!: magentic_round_ok [OF sym])

definition begin_magentic :: "('l, 'w) magentic_env \<Rightarrow> string \<Rightarrow> string \<Rightarrow> string \<Rightarrow> string \<Rightarrow>
    (('l, 'w) magentic_world, magentic_state \<times> ledger_revision) op" where
  "begin_magentic env tenant sid eid goal =
     op_bind (on_world (me_plan env goal)) (\<lambda>p.
     op_bind (on_world (me_clock env)) (\<lambda>now.
     let r = \<lparr>lr_tenant_id = tenant, lr_session_id = sid, lr_version = 1, lr_objective = opt (pl_objective p) goal,
           lr_open_work = pl_open_work p, lr_completed_work = [], lr_claimed_completed_work = [], lr_verified_facts = [],
           lr_evidence_references = [], lr_blockers = pl_blockers p, lr_satisfaction_criteria = pl_satisfaction_criteria p,
           lr_satisfied_criteria = [], lr_last_action_signature = [], lr_assignment_history = [], lr_confidence = 0,
           lr_reset_count = 0, lr_predecessor_version = None, lr_stall_evidence_references = [],
           lr_idempotency_key = eid @ '':initial-plan'', lr_created_at = now\<rparr> in
     if \<not> revision_ok r then op_raise (ValueError ''LedgerRevision'')
     else op_bind (on_ledger (me_append env r 0)) (\<lambda>current.
       let st = \<lparr>mg_tenant_id = tenant, mg_session_id = sid, mg_execution_id = eid, mg_phase = MG_Planning,
             mg_ledger_version = lr_version current, mg_round_number = 0, mg_reset_count = 0, mg_selected_agent_id = None,
             mg_human_review_token_digest = None, mg_safe_output = None, mg_terminal_reason = None, mg_checkpoint_version = 1\<rparr> in
       op_bind (save_magentic st) (\<lambda>_. op_return (st, current)))))"

definition continue_magentic :: "('l, 'w) magentic_env \<Rightarrow> magentic_state \<Rightarrow> ledger_revision \<Rightarrow> (('l, 'w) magentic_world, magentic_answer) op" where
  "continue_magentic env st current =
     (case stall_detector_init 1 2 of
        Inl e \<Rightarrow> op_raise e
      | Inr det \<Rightarrow>
     (case replan_manager_init (me_maximum_resets env) of
        Inl e \<Rightarrow> op_raise e
      | Inr _ \<Rightarrow> magentic_rounds env (st, current, det)))"

definition magentic_execute :: "('l, 'w) magentic_env \<Rightarrow> string \<Rightarrow> string \<Rightarrow> string \<Rightarrow> string \<Rightarrow> (('l, 'w) magentic_world, magentic_answer) op" where
  "magentic_execute env tenant sid eid goal s =
     (case mw_checkpoints s (sid, eid) of
        Some st \<Rightarrow>
          if magentic_terminal (mg_phase st) then (Inr (st, mg_safe_output st), s)
          else op_bind (on_ledger (me_current env tenant sid)) (\<lambda>current.
            case current of
              None \<Rightarrow> op_raise (RuntimeError ''Magentic ledger is unavailable'')
            | Some r \<Rightarrow> continue_magentic env st r) s
      | None \<Rightarrow>
          op_bind (on_ledger (me_current env tenant sid)) (\<lambda>_.
          op_bind (begin_magentic env tenant sid eid goal) (\<lambda>(st, r). continue_magentic env st r)) s)"


section \<open>Outcomes\<close>

lemma magentic_rounds_ok:
  "magentic_rounds env v s = (Inr answer, s1) \<Longrightarrow>
   answer_ok env answer s1 \<and> same_run (fst v) (fst answer) \<and>
   mg_round_number (fst answer) \<le> max (mg_round_number (fst v)) (me_maximum_rounds env)"
proof (induction env v s rule: magentic_rounds.induct)
  case (1 env st current det s)
  show ?case
  proof (cases "mg_round_number st < me_maximum_rounds env")
    case False
    then have "answer = (st\<lparr>mg_phase := MG_Failed, mg_terminal_reason := Some ''round_limit''\<rparr>, None)"
      "s1 = s\<lparr>mw_checkpoints := (mw_checkpoints s)(magentic_key st \<mapsto> st\<lparr>mg_phase := MG_Failed, mg_terminal_reason := Some ''round_limit''\<rparr>)\<rparr>"
      using 1(2) by (auto simp: op_Inr magentic_key_def Let_def)
    then show ?thesis using False by (simp add: answer_ok_def magentic_terminal_def same_run_def magentic_key_def)
  next
    case True
    obtain r s2 where m: "magentic_round env (st, current, det) s = (r, s2)" by fastforce
    then obtain x where x: "r = Inr x" using 1(2) True by (cases r) auto
    note ok = magentic_round_ok [OF m [unfolded x]]
    show ?thesis
    proof (cases x)
      case (Inl ans)
      then have "answer = ans" "s1 = s2" using 1(2) True m x by auto
      then show ?thesis using ok Inl True by (cases ans) auto
    next
      case (Inr v1)
      obtain st1 r1 det1 where v1: "v1 = (st1, r1, det1)" by (cases v1) auto
      have "magentic_rounds env v1 s2 = (Inr answer, s1)" using 1(2) True m x Inr by simp
      then have "answer_ok env answer s1 \<and> same_run st1 (fst answer) \<and>
          mg_round_number (fst answer) \<le> max (mg_round_number st1) (me_maximum_rounds env)"
        using 1(1) [OF True m [symmetric] x Inr] v1 by simp
      then show ?thesis using ok Inr v1 True by (auto simp: same_run_def)
    qed
  qed
qed

lemma continue_magentic_ok:
  assumes "continue_magentic env st r s = (Inr answer, s1)"
  shows "answer_ok env answer s1 \<and> same_run st (fst answer) \<and>
    mg_round_number (fst answer) \<le> max (mg_round_number st) (me_maximum_rounds env)"
proof -
  have "stall_detector_init 1 2 \<noteq> Inl e" for e by (simp add: stall_detector_init_def)
  then obtain det where "stall_detector_init 1 2 = Inr det" by (cases "stall_detector_init 1 2") auto
  then have "magentic_rounds env (st, r, det) s = (Inr answer, s1)"
    using assms by (auto simp: continue_magentic_def op_raise_def split: sum.splits)
  then show ?thesis using magentic_rounds_ok by fastforce
qed

lemma begin_magentic_ok:
  "begin_magentic env tenant sid eid goal s = (Inr (st, r), s1) \<Longrightarrow> magentic_key st = (sid, eid) \<and> mg_round_number st = 0"
  by (auto simp: begin_magentic_def op_Inr Let_def magentic_key_def split: if_splits)

lemma magentic_execute_ok:
  assumes ex: "magentic_execute env tenant sid eid goal s = (Inr answer, s1)"
    and fresh: "case mw_checkpoints s (sid, eid) of None \<Rightarrow> n = 0
      | Some st \<Rightarrow> magentic_key st = (sid, eid) \<and> \<not> magentic_terminal (mg_phase st) \<and> n = mg_round_number st"
  shows "answer_ok env answer s1 \<and> magentic_key (fst answer) = (sid, eid) \<and> mg_round_number (fst answer) \<le> max n (me_maximum_rounds env)"
proof (cases "mw_checkpoints s (sid, eid)")
  case None
  then obtain st r s2 where b: "\<exists>s0. begin_magentic env tenant sid eid goal s0 = (Inr (st, r), s2)"
    and c: "continue_magentic env st r s2 = (Inr answer, s1)"
    using ex by (auto simp: magentic_execute_def op_bind_Inr)
  then have "magentic_key st = (sid, eid)" "mg_round_number st = 0" using begin_magentic_ok by blast+
  then show ?thesis using continue_magentic_ok [OF c] fresh None by (simp add: same_run_def)
next
  case (Some st)
  then obtain r s2 where "continue_magentic env st r s2 = (Inr answer, s1)"
    using ex fresh by (auto simp: magentic_execute_def op_bind_Inr op_raise_Inr split: option.splits)
  from continue_magentic_ok [OF this] show ?thesis using fresh Some by (simp add: same_run_def)
qed

lemma magentic_execute_again:
  "answer_ok env answer s1 \<Longrightarrow> magentic_key (fst answer) = (sid, eid) \<Longrightarrow>
   magentic_execute env' tenant sid eid goal s1 = (Inr (fst answer, mg_safe_output (fst answer)), s1)"
  by (cases answer) (simp add: magentic_execute_def answer_ok_def)


text \<open>
  A crash between the append of a round and its checkpoint: the round is worked again, the ledger
  returns the revision it already has, the new work is dropped, and the round counts as no progress.
\<close>

lemma crashed_round_discarded:
  assumes "ml_commands l (lr_tenant_id current, lr_session_id current, key) = Some current"
  shows "mem_ledger_append (next_revision u agent key current) (lr_version current) l = (Inr current, l)"
    "\<not> pa_progressed (evaluate_progress current current)"
  using assms by (simp_all add: mem_ledger_append_def lr_command_def next_revision_def no_progress_on_same)

text \<open>The participant's update may set the counter that bounds the replans.\<close>

lemma reset_count_overwritten:
  "lu_reset_count u = Some 0 \<Longrightarrow> 0 < maximum \<Longrightarrow>
   \<exists>r. manager_replan maximum (next_revision u agent key current) work facts ref key' = Inr r"
  by (simp add: manager_replan_def next_revision_def opt_def)

section \<open>Properties\<close>

definition resumable :: "string \<times> string \<Rightarrow> magentic_state option \<Rightarrow> bool" where
  "resumable key st \<longleftrightarrow> (case st of None \<Rightarrow> True | Some x \<Rightarrow> magentic_key x = key \<and> \<not> magentic_terminal (mg_phase x))"

definition rounds_before :: "magentic_state option \<Rightarrow> int" where
  "rounds_before st = (case st of None \<Rightarrow> 0 | Some x \<Rightarrow> mg_round_number x)"

definition no_update :: ledger_update where
  "no_update = \<lparr>lu_objective = None, lu_open_work = None, lu_completed_work = None, lu_claimed_completed_work = None, lu_verified_facts = None,
     lu_evidence_references = None, lu_blockers = None, lu_satisfaction_criteria = None, lu_satisfied_criteria = None,
     lu_last_action_signature = None, lu_confidence = None, lu_reset_count = None, lu_stall_evidence_references = None, lu_created_at = None\<rparr>"

definition demo_env :: "(mem_ledger, nat) magentic_env" where
  "demo_env = \<lparr>me_append = mem_ledger_append, me_current = (\<lambda>t s l. (Inr (mem_ledger_current t s l), l)),
     me_plan = (\<lambda>_ n. (Inr \<lparr>pl_objective = None, pl_open_work = [''w''], pl_satisfaction_criteria = [''c''], pl_blockers = []\<rparr>, n)),
     me_run_participant = (\<lambda>_ _ n. (Inr (if n = 0 then no_update
       else no_update\<lparr>lu_open_work := Some [], lu_completed_work := Some [''w''], lu_satisfied_criteria := Some [''c'']\<rparr>), n + 1)),
     me_replan = (\<lambda>_ _ n. (Inr \<lparr>pr_open_work = None, pr_contradicted_facts = [], pr_stall_evidence_reference = None\<rparr>, n)),
     me_synthesize = (\<lambda>_ n. (Inr ''out'', n)), me_cancelled = None, me_clock = (\<lambda>n. (Inr (int n), n)), me_millis = (\<lambda>d. d div 1000),
     me_participants = [\<lparr>pt_agent_id = ''a'', pt_capabilities = {}, pt_available = True, pt_policy_eligible = True, pt_current_load = 0,
       pt_estimated_latency_ms = 0, pt_recent_no_progress = 0\<rparr>],
     me_required_capabilities = {}, me_maximum_rounds = 3, me_maximum_resets = 1, me_deadline = 100\<rparr>"

definition demo_world :: "(mem_ledger, nat) magentic_world" where
  "demo_world = \<lparr>mw_checkpoints = Map.empty, mw_ledger = \<lparr>ml_revisions = (\<lambda>_. []), ml_commands = Map.empty\<rparr>, mw_world = 0\<rparr>"

lemma demo_magentic:
  "map_sum id (\<lambda>(st, out). (mg_phase st, mg_round_number st, mg_reset_count st, mg_ledger_version st, out))
     (fst (magentic_execute demo_env ''t'' ''s'' ''e'' ''goal'' demo_world)) = Inr (MG_Completed, 2, 1, 4, Some ''out'')"
  by code_simp

text \<open>
  C12: a Magentic run is bounded and its answer is final.  An execution without a checkpoint, or from
  one that is not final, that returns has worked at most \<open>maximum_rounds\<close> rounds in all (or as many as
  the checkpoint had), whatever participants, planner and ledger do.  Its state is completed, failed,
  cancelled or waits for a person, and is the checkpoint.  It is completed only if the last append to
  the ledger gave the revision the state names and that revision has no open work and all its criteria
  satisfied; the output is then returned.  A later execution returns the same state and calls nobody.
\<close>

theorem magentic_outcome:
  fixes env :: "('l, 'w) magentic_env"
  assumes "resumable (sid, eid) (mw_checkpoints s (sid, eid))"
    and "magentic_execute env tenant sid eid goal s = (Inr answer, s1)"
  shows "answer_ok env answer s1 \<and>
    mg_round_number (fst answer) \<le> max (rounds_before (mw_checkpoints s (sid, eid))) (me_maximum_rounds env) \<and>
    (\<forall>(env' :: ('l, 'w) magentic_env) tenant' goal'.
       magentic_execute env' tenant' sid eid goal' s1 = (Inr (fst answer, mg_safe_output (fst answer)), s1))"
proof -
  have "answer_ok env answer s1 \<and> magentic_key (fst answer) = (sid, eid) \<and>
      mg_round_number (fst answer) \<le> max (rounds_before (mw_checkpoints s (sid, eid))) (me_maximum_rounds env)"
    using magentic_execute_ok [OF assms(2)] assms(1) by (auto simp: resumable_def rounds_before_def split: option.splits)
  then show ?thesis using magentic_execute_again by blast
qed

theorem magentic_outcome_witness:
  "\<exists>st out s1. magentic_execute demo_env ''t'' ''s'' ''e'' ''goal'' demo_world = (Inr (st, out), s1) \<and>
     answer_ok demo_env (st, out) s1 \<and> mg_phase st = MG_Completed \<and> mg_round_number st \<le> 3"
proof -
  obtain r s1 where r: "magentic_execute demo_env ''t'' ''s'' ''e'' ''goal'' demo_world = (r, s1)" by (metis surj_pair)
  then obtain st out where a: "r = Inr (st, out)" "mg_phase st = MG_Completed" using demo_magentic by (cases r) auto
  have "resumable (''s'', ''e'') (mw_checkpoints demo_world (''s'', ''e''))" "rounds_before (mw_checkpoints demo_world (''s'', ''e'')) = 0"
    "me_maximum_rounds demo_env = 3" by (simp_all add: resumable_def rounds_before_def demo_world_def demo_env_def)
  then show ?thesis using magentic_outcome [OF _ r [unfolded a(1)]] r a by simp
qed

end
