(* ===== verification/Moa_Runtime.thy ===== *)
theory Moa_Runtime
  imports Moa_Store Magentic_Runtime
begin

text \<open>
  The mixture-of-agents runtime (\<open>app/coordination/moa/adapter.py\<close>): layer after layer, every planned
  deployment proposes, the proposals are stored, and a quorum of valid ones goes to the aggregator; a
  checkpoint after every stage.  The proposal store and the callbacks are parameters over states \<open>'r\<close>
  and \<open>'w\<close>; \<open>sum\<close> over floating-point numbers is a parameter.
\<close>

section \<open>State and environment\<close>

datatype moa_phase = MO_Admitted | MO_Layer_Dispatching | MO_Layer_Collecting | MO_Layer_Aggregating | MO_Synthesizing
  | MO_Completed | MO_Failed | MO_Cancelled

record 'f moa_state =
  yx_tenant_id :: string
  yx_session_id :: string
  yx_execution_id :: string
  yx_phase :: moa_phase
  yx_completed_layers :: nat
  yx_aggregate_references :: "string list"
  yx_safe_output :: "string option"
  yx_total_cost_usd :: 'f
  yx_degraded :: bool
  yx_terminal_reason :: "string option"
  yx_checkpoint_version :: int

text \<open>The mappings the callbacks return; \<open>None\<close> is an absent key.\<close>

record 'f raw_moa_proposal =
  rm_safe_excerpt :: "string option"
  rm_proposal_reference :: "string option"
  rm_evidence_references :: "string list"
  rm_tokens :: int
  rm_latency_ms :: int
  rm_cost_usd :: 'f
  rm_quality_score :: int

record raw_aggregate =
  ra_aggregate_reference :: "string option"
  ra_safe_output :: "string option"

record ('f, 'r, 'w) moa_env =
  ye_float :: "'f float_ops"
  ye_sum :: "'f list \<Rightarrow> 'f"
  ye_uuid5 :: "string \<Rightarrow> string \<Rightarrow> string"
  ye_type_name :: "py_error \<Rightarrow> string"
  ye_create_layer :: "moa_layer \<Rightarrow> ('r, moa_layer) op"
  ye_save_proposal :: "'f moa_proposal \<Rightarrow> ('r, 'f moa_proposal) op"
  ye_propose :: "int \<Rightarrow> 'f model_candidate \<Rightarrow> string \<Rightarrow> string list \<Rightarrow> ('w, 'f raw_moa_proposal) op"
  ye_aggregate :: "int \<Rightarrow> aggregation_input \<Rightarrow> ('w, raw_aggregate) op"
  ye_cancelled :: "('w \<Rightarrow> bool) option"
  ye_candidates :: "'f model_candidate list"
  ye_maximum_cost_usd :: 'f
  ye_allow_degraded :: bool

record ('f, 'r, 'w) moa_world =
  yw_checkpoints :: "string \<times> string \<Rightarrow> 'f moa_state option"
  yw_repository :: 'r
  yw_world :: 'w

record moa_run =
  yr_tenant_id :: string
  yr_session_id :: string
  yr_execution_id :: string
  yr_objective :: string

definition on_repository :: "('r, 'a) op \<Rightarrow> (('f, 'r, 'w) moa_world, 'a) op" where
  "on_repository f s = (case f (yw_repository s) of (x, r) \<Rightarrow> (x, s\<lparr>yw_repository := r\<rparr>))"

definition on_callback :: "('w, 'a) op \<Rightarrow> (('f, 'r, 'w) moa_world, 'a) op" where
  "on_callback f s = (case f (yw_world s) of (x, w) \<Rightarrow> (x, s\<lparr>yw_world := w\<rparr>))"

definition save_moa :: "'f moa_state \<Rightarrow> (('f, 'r, 'w) moa_world, unit) op" where
  "save_moa st s = (Inr (), s\<lparr>yw_checkpoints := (yw_checkpoints s)((yx_session_id st, yx_execution_id st) \<mapsto> st)\<rparr>)"

text \<open>\<open>asyncio.gather\<close>: every call is made; the first exception is raised.\<close>

fun gather_all :: "('a \<Rightarrow> ('w, 'b) op) \<Rightarrow> 'a list \<Rightarrow> 'w \<Rightarrow> 'b result list \<times> 'w" where
  "gather_all f [] w = ([], w)"
| "gather_all f (x # xs) w = (case f x w of (r, w1) \<Rightarrow> case gather_all f xs w1 of (rs, w2) \<Rightarrow> (r # rs, w2))"

definition gather :: "('a \<Rightarrow> ('w, 'b) op) \<Rightarrow> 'a list \<Rightarrow> ('w, 'b list) op" where
  "gather f xs w = (case gather_all f xs w of (rs, w1) \<Rightarrow> (collect rs, w1))"

section \<open>One proposal\<close>

definition no_answer :: "'f float_ops \<Rightarrow> 'f raw_moa_proposal" where
  "no_answer fl = \<lparr>rm_safe_excerpt = None, rm_proposal_reference = None, rm_evidence_references = [], rm_tokens = 0, rm_latency_ms = 0,
     rm_cost_usd = fl_zero fl, rm_quality_score = 0\<rparr>"

definition proposal_of :: "('f, 'r, 'w) moa_env \<Rightarrow> moa_run \<Rightarrow> int \<Rightarrow> string list \<Rightarrow> 'f model_candidate \<Rightarrow> 'f raw_moa_proposal \<Rightarrow> string \<Rightarrow> bool \<Rightarrow>
    string option \<Rightarrow> 'f moa_proposal result" where
  "proposal_of env run index predecessors c raw excerpt valid rejection =
     (let pid = ye_uuid5 env ''NAMESPACE_URL'' (yr_tenant_id run @ '':'' @ yr_execution_id run @ '':'' @ str_int index @ '':'' @ mc_deployment_id c @ '':1'');
          p = \<lparr>yp_proposal_id = pid, yp_tenant_id = yr_tenant_id run, yp_session_id = yr_session_id run, yp_execution_id = yr_execution_id run,
            yp_layer_index = index, yp_participant_id = mc_candidate_id c, yp_provider_id = mc_provider_id c, yp_model_family = mc_model_family c,
            yp_deployment_id = mc_deployment_id c, yp_region = mc_region c, yp_failure_domain = mc_failure_domain c,
            yp_proposal_reference = opt (rm_proposal_reference raw) (''error://'' @ pid), yp_safe_excerpt = excerpt,
            yp_evidence_references = rm_evidence_references raw, yp_predecessor_proposal_ids = predecessors, yp_valid = valid,
            yp_rejection_reason = rejection, yp_tokens = rm_tokens raw, yp_latency_ms = rm_latency_ms raw, yp_cost_usd = rm_cost_usd raw,
            yp_quality_score = rm_quality_score raw, yp_attempt = 1,
            yp_idempotency_key = yr_execution_id run @ '':'' @ str_int index @ '':'' @ mc_deployment_id c @ '':1''\<rparr>
      in if proposal_fields_ok (ye_float env) p then Inr p else Inl (ValueError ''MoAProposal''))"

definition run_proposer :: "('f, 'r, 'w) moa_env \<Rightarrow> moa_run \<Rightarrow> int \<Rightarrow> string list \<Rightarrow> 'f model_candidate \<Rightarrow> ('w, 'f moa_proposal) op" where
  "run_proposer env run index predecessors c w =
     (let failed = (\<lambda>name. proposal_of env run index predecessors c (no_answer (ye_float env)) [] False (Some (''provider_error:'' @ name))) in
      case ye_propose env index c (yr_objective run) predecessors w of
        (Inl e, w1) \<Rightarrow> (failed (ye_type_name env e), w1)
      | (Inr raw, w1) \<Rightarrow>
          (case rm_safe_excerpt raw of
             None \<Rightarrow> (failed (ye_type_name env (KeyError ''safe_excerpt'')), w1)
           | Some excerpt \<Rightarrow> (proposal_of env run index predecessors c raw excerpt (\<not> unsafe_excerpt excerpt)
               (if unsafe_excerpt excerpt then Some ''unsafe_content'' else None), w1)))"

section \<open>One layer\<close>

definition run_layer :: "moa_run \<Rightarrow> moa_layer \<Rightarrow> moa_layer" where
  "run_layer run l = l\<lparr>yl_tenant_id := yr_tenant_id run, yl_session_id := yr_session_id run, yl_execution_id := yr_execution_id run,
     yl_idempotency_key := yr_execution_id run @ '':layer:'' @ str_int (yl_layer_index l)\<rparr>"

definition layer_candidates :: "('f, 'r, 'w) moa_env \<Rightarrow> moa_layer \<Rightarrow> 'f model_candidate list result" where
  "layer_candidates env l = collect (map (\<lambda>d. case map_of (by_deployment (ye_candidates env)) d of None \<Rightarrow> Inl (KeyError d) | Some c \<Rightarrow> Inr c)
     (yl_deployment_ids l))"

definition stop_moa :: "'f moa_state \<Rightarrow> (('f, 'r, 'w) moa_world, 'f moa_state + 'c) op" where
  "stop_moa st = op_bind (save_moa st) (\<lambda>_. op_return (Inl st))"

definition fail_moa :: "'f moa_state \<Rightarrow> string \<Rightarrow> (('f, 'r, 'w) moa_world, 'f moa_state + 'c) op" where
  "fail_moa st why = stop_moa (st\<lparr>yx_phase := MO_Failed, yx_terminal_reason := Some why\<rparr>)"

definition best_proposal :: "'f moa_proposal list \<Rightarrow> 'f moa_proposal" where
  "best_proposal ps = hd (sort_key (\<lambda>p. (- yp_quality_score p, yp_proposal_id p)) ps)"

definition aggregate_layer :: "('f, 'r, 'w) moa_env \<Rightarrow> moa_layer \<Rightarrow> 'f moa_state \<Rightarrow> 'f moa_proposal list \<Rightarrow> 'f \<Rightarrow>
    (('f, 'r, 'w) moa_world, 'f moa_state + 'f moa_state \<times> string list) op" where
  "aggregate_layer env l st stored cost =
     (case build_aggregation_input stored 16000 of
        Inl e \<Rightarrow> op_raise e
      | Inr inp \<Rightarrow>
          let st1 = st\<lparr>yx_phase := MO_Layer_Aggregating\<rparr> in
          op_bind (save_moa st1) (\<lambda>_.
          op_bind (on_callback (ye_aggregate env (yl_layer_index l) inp)) (\<lambda>raw.
          case ra_aggregate_reference raw of
            None \<Rightarrow> op_raise (KeyError ''aggregate_reference'')
          | Some reference \<Rightarrow>
          (case ra_safe_output raw of
            None \<Rightarrow> op_raise (KeyError ''safe_output'')
          | Some output \<Rightarrow>
              let st2 = st1\<lparr>yx_completed_layers := yx_completed_layers st1 + 1, yx_aggregate_references := yx_aggregate_references st1 @ [reference],
                    yx_safe_output := Some (take 8000 output), yx_total_cost_usd := cost\<rparr>
              in op_bind (save_moa st2) (\<lambda>_. op_return (Inr (st2, map yp_proposal_id (filter yp_valid stored))))))))"

definition judge_layer :: "('f, 'r, 'w) moa_env \<Rightarrow> moa_layer \<Rightarrow> 'f moa_state \<Rightarrow> 'f moa_proposal list \<Rightarrow>
    (('f, 'r, 'w) moa_world, 'f moa_state + 'f moa_state \<times> string list) op" where
  "judge_layer env l st stored =
     (let cost = fl_add (ye_float env) (yx_total_cost_usd st) (ye_sum env (map yp_cost_usd stored)) in
      if fl_less (ye_float env) (ye_maximum_cost_usd env) cost then fail_moa st ''cost_limit''
      else
      case evaluate_quorum stored (yl_quorum l) of
        Inl e \<Rightarrow> op_raise e
      | Inr q \<Rightarrow>
      (let valid = filter yp_valid stored in
       if \<not> qr_met q
       then if \<not> ye_allow_degraded env \<or> valid = [] then fail_moa st ''quorum_failed''
            else stop_moa (st\<lparr>yx_phase := MO_Completed, yx_safe_output := Some (yp_safe_excerpt (best_proposal valid)), yx_degraded := True,
              yx_total_cost_usd := cost\<rparr>)
       else aggregate_layer env l st stored cost))"

definition work_layer :: "('f, 'r, 'w) moa_env \<Rightarrow> moa_run \<Rightarrow> moa_layer \<Rightarrow> string list \<Rightarrow> 'f moa_state \<Rightarrow>
    (('f, 'r, 'w) moa_world, 'f moa_state + 'f moa_state \<times> string list) op" where
  "work_layer env run plan prior st s =
     (if ye_cancelled env \<noteq> None \<and> the (ye_cancelled env) (yw_world s)
      then stop_moa (st\<lparr>yx_phase := MO_Cancelled, yx_terminal_reason := Some ''cancelled''\<rparr>) s
      else
      let l = run_layer run plan; st1 = st\<lparr>yx_phase := MO_Layer_Dispatching\<rparr> in
      op_bind (on_repository (ye_create_layer env l)) (\<lambda>_.
      op_bind (save_moa st1) (\<lambda>_.
      case layer_candidates env l of
        Inl e \<Rightarrow> op_raise e
      | Inr cs \<Rightarrow>
          op_bind (on_callback (gather (run_proposer env run (yl_layer_index l) prior) cs)) (\<lambda>proposals.
          op_bind (on_repository (traverse (ye_save_proposal env) proposals)) (\<lambda>stored.
          judge_layer env l st1 stored)))) s)"

section \<open>The runtime\<close>

fun work_layers :: "('f, 'r, 'w) moa_env \<Rightarrow> moa_run \<Rightarrow> moa_layer list \<Rightarrow> string list \<Rightarrow> 'f moa_state \<Rightarrow> (('f, 'r, 'w) moa_world, 'f moa_state) op" where
  "work_layers env run [] prior st s = op_bind (save_moa (st\<lparr>yx_phase := MO_Completed\<rparr>)) (\<lambda>_. op_return (st\<lparr>yx_phase := MO_Completed\<rparr>)) s"
| "work_layers env run (l # ls) prior st s =
     (case work_layer env run l prior st s of
        (Inl e, s1) \<Rightarrow> (Inl e, s1)
      | (Inr (Inl st1), s1) \<Rightarrow> (Inr st1, s1)
      | (Inr (Inr (st1, ids)), s1) \<Rightarrow> work_layers env run ls ids st1 s1)"

definition moa_terminal :: "moa_phase \<Rightarrow> bool" where
  "moa_terminal p \<longleftrightarrow> p \<in> {MO_Completed, MO_Failed, MO_Cancelled}"

definition fresh_moa :: "('f, 'r, 'w) moa_env \<Rightarrow> moa_run \<Rightarrow> 'f moa_state" where
  "fresh_moa env run = \<lparr>yx_tenant_id = yr_tenant_id run, yx_session_id = yr_session_id run, yx_execution_id = yr_execution_id run,
     yx_phase = MO_Admitted, yx_completed_layers = 0, yx_aggregate_references = [], yx_safe_output = None,
     yx_total_cost_usd = fl_zero (ye_float env), yx_degraded = False, yx_terminal_reason = None, yx_checkpoint_version = 1\<rparr>"

definition moa_execute :: "('f, 'r, 'w) moa_env \<Rightarrow> moa_run \<Rightarrow> 'f moa_plan \<Rightarrow> (('f, 'r, 'w) moa_world, 'f moa_state) op" where
  "moa_execute env run plan s =
     (case yw_checkpoints s (yr_session_id run, yr_execution_id run) of
        Some st \<Rightarrow> if moa_terminal (yx_phase st) then (Inr st, s)
          else work_layers env run (drop (yx_completed_layers st) (yn_layers plan)) [] st s
      | None \<Rightarrow>
          if fl_less (ye_float env) (ye_maximum_cost_usd env) (yn_worst_case_cost_usd plan)
          then (Inl (ValueError ''MoA plan exceeds runtime cost ceiling''), s)
          else op_bind (save_moa (fresh_moa env run)) (\<lambda>_. work_layers env run (yn_layers plan) [] (fresh_moa env run)) s)"

section \<open>Outcomes\<close>

lemma on_repository_Inr: "on_repository f s = (Inr y, s1) \<longleftrightarrow> (\<exists>r. f (yw_repository s) = (Inr y, r) \<and> s1 = s\<lparr>yw_repository := r\<rparr>)"
  by (auto simp: on_repository_def split: prod.splits)

lemma on_callback_Inr: "on_callback f s = (Inr y, s1) \<longleftrightarrow> (\<exists>w. f (yw_world s) = (Inr y, w) \<and> s1 = s\<lparr>yw_world := w\<rparr>)"
  by (auto simp: on_callback_def split: prod.splits)

definition moa_key :: "'f moa_state \<Rightarrow> string \<times> string" where
  "moa_key st = (yx_session_id st, yx_execution_id st)"

lemma save_moa_Inr: "save_moa st s = (Inr y, s1) \<longleftrightarrow> s1 = s\<lparr>yw_checkpoints := (yw_checkpoints s)(moa_key st \<mapsto> st)\<rparr>"
  by (auto simp: save_moa_def moa_key_def)

lemma stop_moa_Inr: "stop_moa st s = (Inr x, s1) \<longleftrightarrow> x = Inl st \<and> s1 = s\<lparr>yw_checkpoints := (yw_checkpoints s)(moa_key st \<mapsto> st)\<rparr>"
  by (auto simp: stop_moa_def op_bind_Inr save_moa_Inr op_return_Inr)

lemma op_option_Inr: "(case o1 of None \<Rightarrow> op_raise e | Some v \<Rightarrow> f v) s = (Inr y, s1) \<longleftrightarrow> (\<exists>v. o1 = Some v \<and> f v s = (Inr y, s1))"
  by (cases o1) (simp_all add: op_raise_Inr)

lemmas moa_Inr = op_option_Inr op_bind_Inr op_return_Inr op_raise_Inr on_repository_Inr on_callback_Inr save_moa_Inr stop_moa_Inr

text \<open>
  A layer that reached its quorum: enough different deployments with a valid proposal, none of the
  valid ones suspicious to the aggregator.  What a list of layers cost.  A final state and its checkpoint.
\<close>

definition quorum_layer :: "moa_layer \<Rightarrow> 'f moa_proposal list \<Rightarrow> bool" where
  "quorum_layer l stored \<longleftrightarrow> yl_quorum l \<le> int (card (yp_deployment_id ` {p \<in> set stored. yp_valid p})) \<and>
     (\<forall>p \<in> set stored. yp_valid p \<longrightarrow> \<not> injection_text (yp_safe_excerpt p))"

definition layer_cost :: "('f, 'r, 'w) moa_env \<Rightarrow> 'f moa_proposal list \<Rightarrow> 'f \<Rightarrow> 'f" where
  "layer_cost env stored spent = fl_add (ye_float env) spent (ye_sum env (map yp_cost_usd stored))"

definition affordable :: "('f, 'r, 'w) moa_env \<Rightarrow> 'f \<Rightarrow> bool" where
  "affordable env cost \<longleftrightarrow> \<not> fl_less (ye_float env) (ye_maximum_cost_usd env) cost"

definition moa_final :: "'f moa_state \<Rightarrow> ('f, 'r, 'w) moa_world \<Rightarrow> bool" where
  "moa_final st s \<longleftrightarrow> moa_terminal (yx_phase st) \<and> yw_checkpoints s (moa_key st) = Some st"

text \<open>The answer of one proposer instead of an aggregate: allowed, valid, and none of the layer is better.\<close>

definition degraded_answer :: "('f, 'r, 'w) moa_env \<Rightarrow> 'f moa_proposal list \<Rightarrow> 'f moa_state \<Rightarrow> bool" where
  "degraded_answer env stored st \<longleftrightarrow> ye_allow_degraded env \<and> yx_phase st = MO_Completed \<and>
     (\<exists>p \<in> set stored. yp_valid p \<and> yx_safe_output st = Some (yp_safe_excerpt p) \<and>
        (\<forall>q \<in> set stored. yp_valid q \<longrightarrow> yp_quality_score q \<le> yp_quality_score p))"

lemma best_proposal_best:
  assumes "ps \<noteq> []"
  shows "best_proposal ps \<in> set ps" "\<forall>q \<in> set ps. yp_quality_score q \<le> yp_quality_score (best_proposal ps)"
proof -
  let ?k = "\<lambda>p :: 'a moa_proposal. (- yp_quality_score p, yp_proposal_id p)" and ?s = "sort_key (\<lambda>p. (- yp_quality_score p, yp_proposal_id p)) ps"
  have "?s \<noteq> []" using assms by (metis set_empty set_sort)
  then obtain b bs where b: "?s = b # bs" by (cases ?s) auto
  then have best: "best_proposal ps = b" by (simp add: best_proposal_def)
  have set: "set ps = set (b # bs)" using b by (metis set_sort)
  then show "best_proposal ps \<in> set ps" by (simp add: best)
  have "sorted (map ?k (b # bs))" using sorted_sort_key [of ?k ps] by (simp add: b)
  then show "\<forall>q \<in> set ps. yp_quality_score q \<le> yp_quality_score (best_proposal ps)"
    by (auto simp: best set less_eq_prod_def)
qed

definition layer_ended :: "('f, 'r, 'w) moa_env \<Rightarrow> 'f moa_state \<Rightarrow> 'f moa_state \<Rightarrow> bool" where
  "layer_ended env st st1 \<longleftrightarrow> moa_key st1 = moa_key st \<and> yx_completed_layers st1 = yx_completed_layers st \<and>
     yx_aggregate_references st1 = yx_aggregate_references st \<and>
     (if yx_degraded st1 \<and> \<not> yx_degraded st
      then affordable env (yx_total_cost_usd st1) \<and>
        (\<exists>stored. yx_total_cost_usd st1 = layer_cost env stored (yx_total_cost_usd st) \<and> degraded_answer env stored st1)
      else yx_degraded st1 = yx_degraded st \<and> yx_total_cost_usd st1 = yx_total_cost_usd st \<and> yx_phase st1 \<noteq> MO_Completed \<and> yx_terminal_reason st1 \<noteq> None)"

definition layer_advanced :: "('f, 'r, 'w) moa_env \<Rightarrow> moa_layer \<Rightarrow> 'f moa_proposal list \<Rightarrow> 'f moa_state \<Rightarrow> 'f moa_state \<Rightarrow> bool" where
  "layer_advanced env l stored st st1 \<longleftrightarrow> moa_key st1 = moa_key st \<and> yx_completed_layers st1 = yx_completed_layers st + 1 \<and>
     length (yx_aggregate_references st1) = length (yx_aggregate_references st) + 1 \<and> yx_degraded st1 = yx_degraded st \<and>
     yx_total_cost_usd st1 = layer_cost env stored (yx_total_cost_usd st) \<and> affordable env (yx_total_cost_usd st1) \<and> quorum_layer l stored"

definition layer_step_ok :: "('f, 'r, 'w) moa_env \<Rightarrow> moa_layer \<Rightarrow> 'f moa_state \<Rightarrow> 'f moa_state + 'f moa_state \<times> string list \<Rightarrow> ('f, 'r, 'w) moa_world \<Rightarrow> bool" where
  "layer_step_ok env l st x s \<longleftrightarrow>
     (case x of Inl st1 \<Rightarrow> moa_final st1 s \<and> layer_ended env st st1 | Inr (st1, ids) \<Rightarrow> \<exists>stored. layer_advanced env l stored st st1)"

lemma aggregate_layer_ok:
  assumes "aggregate_layer env l st stored (layer_cost env stored (yx_total_cost_usd st)) s = (Inr x, s1)"
    and "affordable env (layer_cost env stored (yx_total_cost_usd st))"
    and "evaluate_quorum stored (yl_quorum l) = Inr q" "qr_met q"
  shows "layer_step_ok env l st x s1"
proof -
  obtain inp where inp: "build_aggregation_input stored 16000 = Inr inp"
    using assms(1) by (cases "build_aggregation_input stored 16000") (auto simp: aggregate_layer_def op_raise_Inr)
  then have "quorum_layer l stored"
    using aggregation_input_safe [OF inp] quorum_counts_deployments [OF assms(3)] assms(4) by (simp add: quorum_layer_def)
  then show ?thesis
    using assms(1,2) by (auto simp: aggregate_layer_def inp Let_def moa_Inr layer_step_ok_def layer_advanced_def moa_key_def)
qed

lemma fail_moa_ok: "fail_moa st why s = (Inr x, s1) \<Longrightarrow> \<not> yx_degraded st \<Longrightarrow> layer_step_ok env l st x s1"
  by (auto simp: fail_moa_def moa_Inr layer_step_ok_def moa_final_def moa_terminal_def layer_ended_def moa_key_def)

lemma judge_layer_ok:
  assumes j: "judge_layer env l st stored s = (Inr x, s1)" and d: "\<not> yx_degraded st"
  shows "layer_step_ok env l st x s1"
proof -
  let ?cost = "layer_cost env stored (yx_total_cost_usd st)" and ?valid = "filter yp_valid stored"
  show ?thesis
  proof (cases "affordable env ?cost")
    case False
    then show ?thesis using j fail_moa_ok [OF _ d] by (simp add: judge_layer_def Let_def affordable_def layer_cost_def)
  next
    case True
    then obtain q where q: "evaluate_quorum stored (yl_quorum l) = Inr q"
      using j by (cases "evaluate_quorum stored (yl_quorum l)") (auto simp: judge_layer_def Let_def affordable_def layer_cost_def op_raise_Inr)
    let ?st = "st\<lparr>yx_phase := MO_Completed, yx_safe_output := Some (yp_safe_excerpt (best_proposal ?valid)), yx_degraded := True, yx_total_cost_usd := ?cost\<rparr>"
    have j2: "(if \<not> qr_met q then if \<not> ye_allow_degraded env \<or> ?valid = [] then fail_moa st ''quorum_failed'' else stop_moa ?st
        else aggregate_layer env l st stored ?cost) s = (Inr x, s1)"
      using j True q by (auto simp: judge_layer_def Let_def affordable_def layer_cost_def split: if_splits)
    consider "qr_met q" | "\<not> qr_met q" "\<not> ye_allow_degraded env \<or> ?valid = []" | "\<not> qr_met q" "ye_allow_degraded env" "?valid \<noteq> []" by blast
    then show ?thesis
    proof cases
      case 1 then show ?thesis using aggregate_layer_ok [OF _ True q] j2 by simp
    next
      case 2 then show ?thesis using j2 fail_moa_ok [OF _ d] by simp
    next
      case 3
      have "degraded_answer env stored ?st" using best_proposal_best [OF 3(3)] 3(2) by (auto simp: degraded_answer_def)
      then have "layer_ended env st ?st" using d True by (auto simp: layer_ended_def moa_key_def)
      then show ?thesis using j2 3 by (auto simp: moa_Inr layer_step_ok_def moa_final_def moa_terminal_def)
    qed
  qed
qed

lemma work_layer_ok:
  assumes "work_layer env run l prior st s = (Inr x, s1)" and "\<not> yx_degraded st"
  shows "layer_step_ok env l st x s1"
proof (cases "ye_cancelled env \<noteq> None \<and> the (ye_cancelled env) (yw_world s)")
  case True
  then show ?thesis
    using assms by (auto simp: work_layer_def moa_Inr layer_step_ok_def moa_final_def moa_terminal_def layer_ended_def moa_key_def)
next
  case False
  then obtain stored s2 where j: "judge_layer env (run_layer run l) (st\<lparr>yx_phase := MO_Layer_Dispatching\<rparr>) stored s2 = (Inr x, s1)"
    using assms(1) by (auto simp: work_layer_def Let_def moa_Inr split: sum.splits)
  have "layer_step_ok env (run_layer run l) (st\<lparr>yx_phase := MO_Layer_Dispatching\<rparr>) x s1" using judge_layer_ok [OF j] assms(2) by simp
  then show ?thesis
    by (auto simp: layer_step_ok_def layer_ended_def layer_advanced_def moa_key_def quorum_layer_def run_layer_def split: sum.splits)
qed

text \<open>What an execution from a state to a final state did: the stored proposals of the layers it completed, one list each.\<close>

definition layers_outcome :: "('f, 'r, 'w) moa_env \<Rightarrow> moa_layer list \<Rightarrow> 'f moa_state \<Rightarrow> 'f moa_proposal list list \<Rightarrow> 'f moa_state \<Rightarrow> bool" where
  "layers_outcome env ls st storeds st1 \<longleftrightarrow>
     length storeds \<le> length ls \<and> list_all2 quorum_layer (take (length storeds) ls) storeds \<and>
     yx_completed_layers st1 = yx_completed_layers st + length storeds \<and>
     length (yx_aggregate_references st1) = length (yx_aggregate_references st) + length storeds \<and>
     (yx_total_cost_usd st1 = yx_total_cost_usd st \<or> affordable env (yx_total_cost_usd st1)) \<and>
     (if yx_degraded st1
      then \<exists>stored. yx_total_cost_usd st1 = layer_cost env stored (fold (layer_cost env) storeds (yx_total_cost_usd st)) \<and> degraded_answer env stored st1
      else yx_total_cost_usd st1 = fold (layer_cost env) storeds (yx_total_cost_usd st) \<and>
        (yx_phase st1 = MO_Completed \<longrightarrow> length storeds = length ls) \<and> (yx_phase st1 \<noteq> MO_Completed \<longrightarrow> yx_terminal_reason st1 \<noteq> None))"

lemma layers_outcome_Nil: "layer_ended env st st1 \<Longrightarrow> \<not> yx_degraded st \<Longrightarrow> layers_outcome env ls st [] st1"
  by (auto simp: layer_ended_def layers_outcome_def split: if_splits)

lemma layers_outcome_Cons:
  "layer_advanced env l stored st st1 \<Longrightarrow> layers_outcome env ls st1 storeds st2 \<Longrightarrow> layers_outcome env (l # ls) st (stored # storeds) st2"
  by (auto simp: layer_advanced_def layers_outcome_def split: if_splits)

lemma work_layers_ok:
  "work_layers env run ls prior st s = (Inr st1, s1) \<Longrightarrow> \<not> yx_degraded st \<Longrightarrow>
   moa_final st1 s1 \<and> moa_key st1 = moa_key st \<and> (\<exists>storeds. layers_outcome env ls st storeds st1)"
proof (induction ls arbitrary: prior st s)
  case Nil
  then show ?case
    by (auto simp: moa_Inr moa_final_def moa_terminal_def moa_key_def layers_outcome_def)
next
  case (Cons l ls)
  obtain x s2 where x: "work_layer env run l prior st s = (Inr x, s2)"
    using Cons.prems(1) by (cases "work_layer env run l prior st s"; cases "fst (work_layer env run l prior st s)") auto
  note ok = work_layer_ok [OF x Cons.prems(2), unfolded layer_step_ok_def]
  show ?case
  proof (cases x)
    case (Inl st2)
    then have "st1 = st2" "s1 = s2" using Cons.prems(1) x by auto
    then have "moa_final st1 s1" "moa_key st1 = moa_key st" "layers_outcome env (l # ls) st [] st1"
      using ok Inl layers_outcome_Nil [OF _ Cons.prems(2)] by (auto simp: layer_ended_def)
    then show ?thesis by blast
  next
    case (Inr v)
    obtain st2 ids where v: "v = (st2, ids)" by (cases v)
    then obtain stored where a: "layer_advanced env l stored st st2" using ok Inr by auto
    have w: "work_layers env run ls ids st2 s2 = (Inr st1, s1)" using Cons.prems(1) x Inr v by simp
    have d: "\<not> yx_degraded st2" "moa_key st2 = moa_key st" using a Cons.prems(2) by (simp_all add: layer_advanced_def)
    from Cons.IH [OF w d(1)] obtain storeds where "moa_final st1 s1" "moa_key st1 = moa_key st2" "layers_outcome env ls st2 storeds st1" by blast
    then show ?thesis using layers_outcome_Cons [OF a] d(2) by fastforce
  qed
qed

definition moa_start :: "('f, 'r, 'w) moa_env \<Rightarrow> moa_run \<Rightarrow> ('f, 'r, 'w) moa_world \<Rightarrow> 'f moa_state" where
  "moa_start env run s = opt (yw_checkpoints s (yr_session_id run, yr_execution_id run)) (fresh_moa env run)"

definition moa_resumable :: "('f, 'r, 'w) moa_env \<Rightarrow> moa_run \<Rightarrow> ('f, 'r, 'w) moa_world \<Rightarrow> bool" where
  "moa_resumable env run s \<longleftrightarrow> moa_key (moa_start env run s) = (yr_session_id run, yr_execution_id run) \<and>
     \<not> moa_terminal (yx_phase (moa_start env run s)) \<and> \<not> yx_degraded (moa_start env run s)"

lemma moa_execute_start:
  assumes "moa_execute env run plan s = (Inr st, s1)" "moa_resumable env run s"
  shows "\<exists>s0. work_layers env run (drop (yx_completed_layers (moa_start env run s)) (yn_layers plan)) [] (moa_start env run s) s0 = (Inr st, s1)"
  using assms by (auto simp: moa_execute_def moa_start_def moa_resumable_def opt_def moa_Inr fresh_moa_def split: option.splits if_splits)

lemma moa_execute_again:
  "moa_final st s \<Longrightarrow> moa_key st = (yr_session_id run, yr_execution_id run) \<Longrightarrow> moa_execute env run plan s = (Inr st, s)"
  by (simp add: moa_final_def moa_execute_def)

section \<open>Resuming a layer\<close>

text \<open>The key of a proposal is that of its run, layer and deployment, whatever the proposer answers.\<close>

lemma run_proposer_key:
  assumes "run_proposer env run index prior c w = (Inr p, w1)"
  shows "mem_command p = (yr_tenant_id run, yr_execution_id run @ '':'' @ str_int index @ '':'' @ mc_deployment_id c @ '':1'')"
    "yp_execution_id p = yr_execution_id run" "yp_deployment_id p = mc_deployment_id c" "proposal_fields_ok (ye_float env) p"
  using assms by (auto simp: run_proposer_def proposal_of_def Let_def mem_command_def split: prod.splits sum.splits option.splits if_splits)

lemma gather_all_results: "gather_all f xs w = (rs, w1) \<Longrightarrow> list_all2 (\<lambda>x r. \<exists>w0 w2. f x w0 = (r, w2)) xs rs"
  by (induction xs arbitrary: w rs) (auto split: prod.splits)

lemma gather_results: "gather f xs w = (Inr ys, w1) \<Longrightarrow> list_all2 (\<lambda>x y. \<exists>w0 w2. f x w0 = (Inr y, w2)) xs ys"
  by (auto simp: gather_def collect_Inr list.rel_map dest!: gather_all_results split: prod.splits)

lemma gathered_keys:
  assumes "gather (run_proposer env run index prior) cs w = (Inr ps, w1)"
  shows "map mem_command ps = map (\<lambda>c. (yr_tenant_id run, yr_execution_id run @ '':'' @ str_int index @ '':'' @ mc_deployment_id c @ '':1'')) cs"
  using gather_results [OF assms] by (induction rule: list_all2_induct) (auto dest: run_proposer_key(1))

text \<open>
  A layer worked again after a crash, with other answers of the same deployments, is judged on the
  proposals of the first time.
\<close>

lemma layer_replayed:
  assumes "gather (run_proposer env run index prior) cs w = (Inr ps, w1)" "traverse mem_save_proposal ps r = (Inr qs, r1)"
    and "traverse mem_save_proposal others r1 = (res, r2)"
    and "gather (run_proposer env' run index prior') cs w' = (Inr ps', w2)"
  shows "traverse mem_save_proposal ps' r2 = (Inr qs, r2)"
  using mem_first_write [OF assms(2,3)] gathered_keys [OF assms(1)] gathered_keys [OF assms(4)] by simp

text \<open>
  The runtime accepts text that the aggregator refuses.  A layer with such a proposal cannot be judged,
  and as its proposals are kept, no later execution gets past it.
\<close>

lemma poisoned_layer:
  assumes "affordable env (layer_cost env stored (yx_total_cost_usd st))" "evaluate_quorum stored (yl_quorum l) = Inr q" "qr_met q"
    and "p \<in> set stored" "yp_valid p" "injection_text (yp_safe_excerpt p)"
  shows "judge_layer env l st stored s = (Inl (ValueError ''unsafe proposal content''), s)"
  using assms by (auto simp: judge_layer_def Let_def affordable_def layer_cost_def aggregate_layer_def build_aggregation_input_def op_raise_def list_ex_iff)

section \<open>Properties\<close>

definition demo_candidate :: "string \<Rightarrow> int model_candidate" where
  "demo_candidate d = \<lparr>mc_candidate_id = d, mc_provider_id = d, mc_model_family = d, mc_deployment_id = d, mc_region = ''eu'', mc_failure_domain = d,
     mc_healthy = True, mc_context_limit = 100, mc_estimated_cost_usd = 1, mc_estimated_latency_ms = 1, mc_capabilities = {}\<rparr>"

definition demo_moa :: "string \<Rightarrow> (int, int mem_moa, nat) moa_env" where
  "demo_moa answer = \<lparr>ye_float = \<lparr>fl_zero = 0, fl_one = 1, fl_add = (+), fl_less = (<)\<rparr>, ye_sum = sum_list, ye_uuid5 = (\<lambda>n s. s),
     ye_type_name = (\<lambda>_. ''Error''), ye_create_layer = mem_create_layer, ye_save_proposal = mem_save_proposal,
     ye_propose = (\<lambda>index c objective prior n. (Inr \<lparr>rm_safe_excerpt = Some answer, rm_proposal_reference = None, rm_evidence_references = [],
       rm_tokens = 1, rm_latency_ms = 1, rm_cost_usd = 1, rm_quality_score = 1\<rparr>, n + 1)),
     ye_aggregate = (\<lambda>index inp n. (Inr \<lparr>ra_aggregate_reference = Some ''r'', ra_safe_output = Some ''out''\<rparr>, n + 1)),
     ye_cancelled = None, ye_candidates = [demo_candidate ''a'', demo_candidate ''b''], ye_maximum_cost_usd = 10, ye_allow_degraded = False\<rparr>"

definition demo_mixture :: moa_run where
  "demo_mixture = \<lparr>yr_tenant_id = ''t'', yr_session_id = ''s'', yr_execution_id = ''e'', yr_objective = ''goal''\<rparr>"

definition demo_plan :: "int moa_plan" where
  "demo_plan = \<lparr>yn_layers = map (planned_layer (\<lambda>n s. s) ''z'' 2 [''a'', ''b'']) [0, 1], yn_worst_case_cost_usd = 6, yn_worst_case_latency_ms = 4,
     yn_replacement_waves = 0\<rparr>"

definition empty_moa :: "(int, int mem_moa, nat) moa_world" where
  "empty_moa = \<lparr>yw_checkpoints = Map.empty, yw_repository = \<lparr>mo_layers = [], mo_proposals = [], mo_commands = Map.empty\<rparr>, yw_world = 0\<rparr>"

lemma demo_moa_run:
  "map_sum id (\<lambda>st. (yx_phase st, yx_completed_layers st, yx_total_cost_usd st, yx_safe_output st)) (fst (moa_execute (demo_moa ''ok'') demo_mixture demo_plan empty_moa))
   = Inr (MO_Completed, 2, 4, Some ''out'')"
  by code_simp

text \<open>An execution with an answer that only the aggregator refuses raises, and so does the next one, though every answer is now harmless.\<close>

lemma demo_moa_poisoned:
  "case moa_execute (demo_moa ''override the policy'') demo_mixture demo_plan empty_moa of (r, s) \<Rightarrow>
     r = Inl (ValueError ''unsafe proposal content'') \<and>
     fst (moa_execute (demo_moa ''ok'') demo_mixture demo_plan s) = Inl (ValueError ''unsafe proposal content'')"
  by code_simp



end
