(* ===== verification/Spec2Isabelle.thy ===== *)
theory Spec2Isabelle
  imports Leases Session_Refinement Outbox_Delivery Replay Auction_Lifecycle Auction_Close Handoff_Sweep Cancel_Safety
    Handoff_Recovery Transcript_Order Ledger Supervisor_Order Debate Consensus Swarm Moa_Runtime
begin

text \<open>
  Verification of the durable coordination runtime of AgentVerse, the Python package
  \<open>src/agent-verse-backend/app/coordination\<close>.

  \<^bold>\<open>The program.\<close>  Agents work together in coordination sessions.  The session store keeps one
  row per session with a state, a version for optimistic concurrency and the next sequence number of
  its event log; every accepted command appends one event and one outbox row in the transaction that
  changes the row.  The outbox dispatcher publishes the rows to a stream with at-least-once delivery,
  and subscribers recover by replay.  Work items are held under leases with fencing tokens.  Handoffs
  delegate control from one agent to another while the parent session is paused; a sweep expires
  overdue ones and the resumer wakes the parent.  Cancellation stops all of it in one transaction and
  resumption starts a new attempt from a checkpoint.  The transcript and the progress ledger record
  what was said and done.  Auctions allocate work by sealed bids.  Every repository exists twice, in
  memory and over PostgreSQL.

  \<^bold>\<open>Conventions.\<close>  A table is the list of its rows in insertion order; \<open>INSERT\<close> checks the
  primary key and the unique constraints, \<open>UPDATE\<close> is \<open>update_where\<close>, row-level security is
  \<open>rls_rows\<close> (in force, or bypassed by the role).  A method that runs in one transaction, or under
  one lock, is one step; an exception rolls it back, so the operation returns the state it was given.
  An exception is a value of \<open>py_error\<close>, a fallible operation returns \<open>Inl\<close> of it, and a stateful one
  has the type \<open>('s, 'a) op\<close>.  Instants and durations are integers (microseconds), Python's integers
  are \<open>int\<close>, dictionaries whose order matters are association lists.  Clock readings and random
  identifiers are arguments.  What the sources only call is a parameter: \<open>uuid5\<close>, SHA-256, HMAC and
  the envelope encryption, the stream transport, membership and authorization answers, the guardrail
  verdict, and the callbacks.  Hypotheses on them are named where they are used: \<open>uuid5\<close> is injective
  for the refinements, decryption inverts encryption for the envelope round trip, callbacks do not
  raise for the liveness of the sweep.

  \<^bold>\<open>The theories.\<close>

  \<^item> \<open>Prelude\<close>: exceptions, results, Python idioms, \<open>update_where\<close> and row-level security (\<open>db/rls.py\<close>),
    runs of a machine, invariants, simulations and admissible runs.
  \<^item> \<open>Lifecycle\<close> (\<open>state_machines.py\<close>, \<open>contracts.py\<close>): the transition tables; the locale \<open>lifecycle\<close>
    with its interpretations shows them closed, with absorbing ends, and abortable from everywhere (C1).
  \<^item> \<open>Leases\<close> (\<open>leases.py\<close>): both repositories and the manager; the locale \<open>lease_repository\<close> is the
    contract, interpreted on both.  A reclaimed owner stays fenced (C2), a live lease changes only by
    its holder (C3), and the table refines the in-memory repository (C4).
  \<^item> \<open>Coord_Tables\<close>, \<open>Session_Store\<close> (\<open>db/models/coordination.py\<close>, \<open>store.py\<close>, \<open>service.py\<close>): the
    shared tables, both stores and the command service.  \<open>Session_Log\<close>: gap-free logs and idempotent
    replay (C5, C6).  \<open>Session_Refinement\<close>: the locale \<open>session_store\<close>, refinement, one winner per
    version, isolation without row-level security (C7 to C9).
  \<^item> \<open>Event_Log\<close>: the log invariant that every writer keeps.
  \<^item> \<open>Outbox\<close>, \<open>Outbox_Delivery\<close> (\<open>outbox.py\<close>, \<open>outbox_dispatcher.py\<close>): claiming, delivery, backoff,
    dead letters and the dispatcher; the locale \<open>outbox_repository\<close>; accounting of a pass, disjoint
    claims, bounds of the backoff, the dispatcher's report (C10 to C13).
  \<^item> \<open>Replay\<close> (\<open>replay.py\<close>): paging terminates and returns the snapshot (C14).
  \<^item> \<open>Decimal_Arith\<close>, \<open>Auction_Scoring\<close>, \<open>Auction_Lifecycle\<close>, \<open>Auction_Intake\<close>, \<open>Auction_Stores\<close>,
    \<open>Auction_Service\<close>, \<open>Auction_Close\<close> (\<open>auction\<close>): decimal arithmetic at 28 digits, ranking and
    truthful improvement (C15, C16), lifecycle and threat detection (C17, C19), fairness bounds, a
    single winner (C21), bid versions, the registry refinement (C22, C23), envelopes (C24), the award
    (C25) and its finality (C26, over the locale \<open>auction_store\<close>).
  \<^item> \<open>Pattern_State\<close> (\<open>state_repository.py\<close>): pattern checkpoints refine the in-memory ones (C20).
  \<^item> \<open>Handoff_Store\<close>, \<open>Handoff_Refinement\<close>, \<open>Handoff_Service\<close>, \<open>Handoff_Tokens\<close>, \<open>Handoff_Sweep\<close>,
    \<open>Handoff_Resumption\<close>, \<open>Handoff_Recovery\<close> (\<open>handoffs\<close>): refinement of the repository (C27), progress only with the
    acceptance token (C28, over the locale \<open>handoff_repository\<close>), the sweep releases every parent
    (C29), the parent's steps are idempotent and settle (C36, C37), a handoff that ends is on the list
    of the next sweep (C35) until its session gets another message (C18).
  \<^item> \<open>Session_Cancel\<close>, \<open>Coord_System\<close>, \<open>Cancel_Safety\<close> (\<open>cancellation.py\<close>): cancellation and resumption,
    and the runtime as one transition system \<open>sys_step\<close> in which the store, handoffs, transcript,
    leases, cancellation and the dispatcher interleave.  The log stays gap-free (C30); a cancellation
    stops the session (C31), fences its holders for ever (C32) and happens once (C33); resumption
    (C34); a lost wake-up (\<open>failed_wakeup_lost\<close>).
  \<^item> \<open>Transcript\<close>, \<open>Transcript_Order\<close> (\<open>transcript\<close>): messages in order in the log, well formed, and
    replayed by key (C38, C39).
  \<^item> \<open>Ledger\<close> (\<open>ledger\<close>): the ledger table refines the in-memory ledger (C40).

  \<^bold>\<open>Loops.\<close>  The replay loop is a partial function whose value \<open>None\<close> means that it does not
  return; C14 shows that it returns when finitely many commits happen between its pages.  All other
  loops are total functions: the sweep's batches and the resumer's five attempts are bounds of the
  code, and C29 and C37 say when they are enough.

  \<^bold>\<open>What the model shows of the code.\<close>  A resumed session cannot be cancelled again, because the
  cancellation event's id depends on the session alone (C33); handoffs that are executing survive a
  cancellation (C31); a wake-up that raises is not repeated (\<open>failed_wakeup_lost\<close>); a parent whose
  resumption fails after the resumer wrote its message is not resumed by any sweep (C18); an outbox
  retry that arrives after its claim expired can block the dead-letter entry (\<open>late_retry_blocks_dead_letter\<close>).

  \<^bold>\<open>Not modelled.\<close>  The interleaving of statements inside one transaction and SQL isolation levels
  (row locks make each method atomic); \<open>sealed_bids.py\<close>, an earlier in-process bid box beside the
  registry; the live bus and the Celery tasks, which are input and output; the
  coordination patterns (\<open>moa\<close>, \<open>magentic\<close>, \<open>swarm\<close>, \<open>group_chat\<close>, \<open>camel\<close>, \<open>generative\<close>,
  \<open>patterns\<close>, \<open>pattern_runs\<close>), whose behaviour is that of the language models they call; and the
  subsystems outside the runtime: API, agents, retrieval, connectors, organizations, workflows.
\<close>

end
